(* ===== verification/Prelude.thy ===== *)
theory Prelude
  imports Complex_Main
begin

text \<open>
  Shared vocabulary of the development: the errors the notebooks' code can raise
  (Python and DataJoint exceptions), images as row-major lists of rows (the numpy
  arrays the notebooks manipulate), pixel positions in raster order, and the
  generic list lemmas the component theories use.
\<close>

named_theorems grid_simps "facts about images as lists of rows"

datatype error =
    IndexError        \<comment> \<open>numpy fancy indexing out of bounds\<close>
  | ValueError        \<comment> \<open>unpacking an array of the wrong shape\<close>
  | DuplicateError    \<comment> \<open>DataJoint insert of an existing primary key\<close>
  | IntegrityError    \<comment> \<open>DataJoint insert whose referenced parent row is missing\<close>
  | FetchOneError     \<comment> \<open>DataJoint fetch1 on a relation that does not hold one row\<close>
  | FileNotFound      \<comment> \<open>loading a data file that is not there\<close>
  | NotImplementedError \<comment> \<open>populate on a table whose make is not defined\<close>

type_synonym pos = "nat \<times> nat"
type_synonym 'a grid = "'a list list"

definition width :: "'a grid \<Rightarrow> nat" where
  "width g = (case g of [] \<Rightarrow> 0 | row # _ \<Rightarrow> length row)"

definition rect :: "'a grid \<Rightarrow> bool" where
  "rect g \<longleftrightarrow> list_all (\<lambda>row. length row = width g) g"

definition positions :: "nat \<Rightarrow> nat \<Rightarrow> pos list" where
  "positions h w = concat (map (\<lambda>r. map (\<lambda>c. (r, c)) [0..<w]) [0..<h])"

definition to_grid :: "nat \<Rightarrow> nat \<Rightarrow> (pos \<Rightarrow> 'a) \<Rightarrow> 'a grid" where
  "to_grid h w f = map (\<lambda>r. map (\<lambda>c. f (r, c)) [0..<w]) [0..<h]"

text \<open>Sequencing of fallible steps: the first exception propagates, as in Python.\<close>

definition bind_err :: "error + 'a \<Rightarrow> ('a \<Rightarrow> error + 'b) \<Rightarrow> error + 'b" where
  "bind_err m f = (case m of Inl e \<Rightarrow> Inl e | Inr a \<Rightarrow> f a)"

abbreviation inside :: "'a grid \<Rightarrow> pos \<Rightarrow> bool" where
  "inside g p \<equiv> fst p < length g \<and> snd p < width g"

abbreviation px :: "'a grid \<Rightarrow> pos \<Rightarrow> 'a" where
  "px g p \<equiv> g ! fst p ! snd p"

lemma bind_err_simps [simp]:
  "bind_err (Inl e) f = Inl e"
  "bind_err (Inr a) f = f a"
  by (simp_all add: bind_err_def)

lemma bind_err_Inr_iff: "bind_err m f = Inr b \<longleftrightarrow> (\<exists>a. m = Inr a \<and> f a = Inr b)"
  by (cases m) simp_all

lemma bind_err_Inl_iff:
  "bind_err m f = Inl e \<longleftrightarrow> m = Inl e \<or> (\<exists>a. m = Inr a \<and> f a = Inl e)"
  by (cases m) simp_all

lemma set_positions [grid_simps]:
  "set (positions h w) = {p. fst p < h \<and> snd p < w}"
  by (auto simp: positions_def)

lemma distinct_positions [grid_simps]: "distinct (positions h w)"
  by (induction h) (auto simp: positions_def distinct_map inj_on_def)

lemma length_to_grid [simp]: "length (to_grid h w f) = h"
  by (simp add: to_grid_def)

lemma to_grid_nth [simp]:
  "r < h \<Longrightarrow> c < w \<Longrightarrow> to_grid h w f ! r ! c = f (r, c)"
  by (simp add: to_grid_def)

lemma width_to_grid: "width (to_grid h w f) = (if h = 0 then 0 else w)"
proof (cases h)
  case (Suc k)
  then have "[0..<h] = 0 # [Suc 0..<h]" by (intro upt_conv_Cons) simp
  with Suc show ?thesis by (simp add: to_grid_def width_def)
qed (simp add: to_grid_def width_def)

lemma rect_to_grid [grid_simps]: "rect (to_grid h w f)"
  by (simp add: rect_def width_to_grid list_all_iff) (auto simp: to_grid_def)

lemma width_Nil [simp]: "width [] = 0"
  by (simp add: width_def)

lemma rect_row_length [grid_simps]:
  "rect g \<Longrightarrow> r < length g \<Longrightarrow> length (g ! r) = width g"
  by (simp add: rect_def list_all_length)

lemma rect_map_map [grid_simps]: "rect (map (map f) g) = rect g"
  by (cases g) (simp_all add: rect_def width_def list_all_iff)

lemma width_map_map [simp]: "width (map (map f) g) = width g"
  by (cases g) (simp_all add: width_def)

lemma set_concat_rect [grid_simps]:
  assumes "rect g"
  shows "set (concat g) = {px g p | p. inside g p}"
proof (rule set_eqI)
  fix v
  have "v \<in> set (concat g) \<longleftrightarrow> (\<exists>r < length g. \<exists>c < length (g ! r). g ! r ! c = v)"
    by (force simp: in_set_conv_nth)
  then show "v \<in> set (concat g) \<longleftrightarrow> v \<in> {px g p | p. inside g p}"
    using rect_row_length [OF assms] by fastforce
qed

lemma to_grid_eq_map_map:
  "rect g \<Longrightarrow> to_grid (length g) (width g) (\<lambda>p. f (px g p)) = map (map f) g"
  by (fastforce simp: to_grid_def rect_def list_all_length intro!: nth_equalityI)

lemma px_map_map [grid_simps]:
  "rect g \<Longrightarrow> inside g p \<Longrightarrow> px (map (map f) g) p = f (px g p)"
  by (simp add: rect_row_length)

lemma map2_map_self: "map2 h xs (map f xs) = map (\<lambda>x. h x (f x)) xs"
  by (induction xs) simp_all

lemma map2_map_map:
  "map2 (map2 h) g (map (map f) g) = map (map (\<lambda>x. h x (f x))) g"
  by (induction g) (simp_all add: map2_map_self)

lemma map_map_cong_concat:
  "(\<And>x. x \<in> set (concat g) \<Longrightarrow> f x = f' x) \<Longrightarrow> map (map f) g = map (map f') g"
  by (auto intro!: map_cong)

lemma list_all_concat: "list_all (list_all P) g \<longleftrightarrow> (\<forall>x \<in> set (concat g). P x)"
  by (auto simp: list_all_iff)

end
