(* ===== verification/Label.thy ===== *)
theory Label
  imports Prelude
begin

text \<open>
  Connected-component labelling, the contract of \<open>scipy.ndimage.label(mask)\<close> with its
  default structuring element (4-connectivity in two dimensions) that the segmentation
  code of the calcium-imaging notebook calls: every foreground pixel gets a label in
  \<open>1..nb_labels\<close>, the background gets 0, two pixels get the same label when they are
  connected through foreground pixels, and the features are numbered by the raster
  position of their first pixel. The library is not part of the repository; the model
  is written from its documentation. A component is grown from its first pixel by
  repeatedly adding adjacent foreground pixels; the number of rounds is bounded by the
  number of foreground pixels, which is enough (each round that changes the set adds a
  pixel).
\<close>

definition fg_positions :: "bool grid \<Rightarrow> pos list" where
  "fg_positions m = filter (px m) (positions (length m) (width m))"

definition adjacent :: "pos \<Rightarrow> pos \<Rightarrow> bool" where
  "adjacent p q \<longleftrightarrow>
     (fst p = fst q \<and> (snd q = Suc (snd p) \<or> snd p = Suc (snd q))) \<or>
     (snd p = snd q \<and> (fst q = Suc (fst p) \<or> fst p = Suc (fst q)))"

fun grow :: "nat \<Rightarrow> pos list \<Rightarrow> pos list \<Rightarrow> pos list" where
  "grow 0 fg S = S"
| "grow (Suc k) fg S =
     grow k fg (S @ filter (\<lambda>q. q \<notin> set S \<and> list_ex (\<lambda>p. adjacent p q) S) fg)"

definition component :: "pos list \<Rightarrow> pos \<Rightarrow> pos list" where
  "component fg p = grow (length fg) fg [p]"

fun label_scan :: "pos list \<Rightarrow> pos list \<Rightarrow> (pos \<Rightarrow> nat) \<Rightarrow> nat \<Rightarrow> (pos \<Rightarrow> nat) \<times> nat" where
  "label_scan fg [] L n = (L, n)"
| "label_scan fg (p # ps) L n =
     (if L p \<noteq> 0 then label_scan fg ps L n
      else label_scan fg ps
             (\<lambda>q. if q \<in> set (component fg p) \<and> L q = 0 then Suc n else L q) (Suc n))"

definition ndimage_label :: "bool grid \<Rightarrow> nat grid \<times> nat" where
  "ndimage_label m =
     (let fg = fg_positions m;
          (L, n) = label_scan fg fg (\<lambda>_. 0) 0
      in (to_grid (length m) (width m) L, n))"

text \<open>A set of pixels closed under adjacency within the foreground: no foreground pixel
  outside it touches it. A grown component that is closed is a whole connected
  component.\<close>

definition adj_closed :: "pos list \<Rightarrow> pos list \<Rightarrow> bool" where
  "adj_closed fg S \<longleftrightarrow> list_all (\<lambda>q. list_ex (\<lambda>p. adjacent p q) S \<longrightarrow> q \<in> set S) fg"

text \<open>The invariant of the raster scan: labels sit on foreground pixels only, never
  exceed the counter, and every label up to the counter is in use.\<close>

definition label_inv :: "pos list \<Rightarrow> (pos \<Rightarrow> nat) \<Rightarrow> nat \<Rightarrow> bool" where
  "label_inv fg L n \<longleftrightarrow>
     (\<forall>q. L q \<noteq> 0 \<longrightarrow> q \<in> set fg) \<and> (\<forall>q. L q \<le> n) \<and> (\<forall>k. 0 < k \<and> k \<le> n \<longrightarrow> (\<exists>q. L q = k))"

text \<open>Connectivity through foreground pixels: \<open>conn fg p q\<close> when a chain of
  4-adjacent foreground pixels leads from \<open>p\<close> to \<open>q\<close>. This is the relation whose classes
  \<open>ndimage.label\<close> numbers.\<close>

inductive conn :: "pos list \<Rightarrow> pos \<Rightarrow> pos \<Rightarrow> bool" for fg where
  conn_refl: "p \<in> set fg \<Longrightarrow> conn fg p p"
| conn_step: "conn fg p q \<Longrightarrow> r \<in> set fg \<Longrightarrow> adjacent q r \<Longrightarrow> conn fg p r"

lemma set_fg_positions [grid_simps]:
  "set (fg_positions m) = {p. inside m p \<and> px m p}"
  by (auto simp: fg_positions_def grid_simps)

lemma grow_mono: "set S \<subseteq> set (grow k fg S)"
  by (induction k arbitrary: S) force+

lemma grow_subset: "set (grow k fg S) \<subseteq> set S \<union> set fg"
  by (induction k arbitrary: S) force+

lemma component_self [simp]: "p \<in> set (component fg p)"
  using grow_mono [of "[p]"] by (simp add: component_def)

lemma component_subset: "p \<in> set fg \<Longrightarrow> set (component fg p) \<subseteq> set fg"
  using grow_subset [of _ fg "[p]"] by (auto simp: component_def)

lemma label_inv_init: "label_inv fg (\<lambda>_. 0) 0"
  by (simp add: label_inv_def)

lemma label_inv_step:
  assumes "label_inv fg L n" and "p \<in> set fg" and "L p = 0"
  shows "label_inv fg (\<lambda>q. if q \<in> set (component fg p) \<and> L q = 0 then Suc n else L q) (Suc n)"
proof -
  let ?L = "\<lambda>q. if q \<in> set (component fg p) \<and> L q = 0 then Suc n else L q"
  have "\<exists>q. ?L q = k" if "0 < k" "k \<le> Suc n" for k
  proof (cases "k = Suc n")
    case True
    with \<open>L p = 0\<close> show ?thesis by (intro exI [of _ p]) simp
  next
    case False
    with that assms(1) obtain q where "L q = k" by (auto simp: label_inv_def)
    with that show ?thesis by (intro exI [of _ q]) simp
  qed
  then show ?thesis
    using assms component_subset [OF assms(2)]
    by (auto simp: label_inv_def le_Suc_eq)
qed

lemma label_scan_inv:
  "set ps \<subseteq> set fg \<Longrightarrow> label_inv fg L n \<Longrightarrow> label_scan fg ps L n = (L', n') \<Longrightarrow>
   label_inv fg L' n' \<and> (\<forall>q. L q \<noteq> 0 \<longrightarrow> L' q = L q) \<and> (\<forall>p \<in> set ps. L' p \<noteq> 0)"
proof (induction fg ps L n rule: label_scan.induct)
  case (1 fg L n)
  then show ?case by simp
next
  case (2 fg p ps L n)
  show ?case
  proof (cases "L p \<noteq> 0")
    case True
    with "2.IH"(1) "2.prems" have
      "label_inv fg L' n' \<and> (\<forall>q. L q \<noteq> 0 \<longrightarrow> L' q = L q) \<and> (\<forall>p \<in> set ps. L' p \<noteq> 0)"
      by simp
    with True show ?thesis by (simp del: split_paired_All)
  next
    case False
    let ?L = "\<lambda>q. if q \<in> set (component fg p) \<and> L q = 0 then Suc n else L q"
    from False "2.prems" have "label_inv fg ?L (Suc n)"
      by (intro label_inv_step) auto
    with False "2.IH"(2) "2.prems" have H:
      "label_inv fg L' n' \<and> (\<forall>q. ?L q \<noteq> 0 \<longrightarrow> L' q = ?L q) \<and> (\<forall>p \<in> set ps. L' p \<noteq> 0)"
      by auto
    with False have "L' p = Suc n"
      by (simp del: split_paired_All)
    with H False show ?thesis
      by (auto simp del: split_paired_All split: if_splits)
  qed
qed

lemma label_scan_fg:
  assumes "label_scan (fg_positions m) (fg_positions m) (\<lambda>_. 0) 0 = (L, n)"
  shows "label_inv (fg_positions m) L n" and "\<forall>p \<in> set (fg_positions m). L p \<noteq> 0"
  using label_scan_inv [OF _ label_inv_init assms] by auto

lemma ndimage_label_grid:
  assumes "ndimage_label m = (li, nb)"
  obtains L where "li = to_grid (length m) (width m) L"
    and "label_inv (fg_positions m) L nb" and "\<forall>p \<in> set (fg_positions m). L p \<noteq> 0"
proof -
  obtain L n where Ln: "label_scan (fg_positions m) (fg_positions m) (\<lambda>_. 0) 0 = (L, n)"
    by fastforce
  with assms have "li = to_grid (length m) (width m) L" and "n = nb"
    by (simp_all add: ndimage_label_def)
  with label_scan_fg [OF Ln] show ?thesis by (intro that) auto
qed

lemma ndimage_label_shape [grid_simps]:
  assumes "ndimage_label m = (li, nb)"
  shows "length li = length m" and "width li = width m" and "rect li"
proof -
  obtain L where "li = to_grid (length m) (width m) L"
    using assms by (rule ndimage_label_grid)
  then show "length li = length m" and "width li = width m" and "rect li"
    by (simp_all add: rect_to_grid width_to_grid)
qed

lemma ndimage_label_px:
  assumes "ndimage_label m = (li, nb)" and "inside m p"
  shows "px li p = 0 \<longleftrightarrow> \<not> px m p" and "px li p \<le> nb"
proof -
  obtain L where li: "li = to_grid (length m) (width m) L"
    and inv: "label_inv (fg_positions m) L nb" and fg: "\<forall>p \<in> set (fg_positions m). L p \<noteq> 0"
    using assms(1) by (rule ndimage_label_grid)
  from assms(2) li have lp: "px li p = L p" by (cases p) simp
  have fgp: "p \<in> set (fg_positions m) \<longleftrightarrow> px m p"
    using assms(2) by (simp add: set_fg_positions)
  from inv have "L p \<noteq> 0 \<longrightarrow> p \<in> set (fg_positions m)" and "L p \<le> nb"
    unfolding label_inv_def by blast+
  with fg fgp lp show "px li p = 0 \<longleftrightarrow> \<not> px m p" and "px li p \<le> nb"
    by auto
qed

lemma ndimage_label_onto:
  assumes "ndimage_label m = (li, nb)" and "0 < k" and "k \<le> nb"
  shows "\<exists>p. inside m p \<and> px m p \<and> px li p = k"
proof -
  obtain L where li: "li = to_grid (length m) (width m) L"
    and inv: "label_inv (fg_positions m) L nb"
    using assms(1) by (rule ndimage_label_grid)
  from inv assms(2,3) obtain q where "L q = k" and "q \<in> set (fg_positions m)"
    by (fastforce simp: label_inv_def)
  with li have "inside m q \<and> px m q \<and> px li q = k"
    by (cases q) (simp add: set_fg_positions)
  then show ?thesis by blast
qed

text \<open>The labels in use: \<open>1..nb\<close> on the foreground, and 0 exactly when there is
  a background pixel.\<close>

lemma ndimage_label_values:
  assumes "ndimage_label m = (li, nb)" and "rect m"
  shows "set (concat li) = {1..nb} \<union> (if \<exists>p. inside m p \<and> \<not> px m p then {0} else {})"
proof -
  have r: "rect li" and l: "length li = length m" and w: "width li = width m"
    using ndimage_label_shape [OF assms(1)] by auto
  have "set (concat li) = {px li p | p. inside li p}"
    by (rule set_concat_rect [OF r])
  also have "\<dots> = {px li p | p. inside m p}"
    by (simp only: l w)
  also have "\<dots> = {1..nb} \<union> (if \<exists>p. inside m p \<and> \<not> px m p then {0} else {})"
  proof (rule set_eqI, rule iffI)
    fix v
    assume "v \<in> {px li p | p. inside m p}"
    then obtain p where p: "inside m p" and v: "v = px li p" by blast
    note lp = ndimage_label_px [OF assms(1) p]
    show "v \<in> {1..nb} \<union> (if \<exists>p. inside m p \<and> \<not> px m p then {0} else {})"
    proof (cases "v = 0")
      case True
      with v lp(1) p have "\<exists>p. inside m p \<and> \<not> px m p" by blast
      with True show ?thesis by simp
    next
      case False
      with v lp(2) have "v \<in> {1..nb}" by simp
      then show ?thesis by simp
    qed
  next
    fix v
    assume v: "v \<in> {1..nb} \<union> (if \<exists>p. inside m p \<and> \<not> px m p then {0} else {})"
    show "v \<in> {px li p | p. inside m p}"
    proof (cases "v = 0")
      case True
      with v obtain p where p: "inside m p" and "\<not> px m p" by (auto split: if_splits)
      with ndimage_label_px(1) [OF assms(1) p] have "px li p = 0" by simp
      with p True show ?thesis by force
    next
      case False
      with v have "0 < v" and "v \<le> nb" by (auto split: if_splits)
      then obtain p where "inside m p" and "px li p = v"
        using ndimage_label_onto [OF assms(1)] by blast
      then show ?thesis by force
    qed
  qed
  finally show ?thesis .
qed

lemma grow_new_empty:
  "filter (\<lambda>q. q \<notin> set S \<and> list_ex (\<lambda>p. adjacent p q) S) fg = [] \<longleftrightarrow> adj_closed fg S"
  by (auto simp: adj_closed_def filter_empty_conv list_all_iff)

lemma grow_add: "grow (k + m) fg S = grow m fg (grow k fg S)"
  by (induction k arbitrary: S) simp_all

lemma grow_fixpoint: "adj_closed fg S \<Longrightarrow> grow k fg S = S"
  by (induction k) (simp_all add: grow_new_empty [symmetric])

text \<open>Each round that is not a fixpoint adds a foreground pixel, so a set of
  foreground pixels is closed after as many rounds as there are foreground pixels
  outside it.\<close>

lemma grow_closed:
  assumes "set S \<subseteq> set fg" and "card (set fg) \<le> k + card (set S)"
  shows "adj_closed fg (grow k fg S)"
  using assms
proof (induction k arbitrary: S)
  case 0
  then have sub: "set S \<subseteq> set fg" and le: "card (set fg) \<le> card (set S)" by simp_all
  have "card (set S) = card (set fg)" using card_mono [OF finite_set sub] le by simp
  then have "set S = set fg" by (rule card_subset_eq [OF finite_set sub])
  then show ?case by (simp add: adj_closed_def list_all_iff)
next
  case (Suc k S)
  let ?N = "filter (\<lambda>q. q \<notin> set S \<and> list_ex (\<lambda>p. adjacent p q) S) fg"
  show ?case
  proof (cases "?N = []")
    case True
    then have "adj_closed fg S" by (simp only: grow_new_empty)
    then have "grow (Suc k) fg S = S" by (rule grow_fixpoint)
    with \<open>adj_closed fg S\<close> show ?thesis by simp
  next
    case False
    then obtain q where q: "q \<in> set ?N" by (cases ?N) auto
    have sub: "set (S @ ?N) \<subseteq> set fg" using Suc.prems(1) by auto
    have "set S \<subset> set (S @ ?N)" using q by auto
    then have "card (set S) < card (set (S @ ?N))" by (rule psubset_card_mono [OF finite_set])
    with Suc.prems(2) have "card (set fg) \<le> k + card (set (S @ ?N))" by simp
    from Suc.IH [OF sub this] show ?thesis by simp
  qed
qed

text \<open>The fuel of the component growth is enough: grown from a foreground pixel for as
  many rounds as there are foreground pixels, the component is closed under adjacency,
  and one more round would not change it.\<close>

lemma component_closed:
  assumes "p \<in> set fg"
  shows "adj_closed fg (component fg p) \<and> grow (Suc (length fg)) fg [p] = component fg p"
proof -
  have "card (set fg) \<le> length fg + card (set [p])" using card_length [of fg] by simp
  with assms have cl: "adj_closed fg (component fg p)"
    unfolding component_def by (intro grow_closed) auto
  have "grow (Suc (length fg)) fg [p] = grow 1 fg (component fg p)"
    using grow_add [of "length fg" 1 fg "[p]"] by (simp add: component_def)
  with cl show ?thesis by (simp only: grow_fixpoint)
qed


text \<open>Labels are constant on blobs: once a pixel carries a label, every foreground pixel
  adjacent to it carries the same one. A new label is written over a whole closed
  component, so it never stops at a pixel whose neighbour is still unlabelled.\<close>

lemma adjacent_sym: "adjacent p q \<Longrightarrow> adjacent q p"
  by (auto simp: adjacent_def)

lemma adj_closed_mem:
  assumes "adj_closed fg S" and "q \<in> set S" and "r \<in> set fg" and "adjacent q r"
  shows "r \<in> set S"
  using assms unfolding adj_closed_def list_all_iff list_ex_iff by blast

lemma label_blobs_step:
  assumes inv: "\<forall>q r. q \<in> set fg \<longrightarrow> r \<in> set fg \<longrightarrow> adjacent q r \<longrightarrow> L q \<noteq> 0 \<longrightarrow> L r = L q"
    and p: "p \<in> set fg"
  shows "\<forall>q r. q \<in> set fg \<longrightarrow> r \<in> set fg \<longrightarrow> adjacent q r \<longrightarrow>
           (if q \<in> set (component fg p) \<and> L q = 0 then Suc n else L q) \<noteq> 0 \<longrightarrow>
           (if r \<in> set (component fg p) \<and> L r = 0 then Suc n else L r) =
           (if q \<in> set (component fg p) \<and> L q = 0 then Suc n else L q)"
proof (intro allI impI)
  fix q r
  assume q: "q \<in> set fg" and r: "r \<in> set fg" and adj: "adjacent q r"
    and nz: "(if q \<in> set (component fg p) \<and> L q = 0 then Suc n else L q) \<noteq> 0"
  have cl: "adj_closed fg (component fg p)" using component_closed [OF p] by simp
  show "(if r \<in> set (component fg p) \<and> L r = 0 then Suc n else L r) =
        (if q \<in> set (component fg p) \<and> L q = 0 then Suc n else L q)"
  proof (cases "L q = 0")
    case False
    with inv q r adj have "L r = L q" by blast
    with False show ?thesis by simp
  next
    case True
    with nz have qc: "q \<in> set (component fg p)" by (auto split: if_splits)
    have rc: "r \<in> set (component fg p)" by (rule adj_closed_mem [OF cl qc r adj])
    have "L r = 0"
    proof (rule ccontr)
      assume "L r \<noteq> 0"
      with inv r q adjacent_sym [OF adj] have "L q = L r" by blast
      with True \<open>L r \<noteq> 0\<close> show False by simp
    qed
    with True qc rc show ?thesis by simp
  qed
qed

lemma label_scan_blobs:
  "set ps \<subseteq> set fg \<Longrightarrow>
   \<forall>q r. q \<in> set fg \<longrightarrow> r \<in> set fg \<longrightarrow> adjacent q r \<longrightarrow> L q \<noteq> 0 \<longrightarrow> L r = L q \<Longrightarrow>
   label_scan fg ps L n = (L', n') \<Longrightarrow>
   \<forall>q r. q \<in> set fg \<longrightarrow> r \<in> set fg \<longrightarrow> adjacent q r \<longrightarrow> L' q \<noteq> 0 \<longrightarrow> L' r = L' q"
proof (induction fg ps L n rule: label_scan.induct)
  case (1 fg L n)
  then show ?case by simp
next
  case (2 fg p ps L n)
  show ?case
  proof (cases "L p \<noteq> 0")
    case True
    with "2.IH"(1) "2.prems" show ?thesis by simp
  next
    case False
    from "2.prems"(1) have "p \<in> set fg" by simp
    from label_blobs_step [OF "2.prems"(2) this, of n] False "2.IH"(2) "2.prems"(1,3)
    show ?thesis by simp
  qed
qed

lemma ndimage_label_blobs:
  assumes lab: "ndimage_label m = (li, nb)" and p: "inside m p" and q: "inside m q"
    and fp: "px m p" and fq: "px m q" and adj: "adjacent p q"
  shows "px li q = px li p \<and> px li p \<noteq> 0"
proof -
  obtain L n where Ln: "label_scan (fg_positions m) (fg_positions m) (\<lambda>_. 0) 0 = (L, n)"
    by fastforce
  with lab have li: "li = to_grid (length m) (width m) L" by (simp add: ndimage_label_def)
  have pf: "p \<in> set (fg_positions m)" and qf: "q \<in> set (fg_positions m)"
    using p q fp fq by (simp_all add: set_fg_positions)
  have "\<forall>q r. q \<in> set (fg_positions m) \<longrightarrow> r \<in> set (fg_positions m) \<longrightarrow> adjacent q r \<longrightarrow>
          L q \<noteq> 0 \<longrightarrow> L r = L q"
    by (rule label_scan_blobs [OF _ _ Ln]) simp_all
  moreover have "L p \<noteq> 0" using label_scan_fg(2) [OF Ln] pf by blast
  ultimately have "L q = L p" and "L p \<noteq> 0" using pf qf adj by blast+
  moreover from p q li have "px li p = L p" and "px li q = L q" by (cases p, cases q, simp)+
  ultimately show ?thesis by simp
qed


text \<open>Connectivity and the grown components: a component grown from a foreground pixel is
  exactly the set of pixels connected to it. The raster scan never gives one label to two
  blobs: the pixels carrying a label are connected, because a fresh label exceeds every
  label already written.\<close>

lemma conn_fg: "conn fg p q \<Longrightarrow> p \<in> set fg \<and> q \<in> set fg"
  by (induction rule: conn.induct) auto

lemma conn_trans: "conn fg q r \<Longrightarrow> conn fg p q \<Longrightarrow> conn fg p r"
  by (induction rule: conn.induct) (auto intro: conn_step)

lemma conn_sym: "conn fg p q \<Longrightarrow> conn fg q p"
proof (induction rule: conn.induct)
  case (conn_refl p)
  then show ?case by (rule conn.conn_refl)
next
  case (conn_step p q r)
  have "conn fg r q"
    using conn_fg [OF conn_step.hyps(1)] conn_step.hyps(2,3)
    by (blast intro: conn.intros adjacent_sym)
  with conn_step.IH show ?case by (rule conn_trans)
qed

lemma conn_closed: "conn fg p q \<Longrightarrow> adj_closed fg S \<Longrightarrow> p \<in> set S \<Longrightarrow> q \<in> set S"
  by (induction rule: conn.induct) (auto intro: adj_closed_mem)

lemma grow_conn: "set S \<subseteq> set fg \<Longrightarrow> q \<in> set (grow k fg S) \<Longrightarrow> \<exists>s \<in> set S. conn fg s q"
proof (induction k arbitrary: S)
  case 0
  then show ?case by (auto intro: conn_refl)
next
  case (Suc k S)
  let ?S' = "S @ filter (\<lambda>q. q \<notin> set S \<and> list_ex (\<lambda>p. adjacent p q) S) fg"
  from Suc.prems have "\<exists>s \<in> set ?S'. conn fg s q" by (intro Suc.IH) auto
  then obtain s where s: "s \<in> set ?S'" and sq: "conn fg s q" by blast
  show ?case
  proof (cases "s \<in> set S")
    case True
    with sq show ?thesis by blast
  next
    case False
    with s obtain t where t: "t \<in> set S" and adj: "adjacent t s" and sf: "s \<in> set fg"
      by (auto simp: list_ex_iff)
    with Suc.prems(1) have "conn fg t s" by (blast intro: conn.intros)
    with sq t show ?thesis by (blast intro: conn_trans)
  qed
qed

lemma component_conn:
  assumes "p \<in> set fg"
  shows "q \<in> set (component fg p) \<longleftrightarrow> conn fg p q"
proof
  assume "q \<in> set (component fg p)"
  with assms show "conn fg p q" using grow_conn [of "[p]" fg q "length fg"]
    by (simp add: component_def)
next
  assume "conn fg p q"
  moreover have "adj_closed fg (component fg p)" using component_closed [OF assms] ..
  ultimately show "q \<in> set (component fg p)" by (rule conn_closed) simp
qed


lemma label_sep_step:
  assumes inv: "label_inv fg L n" and sep: "\<forall>q r. L q \<noteq> 0 \<longrightarrow> L r = L q \<longrightarrow> conn fg q r"
    and p: "p \<in> set fg"
  shows "\<forall>q r. (if q \<in> set (component fg p) \<and> L q = 0 then Suc n else L q) \<noteq> 0 \<longrightarrow>
           (if r \<in> set (component fg p) \<and> L r = 0 then Suc n else L r) =
           (if q \<in> set (component fg p) \<and> L q = 0 then Suc n else L q) \<longrightarrow> conn fg q r"
proof (intro allI impI)
  fix q r
  let ?new = "\<lambda>x. x \<in> set (component fg p) \<and> L x = 0"
  assume nz: "(if ?new q then Suc n else L q) \<noteq> 0"
    and eq: "(if ?new r then Suc n else L r) = (if ?new q then Suc n else L q)"
  have le: "L x \<le> n" for x using inv unfolding label_inv_def by blast
  show "conn fg q r"
  proof (cases "?new q")
    case True
    with eq le [of r] have "?new r" by (auto split: if_splits)
    with True p have "conn fg p q" and "conn fg p r" by (simp_all add: component_conn)
    then show ?thesis by (blast intro: conn_sym conn_trans)
  next
    case False
    with eq le [of q] have "\<not> ?new r" by (auto split: if_splits)
    moreover have "(if ?new q then Suc n else L q) = L q" using False by (rule if_not_P)
    moreover have "(if ?new r then Suc n else L r) = L r" using \<open>\<not> ?new r\<close> by (rule if_not_P)
    ultimately have "L q \<noteq> 0" and "L r = L q" using nz eq by simp_all
    with sep show ?thesis by blast
  qed
qed

lemma label_scan_sep:
  "set ps \<subseteq> set fg \<Longrightarrow> label_inv fg L n \<Longrightarrow>
   \<forall>q r. L q \<noteq> 0 \<longrightarrow> L r = L q \<longrightarrow> conn fg q r \<Longrightarrow>
   label_scan fg ps L n = (L', n') \<Longrightarrow> \<forall>q r. L' q \<noteq> 0 \<longrightarrow> L' r = L' q \<longrightarrow> conn fg q r"
proof (induction fg ps L n rule: label_scan.induct)
  case (1 fg L n)
  then show ?case by simp
next
  case (2 fg p ps L n)
  show ?case
  proof (cases "L p \<noteq> 0")
    case True
    with "2.IH"(1) "2.prems" show ?thesis by simp
  next
    case False
    from "2.prems"(1) have p: "p \<in> set fg" by simp
    from label_inv_step [OF "2.prems"(2) p] False
      label_sep_step [OF "2.prems"(2,3) p] "2.IH"(2) "2.prems"(1,4)
    show ?thesis by simp
  qed
qed

lemma conn_label:
  assumes "conn fg p q"
    and blobs: "\<forall>q r. q \<in> set fg \<longrightarrow> r \<in> set fg \<longrightarrow> adjacent q r \<longrightarrow> L q \<noteq> 0 \<longrightarrow> L r = L q"
    and nz: "\<forall>x \<in> set fg. L x \<noteq> 0"
  shows "L q = L p"
  using assms(1)
proof (induction rule: conn.induct)
  case (conn_step p q r)
  with blobs nz conn_fg [OF conn_step.hyps(1)] show ?case by metis
qed simp

text \<open>The labelling is exact: a pixel carries the label of a foreground pixel \<open>p\<close> if and
  only if it lies in the component of \<open>p\<close>.\<close>

lemma ndimage_label_components:
  assumes lab: "ndimage_label m = (li, nb)" and p: "inside m p" "px m p" and q: "inside m q"
  shows "px li q = px li p \<longleftrightarrow> q \<in> set (component (fg_positions m) p)"
proof -
  obtain L n where Ln: "label_scan (fg_positions m) (fg_positions m) (\<lambda>_. 0) 0 = (L, n)"
    by fastforce
  with lab have li: "li = to_grid (length m) (width m) L" by (simp add: ndimage_label_def)
  from p q li have lp: "px li p = L p" and lq: "px li q = L q" by (cases p, cases q, simp)+
  have pf: "p \<in> set (fg_positions m)" using p by (simp add: set_fg_positions)
  have nz: "\<forall>x \<in> set (fg_positions m). L x \<noteq> 0" using label_scan_fg(2) [OF Ln] .
  have sep: "\<forall>q r. L q \<noteq> 0 \<longrightarrow> L r = L q \<longrightarrow> conn (fg_positions m) q r"
    by (rule label_scan_sep [OF _ label_inv_init _ Ln]) simp_all
  have blobs: "\<forall>q r. q \<in> set (fg_positions m) \<longrightarrow> r \<in> set (fg_positions m) \<longrightarrow>
      adjacent q r \<longrightarrow> L q \<noteq> 0 \<longrightarrow> L r = L q"
    by (rule label_scan_blobs [OF _ _ Ln]) simp_all
  show ?thesis
  proof
    assume "px li q = px li p"
    with lp lq nz pf sep have "conn (fg_positions m) p q" by metis
    with pf show "q \<in> set (component (fg_positions m) p)" by (simp add: component_conn)
  next
    assume "q \<in> set (component (fg_positions m) p)"
    with pf have "conn (fg_positions m) p q" by (simp add: component_conn)
    from conn_label [OF this blobs nz] lp lq show "px li q = px li p" by simp
  qed
qed

end
