(* ===== verification/Segment.thy ===== *)
theory Segment
  imports Label
begin

text \<open>
  The image-processing core of \<open>Segmentation.make\<close> in the calcium-imaging notebook
  (\<open>src/unnamed/part_001\<close>, the cell defining \<open>Segmentation\<close>; the same steps are run
  interactively earlier in that notebook): threshold the average frame, label the
  connected blobs, count the pixels of every label, zero the pixels whose label has fewer
  pixels than \<open>size_cutoff\<close>, and cut one ROI mask per remaining label. Pixel values
  and parameters are rationals (the notebook's floats without rounding; only comparisons
  are applied to them). numpy's integer-array indexing raises \<open>IndexError\<close> on an
  out-of-range index; that is the one error branch of this code. The blobs the labelling
  must find are stated on the image (\<open>above_path\<close>), apart from \<open>Label\<close>'s algorithm,
  and the labelling is shown to find exactly them.
\<close>

definition threshold_mask :: "rat grid \<Rightarrow> rat \<Rightarrow> bool grid" where
  "threshold_mask avg_image threshold = map (map (\<lambda>v. threshold < v)) avg_image"

definition np_unique :: "nat grid \<Rightarrow> nat list" where
  "np_unique label_im = sort (remdups (concat label_im))"

definition label_sizes :: "nat grid \<Rightarrow> nat list" where
  "label_sizes label_im = map (count_list (concat label_im)) (np_unique label_im)"

definition small_size_filter :: "nat list \<Rightarrow> rat \<Rightarrow> bool list" where
  "small_size_filter sizes size_cutoff = map (\<lambda>s. of_nat s < size_cutoff) sizes"

definition take_index :: "'a list \<Rightarrow> nat grid \<Rightarrow> error + 'a grid" where
  "take_index a idx =
     (if list_all (list_all (\<lambda>i. i < length a)) idx
      then Inr (map (map (\<lambda>i. a ! i)) idx) else Inl IndexError)"

definition zero_where :: "nat grid \<Rightarrow> bool grid \<Rightarrow> nat grid" where
  "zero_where label_im pixel_to_remove =
     map2 (map2 (\<lambda>x b. if b then 0 else x)) label_im pixel_to_remove"

definition roi_masks :: "nat grid \<Rightarrow> (nat \<times> bool grid) list" where
  "roi_masks label_im =
     map (\<lambda>i. (i, map (map (\<lambda>x. x = i)) label_im)) (drop 1 (np_unique label_im))"

definition segment :: "rat grid \<Rightarrow> rat \<Rightarrow> rat \<Rightarrow> error + nat grid \<times> (nat \<times> bool grid) list" where
  "segment avg_image threshold size_cutoff =
     (let mask = threshold_mask avg_image threshold;
          (label_im, nb_labels) = ndimage_label mask;
          sizes = label_sizes label_im;
          small = small_size_filter sizes size_cutoff
      in case take_index small label_im of
           Inl e \<Rightarrow> Inl e
         | Inr pixel_to_remove \<Rightarrow>
             (let label_im' = zero_where label_im pixel_to_remove
              in Inr (label_im', roi_masks label_im')))"

text \<open>Reference behaviour: a pixel is cleared when its label has fewer than
  \<open>size_cutoff\<close> pixels, and there is one ROI per nonzero label left, in increasing
  order.\<close>

definition filter_small :: "nat grid \<Rightarrow> rat \<Rightarrow> nat grid" where
  "filter_small label_im size_cutoff =
     map (map (\<lambda>x. if of_nat (count_list (concat label_im) x) < size_cutoff then 0 else x)) label_im"

definition rois_of :: "nat grid \<Rightarrow> (nat \<times> bool grid) list" where
  "rois_of label_im =
     map (\<lambda>i. (i, map (map (\<lambda>x. x = i)) label_im)) (sorted_list_of_set (set (concat label_im) - {0}))"

text \<open>The blobs of the thresholded frame, stated on the image itself: \<open>q\<close> is reached
  from \<open>p\<close> by a path of pixels above the threshold, each step to a pixel one row or one
  column away (the 4-connectivity of \<open>ndimage.label\<close>'s default structuring element).\<close>

inductive above_path :: "rat grid \<Rightarrow> rat \<Rightarrow> pos \<Rightarrow> pos \<Rightarrow> bool" for img thr where
  path_start: "inside img p \<Longrightarrow> thr < px img p \<Longrightarrow> above_path img thr p p"
| path_step: "above_path img thr p q \<Longrightarrow> inside img r \<Longrightarrow> thr < px img r \<Longrightarrow>
     (fst r = fst q \<and> (snd r = snd q + 1 \<or> snd q = snd r + 1)) \<or>
     (snd r = snd q \<and> (fst r = fst q + 1 \<or> fst q = fst r + 1)) \<Longrightarrow> above_path img thr p r"

lemma np_unique_sorted_list_of_set: "np_unique g = sorted_list_of_set (set (concat g))"
  unfolding np_unique_def by (rule sorted_list_of_set_sort_remdups [symmetric])

text \<open>With labels \<open>0..<n\<close> in use, the position of a label in \<open>np.unique\<close> is the
  label itself, so indexing the per-position filter by the label reads that label's size.\<close>

lemma take_index_range:
  assumes "set (concat li) = {0..<n}"
  shows "take_index (small_size_filter (label_sizes li) c) li =
         Inr (map (map (\<lambda>x. of_nat (count_list (concat li) x) < c)) li)"
proof -
  have u: "np_unique li = [0..<n]"
    using assms by (simp add: np_unique_sorted_list_of_set)
  then have "list_all (list_all (\<lambda>i. i < length (small_size_filter (label_sizes li) c))) li"
    using assms by (simp add: list_all_concat small_size_filter_def label_sizes_def)
  moreover have "map (map (\<lambda>i. small_size_filter (label_sizes li) c ! i)) li =
                 map (map (\<lambda>x. of_nat (count_list (concat li) x) < c)) li"
    using assms u by (intro map_map_cong_concat) (simp add: small_size_filter_def label_sizes_def)
  ultimately show ?thesis by (simp add: take_index_def)
qed

lemma take_index_no_background:
  assumes "set (concat li) = {1..<Suc n}" and "0 < n"
  shows "take_index (small_size_filter (label_sizes li) c) li = Inl IndexError"
proof -
  have "length (small_size_filter (label_sizes li) c) = n"
    using assms(1) by (simp add: small_size_filter_def label_sizes_def np_unique_sorted_list_of_set)
  moreover have "n \<in> set (concat li)" using assms by simp
  ultimately show ?thesis by (auto simp: take_index_def list_all_concat)
qed

lemma roi_masks_background:
  assumes "0 \<in> set (concat g) \<or> concat g = []"
  shows "roi_masks g = rois_of g"
proof -
  have "drop 1 (np_unique g) = sorted_list_of_set (set (concat g) - {0})"
  proof (cases "concat g = []")
    case False
    with assms have z: "0 \<in> set (concat g)" by blast
    then have "Min (set (concat g)) = 0" by (intro Min_eqI) auto
    moreover from z have "set (concat g) \<noteq> {}" by force
    ultimately have "sorted_list_of_set (set (concat g)) = 0 # sorted_list_of_set (set (concat g) - {0})"
      using sorted_list_of_set_nonempty [of "set (concat g)"] by (simp del: set_concat)
    then show ?thesis by (simp add: np_unique_sorted_list_of_set)
  next
    case True
    show ?thesis by (simp only: np_unique_def True) simp
  qed
  then show ?thesis by (simp add: roi_masks_def rois_of_def)
qed

lemma segment_unfold:
  "ndimage_label (threshold_mask avg_image threshold) = (label_im, nb) \<Longrightarrow>
   segment avg_image threshold size_cutoff =
     (case take_index (small_size_filter (label_sizes label_im) size_cutoff) label_im of
        Inl e \<Rightarrow> Inl e
      | Inr ptr \<Rightarrow> Inr (zero_where label_im ptr, roi_masks (zero_where label_im ptr)))"
  by (simp add: segment_def Let_def split: sum.split)

lemma all_above_threshold:
  assumes "rect avg_image"
  shows "list_all (list_all (\<lambda>v. threshold < v)) avg_image \<longleftrightarrow>
         (\<forall>p. inside avg_image p \<longrightarrow> threshold < px avg_image p)"
  unfolding list_all_concat set_concat_rect [OF assms] by blast

lemma concat_empty_rect:
  assumes "rect g"
  shows "concat g = [] \<longleftrightarrow> \<not> (\<exists>p. inside g p)"
proof -
  have "concat g = [] \<longleftrightarrow> set (concat g) = {}" by (simp only: set_empty)
  also have "\<dots> \<longleftrightarrow> \<not> (\<exists>p. inside g p)"
    unfolding set_concat_rect [OF assms] by blast
  finally show ?thesis .
qed

lemma threshold_mask_px:
  "rect avg_image \<Longrightarrow> inside avg_image p \<Longrightarrow>
   px (threshold_mask avg_image threshold) p = (threshold < px avg_image p)"
  unfolding threshold_mask_def by (rule px_map_map)

lemma inside_threshold_mask [simp]:
  "inside (threshold_mask avg_image threshold) p \<longleftrightarrow> inside avg_image p"
  by (simp add: threshold_mask_def)

lemma threshold_labels:
  assumes "rect avg_image"
    and lab: "ndimage_label (threshold_mask avg_image threshold) = (label_im, nb)"
  shows "set (concat label_im) =
           {1..nb} \<union> (if list_all (list_all (\<lambda>v. threshold < v)) avg_image then {} else {0})"
proof -
  let ?m = "threshold_mask avg_image threshold"
  have rm: "rect ?m" using assms(1) by (simp add: threshold_mask_def rect_map_map)
  have "(\<exists>p. inside ?m p \<and> \<not> px ?m p) \<longleftrightarrow> \<not> list_all (list_all (\<lambda>v. threshold < v)) avg_image"
  proof -
    have "(\<exists>p. inside ?m p \<and> \<not> px ?m p) \<longleftrightarrow>
          (\<exists>p. inside avg_image p \<and> \<not> threshold < px avg_image p)"
      using threshold_mask_px [OF assms(1)] by (metis inside_threshold_mask)
    then show ?thesis using all_above_threshold [OF assms(1)] by blast
  qed
  with ndimage_label_values [OF lab rm] show ?thesis by simp
qed

lemma threshold_labels_nb:
  assumes "rect avg_image"
    and lab: "ndimage_label (threshold_mask avg_image threshold) = (label_im, nb)"
  shows "0 < nb \<longleftrightarrow> (\<exists>p. inside avg_image p \<and> threshold < px avg_image p)"
proof
  assume "0 < nb"
  then obtain p where i: "inside (threshold_mask avg_image threshold) p"
    and "px (threshold_mask avg_image threshold) p"
    using ndimage_label_onto [OF lab, of 1] by auto
  with threshold_mask_px [OF assms(1)] have "inside avg_image p \<and> threshold < px avg_image p"
    by (metis inside_threshold_mask)
  then show "\<exists>p. inside avg_image p \<and> threshold < px avg_image p" by blast
next
  assume "\<exists>p. inside avg_image p \<and> threshold < px avg_image p"
  then obtain p where p: "inside avg_image p" and "threshold < px avg_image p" by blast
  with threshold_mask_px [OF assms(1) p] have
    "inside (threshold_mask avg_image threshold) p" and "px (threshold_mask avg_image threshold) p"
    by simp_all
  with ndimage_label_px [OF lab] show "0 < nb"
    by (metis gr_zeroI le_zero_eq)
qed

lemma zero_where_filter_small:
  "zero_where li (map (map (\<lambda>x. of_nat (count_list (concat li) x) < c)) li) = filter_small li c"
  by (simp add: zero_where_def filter_small_def map2_map_map)

lemma filter_small_background:
  "0 \<in> set (concat li) \<or> concat li = [] \<Longrightarrow>
   0 \<in> set (concat (filter_small li c)) \<or> concat (filter_small li c) = []"
  by (force simp: filter_small_def)

text \<open>Whenever the labelled frame has a background pixel (or no pixel at all), the code
  computes exactly the reference behaviour; when every pixel of a non-empty frame is above
  the threshold, the positional filter is one entry short and the indexing raises.\<close>

lemma segment_background:
  assumes lab: "ndimage_label (threshold_mask avg_image threshold) = (label_im, nb)"
    and range: "set (concat label_im) = {0..<n}"
  shows "segment avg_image threshold size_cutoff =
           Inr (filter_small label_im size_cutoff, rois_of (filter_small label_im size_cutoff))"
proof -
  have "0 \<in> set (concat label_im) \<or> concat label_im = []"
    using range by (cases n) auto
  then have "roi_masks (filter_small label_im size_cutoff) = rois_of (filter_small label_im size_cutoff)"
    by (intro roi_masks_background filter_small_background)
  with segment_unfold [OF lab] take_index_range [OF range] show ?thesis
    by (simp add: zero_where_filter_small)
qed

lemma segment_ok:
  assumes "rect avg_image"
    and lab: "ndimage_label (threshold_mask avg_image threshold) = (label_im, nb_labels)"
    and bg: "\<not> (concat avg_image \<noteq> [] \<and> list_all (list_all (\<lambda>v. threshold < v)) avg_image)"
  shows "segment avg_image threshold size_cutoff =
           Inr (filter_small label_im size_cutoff, rois_of (filter_small label_im size_cutoff))"
proof (cases "list_all (list_all (\<lambda>v. threshold < v)) avg_image")
  case False
  with threshold_labels [OF assms(1,2)] have "set (concat label_im) = {0..<Suc nb_labels}"
    by auto
  then show ?thesis by (rule segment_background [OF lab])
next
  case True
  with bg have "concat avg_image = []" by blast
  with concat_empty_rect [OF assms(1)] threshold_labels_nb [OF assms(1,2)] have "nb_labels = 0"
    by blast
  with True threshold_labels [OF assms(1,2)] have "set (concat label_im) = {0..<0}"
    by simp
  then show ?thesis by (rule segment_background [OF lab])
qed

lemma segment_error:
  assumes "rect avg_image"
    and above: "list_all (list_all (\<lambda>v. threshold < v)) avg_image"
    and ne: "concat avg_image \<noteq> []"
  shows "segment avg_image threshold size_cutoff = Inl IndexError"
proof -
  obtain label_im nb_labels where lab:
    "ndimage_label (threshold_mask avg_image threshold) = (label_im, nb_labels)"
    by fastforce
  from ne concat_empty_rect [OF assms(1)] obtain p where p: "inside avg_image p" by blast
  with above all_above_threshold [OF assms(1)] have "threshold < px avg_image p" by blast
  with p threshold_labels_nb [OF assms(1) lab] have "0 < nb_labels" by blast
  moreover from above threshold_labels [OF assms(1) lab]
  have "set (concat label_im) = {1..<Suc nb_labels}"
    by auto
  ultimately have "take_index (small_size_filter (label_sizes label_im) size_cutoff) label_im = Inl IndexError"
    by (intro take_index_no_background)
  with segment_unfold [OF lab] show ?thesis by simp
qed

text \<open>C1. Segmentation.make's image processing computes the reference behaviour (clear
  every pixel whose blob has fewer than \<open>size_cutoff\<close> pixels, one ROI per remaining
  label in increasing order), except when every pixel of a non-empty average frame lies
  above the threshold: then \<open>small_size_filter[label_im]\<close> raises IndexError.\<close>

theorem segment_reference:
  assumes "rect avg_image"
    and lab: "ndimage_label (threshold_mask avg_image threshold) = (label_im, nb_labels)"
  shows "segment avg_image threshold size_cutoff =
     (if concat avg_image \<noteq> [] \<and> list_all (list_all (\<lambda>v. threshold < v)) avg_image
      then Inl IndexError
      else Inr (filter_small label_im size_cutoff, rois_of (filter_small label_im size_cutoff)))"
  using segment_ok [OF assms] segment_error [OF assms(1)] by auto

theorem segment_reference_witness:
  "rect [[60, 70, 10, 0], [0, 80, 0, 90], [55, 0, 0, 95::rat]] \<and>
   ndimage_label (threshold_mask [[60, 70, 10, 0], [0, 80, 0, 90], [55, 0, 0, 95::rat]] 50) =
     ([[1, 1, 0, 0], [0, 1, 0, 2], [3, 0, 0, 2]], 3) \<and>
   segment [[60, 70, 10, 0], [0, 80, 0, 90], [55, 0, 0, 95]] 50 2 =
     Inr (filter_small [[1, 1, 0, 0], [0, 1, 0, 2], [3, 0, 0, 2]] 2,
          rois_of (filter_small [[1, 1, 0, 0], [0, 1, 0, 2], [3, 0, 0, 2]] 2))"
proof -
  have r: "rect [[60, 70, 10, 0], [0, 80, 0, 90], [55, 0, 0, 95::rat]]"
    by code_simp
  have l: "ndimage_label (threshold_mask [[60, 70, 10, 0], [0, 80, 0, 90], [55, 0, 0, 95::rat]] 50) =
     ([[1, 1, 0, 0], [0, 1, 0, 2], [3, 0, 0, 2]], 3)"
    by code_simp
  show ?thesis using segment_reference [OF r l, of 2] r l by simp
qed


text \<open>C26. \<open>ndimage.label(mask)\<close> in \<open>Segmentation.make\<close> gives a blob one label: two
  4-adjacent pixels of the average frame that both lie above the threshold carry the same
  nonzero label in \<open>label_im\<close>, so a blob is never split between ROIs before the size
  filter runs.\<close>

theorem threshold_blob_label:
  assumes "rect avg_image"
    and lab: "ndimage_label (threshold_mask avg_image threshold) = (label_im, nb_labels)"
    and "inside avg_image p" and "inside avg_image q" and "adjacent p q"
    and "threshold < px avg_image p" and "threshold < px avg_image q"
  shows "px label_im q = px label_im p \<and> px label_im p \<noteq> 0"
proof (rule ndimage_label_blobs [OF lab])
  show "inside (threshold_mask avg_image threshold) p" and "inside (threshold_mask avg_image threshold) q"
    using assms(3,4) by simp_all
  show "px (threshold_mask avg_image threshold) p" and "px (threshold_mask avg_image threshold) q"
    using assms by (simp_all add: threshold_mask_px)
qed (rule assms(5))

theorem threshold_blob_label_witness:
  "rect [[60, 70, 10, 0], [0, 80, 0, 90], [55, 0, 0, 95::rat]] \<and>
   ndimage_label (threshold_mask [[60, 70, 10, 0], [0, 80, 0, 90], [55, 0, 0, 95::rat]] 50) =
     ([[1, 1, 0, 0], [0, 1, 0, 2], [3, 0, 0, 2]], 3) \<and>
   inside [[60, 70, 10, 0], [0, 80, 0, 90], [55, 0, 0, 95::rat]] (0, 1) \<and>
   inside [[60, 70, 10, 0], [0, 80, 0, 90], [55, 0, 0, 95::rat]] (1, 1) \<and>
   adjacent (0, 1) (1, 1) \<and>
   (50::rat) < px [[60, 70, 10, 0], [0, 80, 0, 90], [55, 0, 0, 95::rat]] (0, 1) \<and>
   (50::rat) < px [[60, 70, 10, 0], [0, 80, 0, 90], [55, 0, 0, 95::rat]] (1, 1) \<and>
   px [[1, 1, 0, 0], [0, 1, 0, 2], [3, 0, 0, 2::nat]] (1, 1) = px [[1, 1, 0, 0], [0, 1, 0, 2], [3, 0, 0, 2::nat]] (0, 1) \<and>
   px [[1, 1, 0, 0], [0, 1, 0, 2], [3, 0, 0, 2::nat]] (0, 1) \<noteq> 0"
proof -
  have h1: "rect [[60, 70, 10, 0], [0, 80, 0, 90], [55, 0, 0, 95::rat]]" by code_simp
  have h2: "ndimage_label (threshold_mask [[60, 70, 10, 0], [0, 80, 0, 90], [55, 0, 0, 95::rat]] 50) =
     ([[1, 1, 0, 0], [0, 1, 0, 2], [3, 0, 0, 2]], 3)" by code_simp
  have h3: "inside [[60, 70, 10, 0], [0, 80, 0, 90], [55, 0, 0, 95::rat]] (0, 1)"
    by (simp add: width_def)
  have h4: "inside [[60, 70, 10, 0], [0, 80, 0, 90], [55, 0, 0, 95::rat]] (1, 1)"
    by (simp add: width_def)
  have h5: "adjacent (0, 1) (1, 1)" by (simp add: adjacent_def)
  have h6: "(50::rat) < px [[60, 70, 10, 0], [0, 80, 0, 90], [55, 0, 0, 95::rat]] (0, 1)" by simp
  have h7: "(50::rat) < px [[60, 70, 10, 0], [0, 80, 0, 90], [55, 0, 0, 95::rat]] (1, 1)" by simp
  show ?thesis using threshold_blob_label [OF h1 h2 h3 h4 h5 h6 h7] h1 h2 h3 h4 h5 h6 h7 by blast
qed

lemma above_path_conn:
  assumes "rect img"
  shows "above_path img thr p q \<Longrightarrow> conn (fg_positions (threshold_mask img thr)) p q"
proof (induction rule: above_path.induct)
  case (path_start p)
  then show ?case using assms by (intro conn_refl) (simp add: set_fg_positions threshold_mask_px)
next
  case (path_step p q r)
  have "r \<in> set (fg_positions (threshold_mask img thr))"
    using path_step.hyps(2,3) assms by (simp add: set_fg_positions threshold_mask_px)
  moreover have "adjacent q r" using path_step.hyps(4) by (auto simp: adjacent_def)
  ultimately show ?case by (rule conn_step [OF path_step.IH])
qed

text \<open>C27. \<open>ndimage.label(mask)\<close> in \<open>Segmentation.make\<close> labels exactly the blobs: a
  pixel of the average frame carries the label of a pixel \<open>p\<close> above the threshold if and
  only if a 4-connected path of pixels above the threshold leads from \<open>p\<close> to it. So one
  label never covers two blobs, and a blob is never split (with C26, each ROI mask
  \<open>label_im == label\<close> is one whole blob).\<close>

theorem threshold_label_components:
  assumes rect: "rect avg_image"
    and lab: "ndimage_label (threshold_mask avg_image threshold) = (label_im, nb_labels)"
    and p: "inside avg_image p" "threshold < px avg_image p" and q: "inside avg_image q"
  shows "px label_im q = px label_im p \<longleftrightarrow> above_path avg_image threshold p q"
proof -
  have pm: "inside (threshold_mask avg_image threshold) p" "px (threshold_mask avg_image threshold) p"
    using p rect by (simp_all add: threshold_mask_px)
  have pf: "p \<in> set (fg_positions (threshold_mask avg_image threshold))"
    using pm by (simp add: set_fg_positions)
  have "px label_im q = px label_im p \<longleftrightarrow> q \<in> set (component (fg_positions (threshold_mask avg_image threshold)) p)"
    using q by (intro ndimage_label_components [OF lab pm]) simp
  also have "\<dots> \<longleftrightarrow> conn (fg_positions (threshold_mask avg_image threshold)) p q"
    by (rule component_conn [OF pf])
  also have "\<dots> \<longleftrightarrow> above_path avg_image threshold p q"
  proof
    show "conn (fg_positions (threshold_mask avg_image threshold)) p q \<Longrightarrow> above_path avg_image threshold p q"
    proof (induction rule: conn.induct)
      case (conn_refl p)
      then have i: "inside avg_image p" and m: "px (threshold_mask avg_image threshold) p"
        by (simp_all add: set_fg_positions)
      from m rect i have "threshold < px avg_image p" by (simp add: threshold_mask_px)
      with i show ?case by (rule path_start)
    next
      case (conn_step p q r)
      from conn_step.hyps(2) have ir: "inside avg_image r" and mr: "px (threshold_mask avg_image threshold) r"
        by (simp_all add: set_fg_positions)
      from mr rect ir have "threshold < px avg_image r" by (simp add: threshold_mask_px)
      moreover have "(fst r = fst q \<and> (snd r = snd q + 1 \<or> snd q = snd r + 1)) \<or>
          (snd r = snd q \<and> (fst r = fst q + 1 \<or> fst q = fst r + 1))"
        using conn_step.hyps(3) by (auto simp: adjacent_def)
      ultimately show ?case by (rule path_step [OF conn_step.IH ir])
    qed
  qed (rule above_path_conn [OF rect])
  finally show ?thesis .
qed

theorem threshold_label_components_witness:
  "rect [[60, 70, 10, 0], [0, 80, 0, 90], [55, 0, 0, 95::rat]] \<and>
   ndimage_label (threshold_mask [[60, 70, 10, 0], [0, 80, 0, 90], [55, 0, 0, 95::rat]] 50) =
     ([[1, 1, 0, 0], [0, 1, 0, 2], [3, 0, 0, 2]], 3) \<and>
   inside [[60, 70, 10, 0], [0, 80, 0, 90], [55, 0, 0, 95::rat]] (0, 0) \<and>
   (50::rat) < px [[60, 70, 10, 0], [0, 80, 0, 90], [55, 0, 0, 95::rat]] (0, 0) \<and>
   inside [[60, 70, 10, 0], [0, 80, 0, 90], [55, 0, 0, 95::rat]] (2, 0) \<and>
   (px [[1, 1, 0, 0], [0, 1, 0, 2], [3, 0, 0, 2::nat]] (2, 0) = px [[1, 1, 0, 0], [0, 1, 0, 2], [3, 0, 0, 2::nat]] (0, 0) \<longleftrightarrow>
    above_path [[60, 70, 10, 0], [0, 80, 0, 90], [55, 0, 0, 95::rat]] 50 (0, 0) (2, 0))"
proof -
  have h1: "rect [[60, 70, 10, 0], [0, 80, 0, 90], [55, 0, 0, 95::rat]]" by code_simp
  have h2: "ndimage_label (threshold_mask [[60, 70, 10, 0], [0, 80, 0, 90], [55, 0, 0, 95::rat]] 50) =
     ([[1, 1, 0, 0], [0, 1, 0, 2], [3, 0, 0, 2]], 3)" by code_simp
  have h3: "inside [[60, 70, 10, 0], [0, 80, 0, 90], [55, 0, 0, 95::rat]] (0, 0)" by (simp add: width_def)
  have h4: "(50::rat) < px [[60, 70, 10, 0], [0, 80, 0, 90], [55, 0, 0, 95::rat]] (0, 0)" by simp
  have h5: "inside [[60, 70, 10, 0], [0, 80, 0, 90], [55, 0, 0, 95::rat]] (2, 0)" by (simp add: width_def)
  show ?thesis using threshold_label_components [OF h1 h2 h3 h4 h5] h1 h2 h3 h4 h5 by blast
qed

end
