(* ===== verification/Table.thy ===== *)
theory Table
  imports Prelude
begin

text \<open>
  The DataJoint operations the notebooks call, modelled from the library's documented
  behaviour (the library is not part of the repository). A table is the list of its rows,
  primary key first, in insertion order; its well-formedness is that no primary key
  occurs twice.
  \<^item> \<open>insert1\<close> refuses a row whose foreign-key parent is missing (IntegrityError) and
    a row whose primary key is already there (DuplicateError);
  \<^item> \<open>insert\<close> of several rows is one statement: all rows or none;
  \<^item> \<open>(T & key).fetch1(attr)\<close> restricts by the key and needs exactly one row;
  \<^item> \<open>A - B\<close> keeps the rows of \<open>A\<close> that match no row of \<open>B\<close>;
  \<^item> \<open>T.populate()\<close> computes the keys of the key source that are not yet in \<open>T\<close> and
    calls \<open>make\<close> on each in turn, each call in its own transaction: a key found done
    when its turn comes is skipped, a failing \<open>make\<close> leaves no trace and its exception
    ends the call (the default \<open>suppress_errors=False\<close>), earlier keys stay committed.
  \<open>populate\<close> is stated over any database type \<open>'d\<close>, any key source and any
  \<open>make\<close>: the component theories instantiate it and discharge its hypotheses. The
  interface is \<open>make_contract P K make is_done\<close>: on a state satisfying \<open>P\<close> and a key
  satisfying \<open>K\<close>, a successful \<open>make\<close> keeps \<open>P\<close>, marks its key done and undoes no
  other key. With it, \<open>populate_complete\<close> gives completion when \<open>make\<close> cannot fail on a
  pending key, \<open>populate_preserves\<close> carries any invariant \<open>make\<close> keeps, and
  \<open>populate_error\<close> finds, for an exception, the pending key and reached state on which
  \<open>make\<close> raised it.
\<close>

type_synonym ('k, 'v) table = "('k \<times> 'v) list"

definition keys :: "('k, 'v) table \<Rightarrow> 'k list" where
  "keys t = map fst t"

definition insert1 :: "('k \<Rightarrow> bool) \<Rightarrow> 'k \<Rightarrow> 'v \<Rightarrow> ('k, 'v) table \<Rightarrow> error + ('k, 'v) table" where
  "insert1 parent_ok k v t =
     (if \<not> parent_ok k then Inl IntegrityError
      else if k \<in> set (keys t) then Inl DuplicateError
      else Inr (t @ [(k, v)]))"

fun insert_rows :: "('k \<Rightarrow> bool) \<Rightarrow> ('k \<times> 'v) list \<Rightarrow> ('k, 'v) table \<Rightarrow> error + ('k, 'v) table" where
  "insert_rows parent_ok [] t = Inr t"
| "insert_rows parent_ok ((k, v) # rows) t =
     bind_err (insert1 parent_ok k v t) (insert_rows parent_ok rows)"

definition restrict :: "('k \<Rightarrow> bool) \<Rightarrow> ('k, 'v) table \<Rightarrow> ('k, 'v) table" where
  "restrict cond t = filter (\<lambda>r. cond (fst r)) t"

definition fetch1 :: "('k \<Rightarrow> bool) \<Rightarrow> ('k, 'v) table \<Rightarrow> error + 'v" where
  "fetch1 cond t = (case restrict cond t of [r] \<Rightarrow> Inr (snd r) | _ \<Rightarrow> Inl FetchOneError)"

definition antijoin :: "('k \<Rightarrow> 'j) \<Rightarrow> ('k, 'v) table \<Rightarrow> 'j list \<Rightarrow> ('k, 'v) table" where
  "antijoin proj t done_keys = filter (\<lambda>r. proj (fst r) \<notin> set done_keys) t"

fun populate_keys ::
  "('k \<Rightarrow> 'd \<Rightarrow> error + 'd) \<Rightarrow> ('d \<Rightarrow> 'k \<Rightarrow> bool) \<Rightarrow> 'k list \<Rightarrow> 'd \<Rightarrow> 'd \<times> error option" where
  "populate_keys make is_done [] d = (d, None)"
| "populate_keys make is_done (k # ks) d =
     (if is_done d k then populate_keys make is_done ks d
      else (case make k d of
              Inl e \<Rightarrow> (d, Some e)
            | Inr d' \<Rightarrow> populate_keys make is_done ks d'))"

definition populate ::
  "('k \<Rightarrow> 'd \<Rightarrow> error + 'd) \<Rightarrow> ('d \<Rightarrow> 'k list) \<Rightarrow> ('d \<Rightarrow> 'k \<Rightarrow> bool) \<Rightarrow> 'd \<Rightarrow> 'd \<times> error option" where
  "populate make key_source is_done d =
     populate_keys make is_done (filter (\<lambda>k. \<not> is_done d k) (key_source d)) d"

text \<open>What \<open>populate\<close> needs of a \<open>make\<close>: from a state satisfying the invariant, a
  successful call on a key of the kind \<open>K\<close> the key source yields keeps the invariant,
  marks its key done and undoes no other key.\<close>

definition make_contract ::
  "('d \<Rightarrow> bool) \<Rightarrow> ('k \<Rightarrow> bool) \<Rightarrow> ('k \<Rightarrow> 'd \<Rightarrow> error + 'd) \<Rightarrow> ('d \<Rightarrow> 'k \<Rightarrow> bool) \<Rightarrow> bool" where
  "make_contract P K make is_done \<longleftrightarrow>
     (\<forall>k d d'. P d \<longrightarrow> K k \<longrightarrow> make k d = Inr d' \<longrightarrow>
        P d' \<and> is_done d' k \<and> (\<forall>k'. is_done d k' \<longrightarrow> is_done d' k'))"

definition make_missing :: "'k \<Rightarrow> 'd \<Rightarrow> error + 'd" where
  "make_missing k d = Inl NotImplementedError"

text \<open>A notebook cell that runs one fallible operation: an exception leaves the state as
  it was and is what the cell reports; the notebook goes on with its next cell.\<close>

definition cell_result :: "'d \<Rightarrow> error + 'd \<Rightarrow> 'd \<times> error option" where
  "cell_result d r = (case r of Inl e \<Rightarrow> (d, Some e) | Inr d' \<Rightarrow> (d', None))"

lemma cell_result_preserves:
  "P d \<Longrightarrow> (\<And>d'. r = Inr d' \<Longrightarrow> P d') \<Longrightarrow> P (fst (cell_result d r))"
  by (cases r) (simp_all add: cell_result_def)

lemma insert1_Inr_iff:
  "insert1 ok k v t = Inr t' \<longleftrightarrow> ok k \<and> k \<notin> set (keys t) \<and> t' = t @ [(k, v)]"
  by (auto simp: insert1_def)

lemma insert1_Inl_iff:
  "insert1 ok k v t = Inl e \<longleftrightarrow>
     (\<not> ok k \<and> e = IntegrityError) \<or> (ok k \<and> k \<in> set (keys t) \<and> e = DuplicateError)"
  by (auto simp: insert1_def)

lemma keys_append [simp]: "keys (t @ u) = keys t @ keys u"
  by (simp add: keys_def)

lemma keys_Cons [simp]: "keys ((k, v) # t) = k # keys t"
  by (simp add: keys_def)

lemma keys_Nil [simp]: "keys [] = []"
  by (simp add: keys_def)

lemma keys_eq_Nil [simp]: "keys t = [] \<longleftrightarrow> t = []"
  by (simp add: keys_def)

lemma distinct_insert1:
  "distinct (keys t) \<Longrightarrow> insert1 ok k v t = Inr t' \<Longrightarrow> distinct (keys t')"
  by (auto simp: insert1_Inr_iff)

lemma restrict_eq_key:
  "distinct (keys t) \<Longrightarrow>
   restrict (\<lambda>k'. k' = k) t = (case map_of t k of None \<Rightarrow> [] | Some v \<Rightarrow> [(k, v)])"
proof (induction t)
  case (Cons r t)
  obtain a b where r: "r = (a, b)" by fastforce
  show ?case
  proof (cases "a = k")
    case True
    with Cons.prems r have "k \<notin> set (keys t)" by simp
    then have "restrict (\<lambda>k'. k' = k) t = []"
      by (force simp: restrict_def keys_def filter_empty_conv)
    with True r show ?thesis by (simp add: restrict_def)
  next
    case False
    with Cons r show ?thesis by (simp add: restrict_def)
  qed
qed (simp add: restrict_def)

lemma fetch1_key:
  "distinct (keys t) \<Longrightarrow>
   fetch1 (\<lambda>k'. k' = k) t = (case map_of t k of None \<Rightarrow> Inl FetchOneError | Some v \<Rightarrow> Inr v)"
  by (simp add: fetch1_def restrict_eq_key split: option.split)

lemma fetch1_insert1:
  assumes "distinct (keys t)" and "insert1 ok k v t = Inr t'"
  shows "fetch1 (\<lambda>k'. k' = k) t' = Inr v"
proof -
  from assms have "distinct (keys t')" and "t' = t @ [(k, v)]" and "k \<notin> set (keys t)"
    by (auto simp: insert1_Inr_iff)
  moreover from \<open>k \<notin> set (keys t)\<close> have "map_of t k = None"
    by (simp add: map_of_eq_None_iff keys_def)
  ultimately show ?thesis
    by (simp add: fetch1_key map_add_def)
qed

lemma insert_rows_Inr_iff:
  "insert_rows ok rows t = Inr t' \<longleftrightarrow>
     list_all (\<lambda>r. ok (fst r)) rows \<and> distinct (map fst rows) \<and>
     set (map fst rows) \<inter> set (keys t) = {} \<and> t' = t @ rows"
proof (induction rows arbitrary: t)
  case (Cons r rows)
  obtain k v where r: "r = (k, v)" by fastforce
  show ?case
    by (simp add: r bind_err_Inr_iff insert1_Inr_iff Cons.IH) blast
qed auto

lemma populate_keys_inv:
  assumes "make_contract P K make is_done" and "P d" and "list_all K ks"
    and "populate_keys make is_done ks d = (d', r)"
  shows "P d' \<and> (\<forall>k. is_done d k \<longrightarrow> is_done d' k)"
  using assms(2-4)
proof (induction ks arbitrary: d)
  case (Cons k ks d)
  show ?case
  proof (cases "is_done d k")
    case True
    with Cons.IH Cons.prems show ?thesis by simp
  next
    case False
    show ?thesis
    proof (cases "make k d")
      case (Inl e)
      with False Cons.prems show ?thesis by simp
    next
      case (Inr d1)
      with assms(1) Cons.prems(1,2) have "P d1" and "\<forall>k'. is_done d k' \<longrightarrow> is_done d1 k'"
        by (auto simp: make_contract_def)
      with False Inr Cons.IH Cons.prems(2,3) show ?thesis by auto
    qed
  qed
qed simp

text \<open>If \<open>make\<close> succeeds on every key it is given from the invariant, the loop ends
  without error and every key it was given is done.\<close>

lemma populate_keys_complete:
  assumes "make_contract P K make is_done" and "P d" and "list_all K ks"
    and total: "\<And>k d. k \<in> set ks \<Longrightarrow> P d \<Longrightarrow> \<not> is_done d k \<Longrightarrow> \<exists>d'. make k d = Inr d'"
    and "populate_keys make is_done ks d = (d', r)"
  shows "r = None \<and> (\<forall>k \<in> set ks. is_done d' k)"
  using assms(2-5)
proof (induction ks arbitrary: d)
  case (Cons k ks d)
  have total': "\<And>k d. k \<in> set ks \<Longrightarrow> P d \<Longrightarrow> \<not> is_done d k \<Longrightarrow> \<exists>d'. make k d = Inr d'"
    using Cons.prems(3) by simp
  have K: "K k" and Ks: "list_all K ks" using Cons.prems(2) by simp_all
  show ?case
  proof (cases "is_done d k")
    case True
    with Cons.prems(4) have run: "populate_keys make is_done ks d = (d', r)" by simp
    with Cons.IH [OF Cons.prems(1) Ks total'] have "r = None \<and> (\<forall>k \<in> set ks. is_done d' k)"
      by blast
    moreover from populate_keys_inv [OF assms(1) Cons.prems(1) Ks run] True
    have "is_done d' k" by blast
    ultimately show ?thesis by simp
  next
    case False
    with Cons.prems(1,3) obtain d1 where d1: "make k d = Inr d1" by fastforce
    with assms(1) Cons.prems(1) K have "P d1" and "is_done d1 k"
      by (auto simp: make_contract_def)
    from False d1 Cons.prems(4) have run: "populate_keys make is_done ks d1 = (d', r)" by simp
    with Cons.IH [OF \<open>P d1\<close> Ks total'] have "r = None \<and> (\<forall>k \<in> set ks. is_done d' k)"
      by blast
    moreover from populate_keys_inv [OF assms(1) \<open>P d1\<close> Ks run] \<open>is_done d1 k\<close>
    have "is_done d' k" by blast
    ultimately show ?thesis by simp
  qed
qed simp

text \<open>\<open>populate\<close> with a \<open>make\<close> that keeps its contract and succeeds on every pending
  key: no error, the invariant holds after, and every key of the key source is done.\<close>

lemma populate_complete:
  assumes contract: "make_contract P K make is_done" and "P d" and K: "list_all K (key_source d)"
    and total: "\<And>k d'. k \<in> set (key_source d) \<Longrightarrow> P d' \<Longrightarrow> \<not> is_done d' k \<Longrightarrow> \<exists>d''. make k d' = Inr d''"
  shows "\<exists>d'. populate make key_source is_done d = (d', None) \<and> P d' \<and> list_all (is_done d') (key_source d)"
proof -
  let ?ks = "filter (\<lambda>k. \<not> is_done d k) (key_source d)"
  obtain d' r where run: "populate_keys make is_done ?ks d = (d', r)" by fastforce
  have total': "\<exists>d''. make k d' = Inr d''" if "k \<in> set ?ks" and "P d'" and "\<not> is_done d' k" for k d'
    using that total by simp
  have K': "list_all K ?ks" using K by (simp add: list_all_iff)
  from populate_keys_complete [OF contract \<open>P d\<close> K' total' run]
  have "r = None" and ks: "\<forall>k \<in> set ?ks. is_done d' k" by blast+
  from populate_keys_inv [OF contract \<open>P d\<close> K' run]
  have "P d'" and mono: "\<forall>k. is_done d k \<longrightarrow> is_done d' k" by blast+
  have "list_all (is_done d') (key_source d)"
    unfolding list_all_iff
  proof
    fix k
    assume "k \<in> set (key_source d)"
    then have "k \<in> set ?ks \<or> is_done d k" by auto
    with ks mono show "is_done d' k" by blast
  qed
  with \<open>P d'\<close> \<open>r = None\<close> run show ?thesis
    by (simp add: populate_def)
qed

lemma map_of_key_Some: "k \<in> set (keys t) \<Longrightarrow> \<exists>v. map_of t k = Some v"
  by (cases "map_of t k") (auto simp: keys_def map_of_eq_None_iff)

lemma populate_keys_make_missing:
  "list_all (\<lambda>k. \<not> is_done d k) ks \<Longrightarrow>
   populate_keys make_missing is_done ks d = (d, if ks = [] then None else Some NotImplementedError)"
  by (cases ks) (simp_all add: make_missing_def)

lemma populate_make_missing:
  "populate make_missing key_source is_done d =
     (d, if filter (\<lambda>k. \<not> is_done d k) (key_source d) = [] then None else Some NotImplementedError)"
  unfolding populate_def by (rule populate_keys_make_missing) (simp add: list_all_iff)

lemma populate_keys_no_change:
  "(\<And>k d. make k d = Inr d) \<Longrightarrow> populate_keys make is_done ks d = (d, None)"
  by (induction ks) simp_all

lemma populate_nothing_left:
  "list_all (is_done d) (key_source d) \<Longrightarrow> populate make key_source is_done d = (d, None)"
  by (simp add: populate_def list_all_iff)

text \<open>A property that every successful \<open>make\<close> on a pending key keeps holds after
  \<open>populate\<close>, whether the loop stops at an error or not.\<close>

lemma populate_keys_preserves:
  assumes "\<And>k d d'. k \<in> set ks \<Longrightarrow> Q d \<Longrightarrow> make k d = Inr d' \<Longrightarrow> Q d'" and "Q d"
  shows "Q (fst (populate_keys make is_done ks d))"
  using assms
proof (induction ks arbitrary: d)
  case Nil
  then show ?case by simp
next
  case (Cons k ks d)
  have step: "Q d2" if "k' \<in> set ks" and "Q d1" and "make k' d1 = Inr d2" for k' d1 d2
    using Cons.prems(1) [of k' d1 d2] that by simp
  have IH: "Q (fst (populate_keys make is_done ks d1))" if "Q d1" for d1
  proof (rule Cons.IH)
    fix k' d2 d3
    assume "k' \<in> set ks" and "Q d2" and "make k' d2 = Inr d3"
    then show "Q d3" by (rule step)
  qed (rule that)
  show ?case
  proof (cases "make k d")
    case (Inl e)
    with IH [OF Cons.prems(2)] Cons.prems(2) show ?thesis by simp
  next
    case (Inr d')
    with Cons.prems(1) [of k d d'] Cons.prems(2) have "Q d'" by simp
    with IH [OF this] IH [OF Cons.prems(2)] Inr show ?thesis by simp
  qed
qed

lemma populate_preserves_pending:
  "(\<And>k d d'. k \<in> set (filter (\<lambda>k. \<not> is_done d0 k) (key_source d0)) \<Longrightarrow> Q d \<Longrightarrow>
      make k d = Inr d' \<Longrightarrow> Q d') \<Longrightarrow>
   Q d0 \<Longrightarrow> Q (fst (populate make key_source is_done d0))"
  unfolding populate_def by (rule populate_keys_preserves [where Q = Q])

lemma populate_preserves:
  assumes step: "\<And>k d d'. Q d \<Longrightarrow> make k d = Inr d' \<Longrightarrow> Q d'" and "Q d"
  shows "Q (fst (populate make key_source is_done d))"
  unfolding populate_def
proof (rule populate_keys_preserves [where Q = Q])
  fix k d1 d2
  assume "Q d1" and "make k d1 = Inr d2"
  then show "Q d2" by (rule step)
qed (rule assms(2))

text \<open>A table with unique keys is a finite map, read by \<open>map_of\<close>: a restriction is the
  restriction of the map to the keys it keeps.\<close>

lemma map_of_restrict: "map_of (restrict P t) = map_of t |` {k. P k}"
proof (rule ext)
  fix k
  show "map_of (restrict P t) k = (map_of t |` {k. P k}) k"
    by (induction t) (auto simp: restrict_def restrict_map_def)
qed


text \<open>Where an exception of \<open>populate\<close> comes from: a call of \<open>make\<close> on a key of the list
  that was not done, in a state the successful calls before it reached.\<close>

lemma populate_keys_error:
  assumes "\<And>k d d'. k \<in> set ks \<Longrightarrow> Q d \<Longrightarrow> make k d = Inr d' \<Longrightarrow> Q d'" and "Q d"
    and "snd (populate_keys make is_done ks d) = Some e"
  shows "\<exists>k \<in> set ks. \<exists>d1. Q d1 \<and> \<not> is_done d1 k \<and> make k d1 = Inl e"
  using assms
proof (induction ks arbitrary: d)
  case Nil
  then show ?case by simp
next
  case (Cons k ks d)
  have IH: "\<exists>k' \<in> set ks. \<exists>d2. Q d2 \<and> \<not> is_done d2 k' \<and> make k' d2 = Inl e"
    if "Q d1" and "snd (populate_keys make is_done ks d1) = Some e" for d1
  proof (rule Cons.IH)
    fix k' d2 d3
    assume "k' \<in> set ks" and "Q d2" and "make k' d2 = Inr d3"
    with Cons.prems(1) [of k' d2 d3] show "Q d3" by simp
  qed (rule that(1), rule that(2))
  show ?case
  proof (cases "is_done d k")
    case True
    with Cons.prems(3) have "snd (populate_keys make is_done ks d) = Some e" by simp
    from IH [OF Cons.prems(2) this] show ?thesis by auto
  next
    case False
    show ?thesis
    proof (cases "make k d")
      case (Inl e')
      with False Cons.prems(3) have "e' = e" by simp
      with Inl False Cons.prems(2) show ?thesis by auto
    next
      case (Inr d')
      with Cons.prems(1) [of k d d'] Cons.prems(2) have "Q d'" by simp
      moreover from Inr False Cons.prems(3) have "snd (populate_keys make is_done ks d') = Some e" by simp
      ultimately show ?thesis using IH by auto
    qed
  qed
qed

lemma populate_error:
  assumes "\<And>k d d'. Q d \<Longrightarrow> make k d = Inr d' \<Longrightarrow> Q d'" and "Q d"
    and "snd (populate make key_source is_done d) = Some e"
  shows "\<exists>k \<in> set (key_source d). \<not> is_done d k \<and> (\<exists>d1. Q d1 \<and> \<not> is_done d1 k \<and> make k d1 = Inl e)"
proof -
  have "\<exists>k \<in> set (filter (\<lambda>k. \<not> is_done d k) (key_source d)). \<exists>d1. Q d1 \<and> \<not> is_done d1 k \<and> make k d1 = Inl e"
  proof (rule populate_keys_error [where Q = Q])
    fix k d1 d2 assume "Q d1" and "make k d1 = Inr d2"
    then show "Q d2" by (rule assms(1))
  qed (rule assms(2), use assms(3) in \<open>simp add: populate_def\<close>)
  then show ?thesis by auto
qed

end
