(* ===== verification/Mouse.thy ===== *)
theory Mouse
  imports Table
begin

text \<open>
  The \<open>Session\<close> table of the \<open>pipeline.mouse\<close> module that both imported-table
  notebooks import (\<open>from pipeline.mouse import schema, Mouse, Session\<close>). The module is
  not in the repository; the table's primary key (\<open>mouse_id\<close>, \<open>session_date\<close>) and
  its attributes are those the notebooks insert and fetch. Dates are kept as the text
  \<open>YYYY-MM-DD\<close> that Python prints for them. \<open>Session\<close> depends on \<open>Mouse\<close>
  (\<open>-> Mouse\<close>, the line \<open>Mouse\<close>-\<open>Session\<close> of the diagram in notebook 02): a
  session's \<open>mouse_id\<close> must be the key of a \<open>Mouse\<close> row. \<open>Mouse\<close> is kept as the
  table of its primary keys; its other attributes are not read by the notebooks.
\<close>

type_synonym mouse_table = "(int \<times> unit) list"   \<comment> \<open>Mouse rows by mouse_id\<close>

type_synonym session_key = "int \<times> string"   \<comment> \<open>mouse_id, session_date\<close>

record session_row =
  experiment_setup :: int
  experimenter :: string
  data_path :: string

end
