(* ===== verification/Imaging.thy ===== *)
theory Imaging
  imports Mouse
begin

text \<open>
  The calcium-imaging tables of \<open>src/notebooks/02-Calcium-Imaging-Imported-Tables.ipynb\<close>:
  \<open>Session\<close> (theory \<open>Mouse\<close>), the manual table \<open>Scan\<close>, and the imported
  table \<open>AverageFrame\<close> whose \<open>make\<close> loads a scan's TIFF file and averages it over
  frames. The database is a record of the tables and of the TIFF files on disk (each file
  the list of its pages). \<open>skimage.io.imread\<close> returns a 3-D array for a multi-page
  file and a 2-D array for a one-page file; \<open>np.mean(im, axis=0)\<close> then averages over
  frames, or over the rows of the single page (a 1-D result, kept here as a one-row
  image).
\<close>

type_synonym scan_key = "session_key \<times> int"  \<comment> \<open>mouse_id, session_date, scan_idx\<close>

record scan_row =
  depth :: rat
  wavelength :: rat
  laser_power :: rat
  fps :: rat
  file_name :: string

datatype ndarray = Nd2 "rat grid" | Nd3 "rat grid list"

record imaging_db =
  session :: "(session_key, session_row) table"
  scan :: "(scan_key, scan_row) table"
  average_frame :: "(scan_key, rat grid) table"
  tif_files :: "string \<Rightarrow> rat grid list option"

definition path_join :: "string \<Rightarrow> string \<Rightarrow> string" where
  "path_join a b =
     (if b \<noteq> [] \<and> hd b = CHR ''/'' then b
      else if a = [] \<or> last a = CHR ''/'' then a @ b
      else a @ ''/'' @ b)"

definition tif_ok :: "rat grid list \<Rightarrow> bool" where
  "tif_ok pages \<longleftrightarrow> pages \<noteq> [] \<and>
     list_all (\<lambda>g. rect g \<and> length g = length (hd pages) \<and> width g = width (hd pages)) pages"

definition imread :: "(string \<Rightarrow> rat grid list option) \<Rightarrow> string \<Rightarrow> error + ndarray" where
  "imread files path =
     (case files path of
        None \<Rightarrow> Inl FileNotFound
      | Some pages \<Rightarrow>
          if \<not> tif_ok pages then Inl ValueError
          else if length pages = 1 then Inr (Nd2 (hd pages)) else Inr (Nd3 pages))"

definition mean_list :: "rat list \<Rightarrow> rat" where
  "mean_list xs = sum_list xs / of_nat (length xs)"

definition np_mean_axis0 :: "ndarray \<Rightarrow> rat grid" where
  "np_mean_axis0 a =
     (case a of
        Nd3 frames \<Rightarrow>
          to_grid (length (hd frames)) (width (hd frames)) (\<lambda>p. mean_list (map (\<lambda>f. px f p) frames))
      | Nd2 g \<Rightarrow> [map (\<lambda>c. mean_list (map (\<lambda>row. row ! c) g)) [0..<width g]])"

definition scan_insert :: "(scan_key \<times> scan_row) list \<Rightarrow> imaging_db \<Rightarrow> error + imaging_db" where
  "scan_insert rows db =
     bind_err (insert_rows (\<lambda>k. fst k \<in> set (keys (session db))) rows (scan db))
       (\<lambda>t. Inr (db\<lparr>scan := t\<rparr>))"

definition scan_insert1 :: "scan_key \<Rightarrow> scan_row \<Rightarrow> imaging_db \<Rightarrow> error + imaging_db" where
  "scan_insert1 k row db =
     bind_err (insert1 (\<lambda>k. fst k \<in> set (keys (session db))) k row (scan db))
       (\<lambda>t. Inr (db\<lparr>scan := t\<rparr>))"

definition average_frame_make :: "scan_key \<Rightarrow> imaging_db \<Rightarrow> error + imaging_db" where
  "average_frame_make key db =
     bind_err (fetch1 (\<lambda>k. k = fst key) (session db)) (\<lambda>s.
     bind_err (fetch1 (\<lambda>k. k = key) (scan db)) (\<lambda>sc.
     bind_err (imread (tif_files db) (path_join (data_path s) (file_name sc))) (\<lambda>im.
     bind_err (insert1 (\<lambda>k. k \<in> set (keys (scan db))) key (np_mean_axis0 im) (average_frame db))
       (\<lambda>t. Inr (db\<lparr>average_frame := t\<rparr>)))))"

definition average_frame_make_print :: "scan_key \<Rightarrow> imaging_db \<Rightarrow> error + imaging_db" where
  "average_frame_make_print key db = Inr db"

definition average_frame_done :: "imaging_db \<Rightarrow> scan_key \<Rightarrow> bool" where
  "average_frame_done db k \<longleftrightarrow> k \<in> set (keys (average_frame db))"

definition average_frame_populate :: "imaging_db \<Rightarrow> imaging_db \<times> error option" where
  "average_frame_populate = populate average_frame_make (\<lambda>db. keys (scan db)) average_frame_done"

definition average_frame_populate_without_make :: "imaging_db \<Rightarrow> imaging_db \<times> error option" where
  "average_frame_populate_without_make = populate make_missing (\<lambda>db. keys (scan db)) average_frame_done"

definition average_frame_populate_print :: "imaging_db \<Rightarrow> imaging_db \<times> error option" where
  "average_frame_populate_print =
     populate average_frame_make_print (\<lambda>db. keys (scan db)) average_frame_done"

definition scan_minus_average_frame :: "imaging_db \<Rightarrow> (scan_key, scan_row) table" where
  "scan_minus_average_frame db = antijoin id (scan db) (keys (average_frame db))"

text \<open>The notebook's cells that change the database, as operations. A cell that raises
  leaves what was committed before the exception.\<close>

datatype imaging_op =
    ScanInsert "(scan_key \<times> scan_row) list"
  | ScanInsert1 scan_key scan_row
  | PopulateAverageFrame

fun imaging_step :: "imaging_op \<Rightarrow> imaging_db \<Rightarrow> imaging_db \<times> error option" where
  "imaging_step (ScanInsert rows) db = cell_result db (scan_insert rows db)"
| "imaging_step (ScanInsert1 k row) db = cell_result db (scan_insert1 k row db)"
| "imaging_step PopulateAverageFrame db = average_frame_populate db"

fun imaging_run :: "imaging_op list \<Rightarrow> imaging_db \<Rightarrow> imaging_db" where
  "imaging_run [] db = db"
| "imaging_run (op # ops) db = imaging_run ops (fst (imaging_step op db))"

text \<open>Well-formedness of the imaging database: primary keys are unique and every row's
  parent exists (Scan refers to Session, AverageFrame to Scan).\<close>

definition imaging_wf :: "imaging_db \<Rightarrow> bool" where
  "imaging_wf db \<longleftrightarrow>
     distinct (keys (session db)) \<and> distinct (keys (scan db)) \<and> distinct (keys (average_frame db)) \<and>
     list_all (\<lambda>k. fst k \<in> set (keys (session db))) (keys (scan db)) \<and>
     list_all (\<lambda>k. k \<in> set (keys (scan db))) (keys (average_frame db))"

text \<open>Every scan's file is a readable TIFF (the condition under which \<open>make\<close> succeeds).\<close>

definition scan_file :: "imaging_db \<Rightarrow> scan_key \<Rightarrow> string" where
  "scan_file db k =
     (case (map_of (session db) (fst k), map_of (scan db) k) of
        (Some s, Some sc) \<Rightarrow> path_join (data_path s) (file_name sc)
      | _ \<Rightarrow> [])"

definition files_ok :: "imaging_db \<Rightarrow> bool" where
  "files_ok db \<longleftrightarrow>
     list_all (\<lambda>k. case tif_files db (scan_file db k) of None \<Rightarrow> False | Some pages \<Rightarrow> tif_ok pages)
       (keys (scan db))"

text \<open>The state \<open>populate\<close> runs in: well-formed, files readable, and the inputs of
  \<open>make\<close> (Session, Scan, files) those of the starting database.\<close>

definition same_inputs :: "imaging_db \<Rightarrow> imaging_db \<Rightarrow> bool" where
  "same_inputs db0 db \<longleftrightarrow>
     session db = session db0 \<and> scan db = scan db0 \<and> tif_files db = tif_files db0"

text \<open>The rows the notebook inserts into Scan: two scans of mouse 0's session of
  2017-05-15, then one more scan of mouse 100.\<close>

definition notebook_scan_rows :: "(scan_key \<times> scan_row) list" where
  "notebook_scan_rows =
     [(((0, ''2017-05-15''), 1),
       \<lparr>depth = 150, wavelength = 920, laser_power = 26, fps = 15, file_name = ''example_scan_01.tif''\<rparr>),
      (((0, ''2017-05-15''), 2),
       \<lparr>depth = 200, wavelength = 920, laser_power = 24, fps = 15, file_name = ''example_scan_02.tif''\<rparr>)]"

definition notebook_new_scan :: "scan_key \<times> scan_row" where
  "notebook_new_scan =
     (((100, ''2017-05-25''), 1),
      \<lparr>depth = 150, wavelength = 920, laser_power = 25, fps = 15, file_name = ''example_scan_03.tif''\<rparr>)"

definition notebook_sessions :: "(session_key \<times> session_row) list" where
  "notebook_sessions =
     [((0, ''2017-05-15''), \<lparr>experiment_setup = 0, experimenter = ''Edgar Y. Walker'', data_path = ''/data''\<rparr>),
      ((100, ''2017-05-25''), \<lparr>experiment_setup = 1, experimenter = ''Jacob Reimer'', data_path = ''/data''\<rparr>)]"

definition notebook_ops :: "imaging_op list" where
  "notebook_ops =
     [ScanInsert notebook_scan_rows, PopulateAverageFrame, PopulateAverageFrame,
      ScanInsert1 (fst notebook_new_scan) (snd notebook_new_scan), PopulateAverageFrame]"

definition example_imaging_db :: imaging_db where
  "example_imaging_db =
     \<lparr>session = [((0, ''2017-05-15''),
                  \<lparr>experiment_setup = 0, experimenter = ''Edgar Y. Walker'', data_path = ''/data''\<rparr>)],
      scan = notebook_scan_rows,
      average_frame = [],
      tif_files = (\<lambda>p. if p = ''/data/example_scan_01.tif'' then Some [[[1, 2], [3, 4]], [[3, 4], [5, 6]]]
                        else if p = ''/data/example_scan_02.tif'' then Some [[[0, 0], [8, 8]], [[2, 0], [0, 8]]]
                        else None)\<rparr>"

lemma imaging_wf_scan_session:
  "imaging_wf db \<Longrightarrow> key \<in> set (keys (scan db)) \<Longrightarrow> \<exists>s. map_of (session db) (fst key) = Some s"
  by (intro map_of_key_Some) (simp add: imaging_wf_def list_all_iff)

lemma files_ok_frame [simp]: "files_ok (db\<lparr>average_frame := a\<rparr>) = files_ok db"
  by (simp add: files_ok_def scan_file_def)

text \<open>With the Session and Scan rows there, \<open>make\<close> reads the scan's file and inserts
  its mean, refusing a key already in the table.\<close>

lemma average_frame_make_eq:
  assumes "imaging_wf db" and "key \<in> set (keys (scan db))"
  shows "average_frame_make key db =
           bind_err (imread (tif_files db) (scan_file db key)) (\<lambda>im.
             if average_frame_done db key then Inl DuplicateError
             else Inr (db\<lparr>average_frame := average_frame db @ [(key, np_mean_axis0 im)]\<rparr>))"
proof -
  obtain s where s: "map_of (session db) (fst key) = Some s"
    using imaging_wf_scan_session [OF assms] by blast
  obtain sc where sc: "map_of (scan db) key = Some sc"
    using map_of_key_Some [OF assms(2)] by blast
  from assms(1) have "distinct (keys (session db))" and "distinct (keys (scan db))"
    by (simp_all add: imaging_wf_def)
  with s sc assms(2) show ?thesis
    by (simp add: average_frame_make_def fetch1_key scan_file_def insert1_def average_frame_done_def
        bind_err_def split: sum.split)
qed

lemma imaging_wf_add_frame:
  assumes "imaging_wf db" and "key \<in> set (keys (scan db))" and "\<not> average_frame_done db key"
  shows "imaging_wf (db\<lparr>average_frame := average_frame db @ [(key, a)]\<rparr>)"
  using assms by (simp add: imaging_wf_def average_frame_done_def)

lemma average_frame_make_Inr:
  assumes "imaging_wf db" and "key \<in> set (keys (scan db))"
    and "average_frame_make key db = Inr db'"
  shows "\<exists>im. imread (tif_files db) (scan_file db key) = Inr im \<and> \<not> average_frame_done db key \<and>
           db' = db\<lparr>average_frame := average_frame db @ [(key, np_mean_axis0 im)]\<rparr>"
  using assms(3) by (auto simp: average_frame_make_eq [OF assms(1,2)] bind_err_Inr_iff split: if_splits)

lemma average_frame_make_total:
  assumes "imaging_wf db" and "files_ok db" and "key \<in> set (keys (scan db))"
    and "\<not> average_frame_done db key"
  shows "\<exists>db'. average_frame_make key db = Inr db'"
proof -
  from assms(2,3) obtain pages where "tif_files db (scan_file db key) = Some pages" and "tif_ok pages"
    by (auto simp: files_ok_def list_all_iff split: option.splits)
  then obtain im where "imread (tif_files db) (scan_file db key) = Inr im"
    by (cases "length pages = 1") (simp_all add: imread_def)
  with assms(4) show ?thesis by (simp add: average_frame_make_eq [OF assms(1,3)])
qed

lemma files_ok_same_inputs: "same_inputs d d' \<Longrightarrow> files_ok d' = files_ok d"
  by (simp add: same_inputs_def files_ok_def scan_file_def)

lemma average_frame_make_step:
  assumes "imaging_wf d" and run: "average_frame_make k d = Inr d'"
  shows "imaging_wf d' \<and> same_inputs d d' \<and> average_frame_done d' k \<and>
         (\<forall>k'. average_frame_done d k' \<longrightarrow> average_frame_done d' k')"
proof (cases "k \<in> set (keys (scan d))")
  case True
  with assms obtain im where "\<not> average_frame_done d k"
    and d': "d' = d\<lparr>average_frame := average_frame d @ [(k, np_mean_axis0 im)]\<rparr>"
    by (blast dest: average_frame_make_Inr)
  with assms(1) True show ?thesis
    by (simp add: imaging_wf_add_frame same_inputs_def average_frame_done_def)
next
  case False
  with run show ?thesis
    by (auto simp: average_frame_make_def bind_err_Inr_iff insert1_Inr_iff)
qed

lemma average_frame_contract:
  "make_contract (\<lambda>d. imaging_wf d \<and> files_ok d \<and> same_inputs db0 d) (\<lambda>_. True)
     average_frame_make average_frame_done"
  unfolding make_contract_def
proof (intro allI impI)
  fix k d d'
  assume "imaging_wf d \<and> files_ok d \<and> same_inputs db0 d" and "True"
    and "average_frame_make k d = Inr d'"
  with average_frame_make_step [of d k d'] files_ok_same_inputs [of d d']
  show "(imaging_wf d' \<and> files_ok d' \<and> same_inputs db0 d') \<and> average_frame_done d' k \<and>
        (\<forall>k'. average_frame_done d k' \<longrightarrow> average_frame_done d' k')"
    by (auto simp: same_inputs_def)
qed

lemma average_frame_populate_run:
  assumes "imaging_wf db" and "files_ok db"
  shows "\<exists>db'. average_frame_populate db = (db', None) \<and> imaging_wf db' \<and> same_inputs db db' \<and>
           list_all (average_frame_done db') (keys (scan db))"
proof -
  have P0: "imaging_wf db \<and> files_ok db \<and> same_inputs db db" using assms by (simp add: same_inputs_def)
  have total: "\<exists>d''. average_frame_make k d' = Inr d''"
    if "imaging_wf d' \<and> files_ok d' \<and> same_inputs db d'" and "k \<in> set (keys (scan db))"
      and "\<not> average_frame_done d' k" for k d'
    using that average_frame_make_total [of d' k] by (auto simp: same_inputs_def)
  have K: "list_all (\<lambda>_. True) (keys (scan db))" by (simp add: list_all_iff)
  from populate_complete [where key_source = "\<lambda>db. keys (scan db)", OF average_frame_contract P0 K total]
  show ?thesis
    by (auto simp: average_frame_populate_def)
qed

lemma keys_scan_minus_average_frame:
  "keys (scan_minus_average_frame db) = filter (\<lambda>k. \<not> average_frame_done db k) (keys (scan db))"
  by (simp add: scan_minus_average_frame_def antijoin_def keys_def filter_map comp_def
      average_frame_done_def)

text \<open>C2. Calling \<open>AverageFrame.populate()\<close> on a well-formed database whose scan files
  are readable ends without error, leaves Scan as it was and gives every scan its average
  frame.\<close>

theorem average_frame_populate_complete:
  assumes "imaging_wf db" and "files_ok db"
  shows "\<exists>db'. average_frame_populate db = (db', None) \<and> imaging_wf db' \<and> scan db' = scan db \<and>
           list_all (average_frame_done db') (keys (scan db'))"
  using average_frame_populate_run [OF assms] by (auto simp: same_inputs_def)

theorem average_frame_populate_complete_witness:
  "imaging_wf example_imaging_db \<and> files_ok example_imaging_db \<and>
   (\<exists>db'. average_frame_populate example_imaging_db = (db', None) \<and> imaging_wf db' \<and>
      scan db' = scan example_imaging_db \<and> list_all (average_frame_done db') (keys (scan db')))"
proof -
  have h1: "imaging_wf example_imaging_db" by code_simp
  have h2: "files_ok example_imaging_db" by code_simp
  show ?thesis using average_frame_populate_complete [OF h1 h2] h1 h2 by blast
qed

text \<open>C3. Calling \<open>AverageFrame.populate()\<close> a second time does nothing: every scan
  already has its frame, so no \<open>make\<close> runs and no error is raised.\<close>

theorem average_frame_populate_idempotent:
  assumes "imaging_wf db" and "files_ok db"
  shows "average_frame_populate (fst (average_frame_populate db)) = (fst (average_frame_populate db), None)"
proof -
  obtain db' where run: "average_frame_populate db = (db', None)" and "same_inputs db db'"
    and fin: "list_all (average_frame_done db') (keys (scan db))"
    using average_frame_populate_run [OF assms] by blast
  then have "list_all (average_frame_done db') (keys (scan db'))" by (simp add: same_inputs_def)
  then have "average_frame_populate db' = (db', None)"
    unfolding average_frame_populate_def by (rule populate_nothing_left)
  with run show ?thesis by simp
qed

theorem average_frame_populate_idempotent_witness:
  "imaging_wf example_imaging_db \<and> files_ok example_imaging_db \<and>
   average_frame_populate (fst (average_frame_populate example_imaging_db)) =
     (fst (average_frame_populate example_imaging_db), None)"
proof -
  have h1: "imaging_wf example_imaging_db" by code_simp
  have h2: "files_ok example_imaging_db" by code_simp
  show ?thesis using average_frame_populate_idempotent [OF h1 h2] h1 h2 by blast
qed

text \<open>C4. \<open>AverageFrame.make\<close> on a scan whose TIFF file has several frames inserts one
  row under the scan's key: an image of the frames' shape whose every pixel is the mean
  of that pixel over the frames.\<close>

theorem average_frame_make_mean:
  assumes "imaging_wf db" and "key \<in> set (keys (scan db))" and "\<not> average_frame_done db key"
    and tif: "tif_files db (scan_file db key) = Some frames" and "tif_ok frames"
    and "2 \<le> length frames"
  shows "\<exists>avg. average_frame_make key db = Inr (db\<lparr>average_frame := average_frame db @ [(key, avg)]\<rparr>) \<and>
           length avg = length (hd frames) \<and> width avg = width (hd frames) \<and>
           (\<forall>p. inside avg p \<longrightarrow> px avg p = mean_list (map (\<lambda>f. px f p) frames))"
proof -
  let ?avg = "to_grid (length (hd frames)) (width (hd frames)) (\<lambda>p. mean_list (map (\<lambda>f. px f p) frames))"
  have "imread (tif_files db) (scan_file db key) = Inr (Nd3 frames)"
    using assms(4-6) by (simp add: imread_def)
  then have "average_frame_make key db = Inr (db\<lparr>average_frame := average_frame db @ [(key, ?avg)]\<rparr>)"
    using assms(3) by (simp add: average_frame_make_eq [OF assms(1,2)] np_mean_axis0_def)
  moreover have "width ?avg = width (hd frames)"
    by (auto simp: width_to_grid)
  moreover have "\<forall>p. inside ?avg p \<longrightarrow> px ?avg p = mean_list (map (\<lambda>f. px f p) frames)"
    using calculation(2) by (auto simp del: split_paired_All)
  ultimately show ?thesis by (intro exI [of _ ?avg]) simp
qed

theorem average_frame_make_mean_witness:
  "imaging_wf example_imaging_db \<and> ((0, ''2017-05-15''), 1) \<in> set (keys (scan example_imaging_db)) \<and>
   \<not> average_frame_done example_imaging_db ((0, ''2017-05-15''), 1) \<and>
   tif_files example_imaging_db (scan_file example_imaging_db ((0, ''2017-05-15''), 1)) =
     Some [[[1, 2], [3, 4]], [[3, 4], [5, 6]]] \<and>
   tif_ok [[[1, 2], [3, 4]], [[3, 4], [5, 6]]] \<and> 2 \<le> length [[[1, 2], [3, 4]], [[3, 4], [5, 6::rat]]] \<and>
   (\<exists>avg. average_frame_make ((0, ''2017-05-15''), 1) example_imaging_db =
      Inr (example_imaging_db\<lparr>average_frame :=
             average_frame example_imaging_db @ [(((0, ''2017-05-15''), 1), avg)]\<rparr>) \<and>
      length avg = length (hd [[[1, 2], [3, 4]], [[3, 4], [5, 6::rat]]]) \<and>
      width avg = width (hd [[[1, 2], [3, 4]], [[3, 4], [5, 6::rat]]]) \<and>
      (\<forall>p. inside avg p \<longrightarrow> px avg p = mean_list (map (\<lambda>f. px f p) [[[1, 2], [3, 4]], [[3, 4], [5, 6::rat]]])))"
proof -
  have h1: "imaging_wf example_imaging_db" by code_simp
  have h2: "((0, ''2017-05-15''), 1) \<in> set (keys (scan example_imaging_db))" by code_simp
  have h3: "\<not> average_frame_done example_imaging_db ((0, ''2017-05-15''), 1)" by code_simp
  have h4: "tif_files example_imaging_db (scan_file example_imaging_db ((0, ''2017-05-15''), 1)) =
     Some [[[1, 2], [3, 4]], [[3, 4], [5, 6]]]" by code_simp
  have h5: "tif_ok [[[1, 2], [3, 4]], [[3, 4], [5, 6::rat]]]" by code_simp
  have h6: "2 \<le> length [[[1, 2], [3, 4]], [[3, 4], [5, 6::rat]]]" by simp
  show ?thesis by (intro conjI h1 h2 h3 h4 h5 h6 average_frame_make_mean [OF h1 h2 h3 h4 h5 h6])
qed

text \<open>C5. The first two versions of AverageFrame in the notebook: without \<open>make\<close>,
  \<open>populate\<close> raises NotImplementedError exactly when some scan has no frame yet; with a
  \<open>make\<close> that only prints its key, \<open>populate\<close> succeeds and inserts nothing. Neither
  changes the database.\<close>

theorem average_frame_populate_early_versions:
  "average_frame_populate_without_make db =
     (db, if scan_minus_average_frame db = [] then None else Some NotImplementedError) \<and>
   average_frame_populate_print db = (db, None)"
proof
  have "scan_minus_average_frame db = [] \<longleftrightarrow>
        filter (\<lambda>k. \<not> average_frame_done db k) (keys (scan db)) = []"
    by (simp only: keys_scan_minus_average_frame [symmetric] keys_eq_Nil)
  then show "average_frame_populate_without_make db =
     (db, if scan_minus_average_frame db = [] then None else Some NotImplementedError)"
    by (simp add: average_frame_populate_without_make_def populate_make_missing)
  show "average_frame_populate_print db = (db, None)"
    by (simp add: average_frame_populate_print_def populate_def populate_keys_no_change
        average_frame_make_print_def)
qed

lemma scan_insert_wf:
  assumes "imaging_wf db" and "scan_insert rows db = Inr db'"
  shows "imaging_wf db'"
proof -
  from assms(2) obtain t where ins: "insert_rows (\<lambda>k. fst k \<in> set (keys (session db))) rows (scan db) = Inr t"
    and db': "db' = db\<lparr>scan := t\<rparr>"
    by (auto simp: scan_insert_def bind_err_Inr_iff)
  from ins have rows: "\<forall>k \<in> set (map fst rows). fst k \<in> set (keys (session db))"
    and "distinct (map fst rows)" and "set (map fst rows) \<inter> set (keys (scan db)) = {}"
    and t: "t = scan db @ rows"
    by (simp_all add: insert_rows_Inr_iff list_all_iff)
  moreover have "keys (scan db') = keys (scan db) @ map fst rows"
    using db' t by (simp add: keys_def)
  ultimately show ?thesis
    using assms(1) db' unfolding imaging_wf_def list_all_iff by auto
qed

lemma scan_insert1_wf:
  assumes "imaging_wf db" and "scan_insert1 k row db = Inr db'"
  shows "imaging_wf db'"
proof -
  from assms(2) have "fst k \<in> set (keys (session db))" and "k \<notin> set (keys (scan db))"
    and "db' = db\<lparr>scan := scan db @ [(k, row)]\<rparr>"
    by (auto simp: scan_insert1_def bind_err_Inr_iff insert1_Inr_iff)
  with assms(1) show ?thesis
    unfolding imaging_wf_def list_all_iff by auto
qed

lemma average_frame_populate_wf:
  "imaging_wf db \<Longrightarrow> imaging_wf (fst (average_frame_populate db))"
  unfolding average_frame_populate_def
  by (rule populate_preserves [where Q = imaging_wf]) (auto dest: average_frame_make_step)

lemma imaging_step_wf: "imaging_wf db \<Longrightarrow> imaging_wf (fst (imaging_step op db))"
  by (cases op)
    (auto simp: cell_result_def average_frame_populate_wf split: sum.split
      dest: scan_insert_wf scan_insert1_wf)

end
