(* ===== verification/ImagingRun.thy ===== *)
theory ImagingRun
  imports Imaging
begin

text \<open>
  The cells of \<open>src/notebooks/02-Calcium-Imaging-Imported-Tables.ipynb\<close> run as the
  notebook runs them (\<open>notebook_ops\<close> of theory \<open>Imaging\<close>): the stored average frames
  stay the means of their scans' files under any sequence of cells, and the notebook's own
  sequence ends with every scan, the one inserted last included, averaged.
\<close>

text \<open>Every stored average frame is \<open>np.mean(axis=0)\<close> of the file its scan names.\<close>

definition frames_faithful :: "imaging_db \<Rightarrow> bool" where
  "frames_faithful db \<longleftrightarrow>
     list_all (\<lambda>(k, img). case imread (tif_files db) (scan_file db k) of
                           Inl _ \<Rightarrow> False | Inr im \<Rightarrow> img = np_mean_axis0 im)
       (average_frame db)"

text \<open>The notebook's database before its first cell: the two sessions, no scan yet, and
  the three TIFF files the scans name.\<close>

definition notebook_imaging_db :: imaging_db where
  "notebook_imaging_db =
     example_imaging_db\<lparr>scan := [], session := notebook_sessions,
       tif_files := (tif_files example_imaging_db)
         (''/data/example_scan_03.tif'' \<mapsto> [[[1, 1], [1, 1]], [[3, 3], [3, 5]]])\<rparr>"

lemma scan_file_append:
  assumes "k \<in> set (keys (scan db))"
  shows "scan_file (db\<lparr>scan := scan db @ rows\<rparr>) k = scan_file db k"
proof -
  obtain v where "map_of (scan db) k = Some v" using map_of_key_Some [OF assms] ..
  then have "map_of (scan db @ rows) k = map_of (scan db) k" by (simp add: map_add_def)
  then show ?thesis by (simp add: scan_file_def)
qed

lemma frames_faithful_scan_append:
  assumes wf: "imaging_wf db" and ff: "frames_faithful db"
  shows "frames_faithful (db\<lparr>scan := scan db @ rows\<rparr>)"
  unfolding frames_faithful_def list_all_iff
proof
  fix r assume "r \<in> set (average_frame (db\<lparr>scan := scan db @ rows\<rparr>))"
  then have r: "r \<in> set (average_frame db)" by simp
  then have "fst r \<in> set (keys (scan db))"
    using wf by (auto simp: imaging_wf_def list_all_iff keys_def)
  then have "scan_file (db\<lparr>scan := scan db @ rows\<rparr>) (fst r) = scan_file db (fst r)"
    by (rule scan_file_append)
  moreover from ff r have "case r of (k, img) \<Rightarrow> (case imread (tif_files db) (scan_file db k) of
      Inl _ \<Rightarrow> False | Inr im \<Rightarrow> img = np_mean_axis0 im)"
    unfolding frames_faithful_def list_all_iff by blast
  ultimately show "case r of (k, img) \<Rightarrow>
      (case imread (tif_files (db\<lparr>scan := scan db @ rows\<rparr>)) (scan_file (db\<lparr>scan := scan db @ rows\<rparr>) k) of
         Inl _ \<Rightarrow> False | Inr im \<Rightarrow> img = np_mean_axis0 im)"
    by (cases r) simp
qed

lemma average_frame_make_faithful:
  assumes wf: "imaging_wf d" and ff: "frames_faithful d" and mk: "average_frame_make k d = Inr d'"
  shows "frames_faithful d'"
proof (cases "k \<in> set (keys (scan d))")
  case True
  with wf mk obtain im where im: "imread (tif_files d) (scan_file d k) = Inr im"
    and d': "d' = d\<lparr>average_frame := average_frame d @ [(k, np_mean_axis0 im)]\<rparr>"
    by (blast dest: average_frame_make_Inr)
  have "scan_file d' = scan_file d" by (simp add: d' scan_file_def fun_eq_iff)
  with ff im show ?thesis by (simp add: d' frames_faithful_def)
next
  case False
  with mk show ?thesis
    by (auto simp: average_frame_make_def bind_err_Inr_iff insert1_Inr_iff)
qed

lemma scan_insert_Inr:
  "scan_insert rows db = Inr db' \<Longrightarrow> db' = db\<lparr>scan := scan db @ rows\<rparr>"
  by (auto simp: scan_insert_def bind_err_Inr_iff insert_rows_Inr_iff)

lemma scan_insert1_Inr:
  "scan_insert1 k row db = Inr db' \<Longrightarrow> db' = db\<lparr>scan := scan db @ [(k, row)]\<rparr>"
  by (auto simp: scan_insert1_def bind_err_Inr_iff insert1_Inr_iff)

lemma imaging_step_faithful:
  assumes wf: "imaging_wf db" and ff: "frames_faithful db"
  shows "frames_faithful (fst (imaging_step op db))"
proof (cases op)
  case (ScanInsert rows)
  show ?thesis unfolding ScanInsert imaging_step.simps
    using ff by (rule cell_result_preserves) (auto dest!: scan_insert_Inr intro: frames_faithful_scan_append [OF wf ff])
next
  case (ScanInsert1 k row)
  show ?thesis unfolding ScanInsert1 imaging_step.simps
    using ff by (rule cell_result_preserves) (auto dest!: scan_insert1_Inr intro: frames_faithful_scan_append [OF wf ff])
next
  case PopulateAverageFrame
  have "imaging_wf (fst (average_frame_populate db)) \<and> frames_faithful (fst (average_frame_populate db))"
    unfolding average_frame_populate_def
    by (rule populate_preserves [where Q = "\<lambda>d. imaging_wf d \<and> frames_faithful d"])
       (auto dest: average_frame_make_step average_frame_make_faithful simp: wf ff)
  with PopulateAverageFrame show ?thesis by simp
qed

text \<open>C13. Whatever imaging cells run, in whatever order and whatever they raise, every
  stored average frame stays \<open>np.mean(im, axis=0)\<close> of the TIFF file its scan names: Scan
  rows are never replaced, so the file behind a frame never changes.\<close>

theorem imaging_run_faithful:
  "imaging_wf db \<Longrightarrow> frames_faithful db \<Longrightarrow> frames_faithful (imaging_run ops db)"
proof (induction ops arbitrary: db)
  case (Cons op ops)
  then show ?case by (simp add: imaging_step_wf imaging_step_faithful)
qed simp

lemma scan_minus_average_frame_Nil:
  "list_all (average_frame_done db) (keys (scan db)) \<Longrightarrow> scan_minus_average_frame db = []"
proof -
  assume "list_all (average_frame_done db) (keys (scan db))"
  then have "keys (scan_minus_average_frame db) = []"
    by (simp add: keys_scan_minus_average_frame filter_empty_conv list_all_iff)
  then show ?thesis by simp
qed

text \<open>C30. The imaging notebook's cells in their order (\<open>Scan.insert\<close> of the two scans,
  \<open>AverageFrame.populate()\<close> twice, \<open>Scan.insert1\<close> of the third scan, \<open>populate\<close> again),
  run on a well-formed database with no scan yet whose sessions include the scans'
  sessions and whose three TIFF files are readable, end with Scan holding the three scans
  in insertion order, \<open>Scan - AverageFrame\<close> empty, and the database well-formed.\<close>

theorem notebook_imaging_run:
  assumes wf: "imaging_wf db0" and noscan: "scan db0 = []"
    and parents: "list_all (\<lambda>r. fst (fst r) \<in> set (keys (session db0))) (notebook_scan_rows @ [notebook_new_scan])"
    and files: "files_ok (db0\<lparr>scan := notebook_scan_rows @ [notebook_new_scan]\<rparr>)"
  shows "scan (imaging_run notebook_ops db0) = notebook_scan_rows @ [notebook_new_scan] \<and>
         scan_minus_average_frame (imaging_run notebook_ops db0) = [] \<and>
         imaging_wf (imaging_run notebook_ops db0)"
proof -
  let ?R = notebook_scan_rows and ?N = notebook_new_scan
  let ?db1 = "db0\<lparr>scan := ?R\<rparr>"
  have keysR: "distinct (map fst ?R)" and newR: "fst ?N \<notin> set (keys ?R)"
    by (simp_all add: notebook_scan_rows_def notebook_new_scan_def)
  have "insert_rows (\<lambda>k. fst k \<in> set (keys (session db0))) ?R [] = Inr ?R"
    using parents keysR by (simp add: insert_rows_Inr_iff list_all_iff)
  then have s1: "scan_insert ?R db0 = Inr ?db1" by (simp add: scan_insert_def noscan)
  have wf1: "imaging_wf ?db1" using scan_insert_wf [OF wf s1] .
  have sf: "scan_file (db0\<lparr>scan := ?R @ [?N]\<rparr>) k = scan_file ?db1 k" if "k \<in> set (keys ?R)" for k
    using scan_file_append [of k ?db1 "[?N]"] that by simp
  have files1: "files_ok ?db1"
    unfolding files_ok_def list_all_iff
  proof
    fix k assume k: "k \<in> set (keys (scan ?db1))"
    with files have "case tif_files db0 (scan_file (db0\<lparr>scan := ?R @ [?N]\<rparr>) k) of
        None \<Rightarrow> False | Some pages \<Rightarrow> tif_ok pages"
      by (simp add: files_ok_def list_all_iff)
    with k sf show "case tif_files ?db1 (scan_file ?db1 k) of
        None \<Rightarrow> False | Some pages \<Rightarrow> tif_ok pages" by simp
  qed
  obtain db2 where p2: "average_frame_populate ?db1 = (db2, None)" and wf2: "imaging_wf db2"
    and same2: "same_inputs ?db1 db2" and done2: "list_all (average_frame_done db2) (keys (scan ?db1))"
    using average_frame_populate_run [OF wf1 files1] by blast
  have sc2: "scan db2 = ?R" and se2: "session db2 = session db0"
    using same2 by (simp_all add: same_inputs_def)
  have p3: "average_frame_populate db2 = (db2, None)"
    unfolding average_frame_populate_def by (rule populate_nothing_left) (use done2 sc2 in simp)
  let ?db3 = "db2\<lparr>scan := ?R @ [?N]\<rparr>"
  have s4: "scan_insert1 (fst ?N) (snd ?N) db2 = Inr ?db3"
    using parents newR sc2 se2 by (simp add: scan_insert1_def insert1_def)
  have wf3: "imaging_wf ?db3" using scan_insert1_wf [OF wf2 s4] by simp
  have "same_inputs (db0\<lparr>scan := ?R @ [?N]\<rparr>) ?db3"
    using same2 by (simp add: same_inputs_def)
  with files have files3: "files_ok ?db3" by (simp add: files_ok_same_inputs)
  obtain db4 where p5: "average_frame_populate ?db3 = (db4, None)" and wf4: "imaging_wf db4"
    and same4: "same_inputs ?db3 db4" and done4: "list_all (average_frame_done db4) (keys (scan ?db3))"
    using average_frame_populate_run [OF wf3 files3] by blast
  have sc4: "scan db4 = ?R @ [?N]" using same4 by (simp add: same_inputs_def)
  have run: "imaging_run notebook_ops db0 = db4"
    using s1 p2 p3 s4 p5 by (simp add: notebook_ops_def cell_result_def)
  show ?thesis
    using sc4 done4 wf4 by (simp add: run scan_minus_average_frame_Nil)
qed

theorem notebook_imaging_run_witness:
  "imaging_wf notebook_imaging_db \<and> scan notebook_imaging_db = [] \<and>
   list_all (\<lambda>r. fst (fst r) \<in> set (keys (session notebook_imaging_db))) (notebook_scan_rows @ [notebook_new_scan]) \<and>
   files_ok (notebook_imaging_db\<lparr>scan := notebook_scan_rows @ [notebook_new_scan]\<rparr>) \<and>
   scan (imaging_run notebook_ops notebook_imaging_db) = notebook_scan_rows @ [notebook_new_scan] \<and>
   scan_minus_average_frame (imaging_run notebook_ops notebook_imaging_db) = [] \<and>
   imaging_wf (imaging_run notebook_ops notebook_imaging_db)"
proof -
  have h1: "imaging_wf notebook_imaging_db" by code_simp
  have h2: "scan notebook_imaging_db = []" by (simp add: notebook_imaging_db_def)
  have h3: "list_all (\<lambda>r. fst (fst r) \<in> set (keys (session notebook_imaging_db)))
      (notebook_scan_rows @ [notebook_new_scan])" by code_simp
  have h4: "files_ok (notebook_imaging_db\<lparr>scan := notebook_scan_rows @ [notebook_new_scan]\<rparr>)" by code_simp
  show ?thesis using notebook_imaging_run [OF h1 h2 h3 h4] h1 h2 h3 h4 by blast
qed

theorem imaging_run_faithful_witness:
  "imaging_wf notebook_imaging_db \<and> frames_faithful notebook_imaging_db \<and>
   frames_faithful (imaging_run notebook_ops notebook_imaging_db)"
proof -
  have h1: "imaging_wf notebook_imaging_db" by code_simp
  have h2: "frames_faithful notebook_imaging_db" by code_simp
  show ?thesis using imaging_run_faithful [OF h1 h2] h1 h2 by blast
qed

end
