(* ===== verification/Ephys.thy ===== *)
theory Ephys
  imports Mouse
begin

text \<open>
  The electrophysiology tables of
  \<open>src/notebooks/04-Electrophysiology-Imported-Tables.ipynb\<close>: the imported table
  \<open>Neuron\<close>, one row per neuron recorded in a session. Its \<open>make\<close> builds the name
  \<open>'{data_dir}/data_{mouse_id}_{session_date}.npy'\<close> from the session's key, loads the
  2-D array stored there (neurons by time bins) and inserts one row per array row,
  numbered from 0 by \<open>enumerate\<close>; \<open>populate\<close> runs it, one transaction per session, on
  the sessions \<open>Session - Neuron\<close> lists. Python prints an \<open>int\<close> in decimal with a
  leading minus sign when negative; that printing is part of the model, and reading it
  back shows that the file name determines the session. \<open>Session.insert1\<close> checks
  Session's foreign key to \<open>Mouse\<close>. The notebook's \<open>Session.insert1\<close> gives no
  \<open>data_path\<close>; the model's rows carry the empty text there.

  Lemmas: the closed form of the insertion loop and of \<open>make\<close> (every branch, errors
  included), the populate contract of \<open>Table\<close> discharged for \<open>make\<close>, what the two
  early versions of the table do, and the claims: completeness and idempotence of
  \<open>populate\<close>, the rows \<open>make\<close> inserts, its errors, injectivity of the file name, a
  session with an empty array is never imported, and the notebook's new-session cells.
\<close>

type_synonym neuron_key = "session_key \<times> int"   \<comment> \<open>mouse_id, session_date, neuron_id\<close>

record ephys_db =
  ephys_mouse :: mouse_table
  ephys_session :: "(session_key, session_row) table"
  neuron :: "(neuron_key, rat list) table"
  npy_files :: "string \<Rightarrow> rat list list option"
  data_dir :: string

fun dec_digits :: "nat \<Rightarrow> string" where
  "dec_digits n =
     (if n < 10 then [char_of (48 + n)] else dec_digits (n div 10) @ [char_of (48 + n mod 10)])"

definition show_int :: "int \<Rightarrow> string" where
  "show_int i = (if i < 0 then CHR ''-'' # dec_digits (nat (- i)) else dec_digits (nat i))"

definition data_file_name :: "string \<Rightarrow> session_key \<Rightarrow> string" where
  "data_file_name dir key = dir @ ''/data_'' @ show_int (fst key) @ ''_'' @ snd key @ ''.npy''"

definition np_load :: "(string \<Rightarrow> rat list list option) \<Rightarrow> string \<Rightarrow> error + rat list list" where
  "np_load files path = (case files path of None \<Rightarrow> Inl FileNotFound | Some a \<Rightarrow> Inr a)"

fun insert_neurons ::
  "(neuron_key \<Rightarrow> bool) \<Rightarrow> session_key \<Rightarrow> int \<Rightarrow> rat list list \<Rightarrow> (neuron_key, rat list) table \<Rightarrow>
   error + (neuron_key, rat list) table" where
  "insert_neurons ok key idx [] t = Inr t"
| "insert_neurons ok key idx (d # ds) t =
     bind_err (insert1 ok (key, idx) d t) (insert_neurons ok key (idx + 1) ds)"

definition neuron_make :: "session_key \<Rightarrow> ephys_db \<Rightarrow> error + ephys_db" where
  "neuron_make key db =
     bind_err (np_load (npy_files db) (data_file_name (data_dir db) key)) (\<lambda>data.
     bind_err (insert_neurons (\<lambda>k. fst k \<in> set (keys (ephys_session db))) key 0 data (neuron db))
       (\<lambda>t. Inr (db\<lparr>neuron := t\<rparr>)))"

definition neuron_done :: "ephys_db \<Rightarrow> session_key \<Rightarrow> bool" where
  "neuron_done db k \<longleftrightarrow> k \<in> fst ` set (keys (neuron db))"

definition neuron_populate :: "ephys_db \<Rightarrow> ephys_db \<times> error option" where
  "neuron_populate = populate neuron_make (\<lambda>db. keys (ephys_session db)) neuron_done"

text \<open>The two earlier versions of \<open>Neuron\<close> in the notebook: without a \<open>make\<close>
  (\<open>populate\<close> raises \<open>NotImplementedError\<close>) and with a \<open>make\<close> that only prints its key.\<close>

definition neuron_make_print :: "session_key \<Rightarrow> ephys_db \<Rightarrow> error + ephys_db" where
  "neuron_make_print key db = Inr db"

definition neuron_populate_without_make :: "ephys_db \<Rightarrow> ephys_db \<times> error option" where
  "neuron_populate_without_make = populate make_missing (\<lambda>db. keys (ephys_session db)) neuron_done"

definition neuron_populate_print :: "ephys_db \<Rightarrow> ephys_db \<times> error option" where
  "neuron_populate_print = populate neuron_make_print (\<lambda>db. keys (ephys_session db)) neuron_done"

definition session_minus_neuron :: "ephys_db \<Rightarrow> (session_key, session_row) table" where
  "session_minus_neuron db = antijoin id (ephys_session db) (map fst (keys (neuron db)))"

definition session_insert1 :: "session_key \<Rightarrow> session_row \<Rightarrow> ephys_db \<Rightarrow> error + ephys_db" where
  "session_insert1 k row db =
     bind_err (insert1 (\<lambda>k. fst k \<in> set (keys (ephys_mouse db))) k row (ephys_session db)) (\<lambda>t. Inr (db\<lparr>ephys_session := t\<rparr>))"

text \<open>The rows \<open>make\<close> inserts for a session from a loaded array: neuron \<open>i\<close> is array
  row \<open>i\<close>.\<close>

definition neuron_rows :: "session_key \<Rightarrow> rat list list \<Rightarrow> (neuron_key \<times> rat list) list" where
  "neuron_rows key data = map (\<lambda>(i, d). ((key, int i), d)) (enumerate 0 data)"

text \<open>Well-formedness: unique keys, every Session row belongs to a Mouse and every Neuron
  row to a Session.\<close>

definition ephys_wf :: "ephys_db \<Rightarrow> bool" where
  "ephys_wf db \<longleftrightarrow>
     distinct (keys (ephys_session db)) \<and> distinct (keys (neuron db)) \<and>
     list_all (\<lambda>k. fst k \<in> set (keys (ephys_mouse db))) (keys (ephys_session db)) \<and>
     list_all (\<lambda>k. fst k \<in> set (keys (ephys_session db))) (keys (neuron db))"

text \<open>Reading back the decimal printing of an \<open>int\<close>, the tool for the injectivity of
  the file name.\<close>

definition digit_val :: "char \<Rightarrow> nat option" where
  "digit_val c = (let n = of_char c :: nat in if 48 \<le> n \<and> n \<le> 57 then Some (n - 48) else None)"

fun read_nat :: "string \<Rightarrow> nat \<Rightarrow> nat option" where
  "read_nat [] acc = Some acc"
| "read_nat (c # cs) acc =
     (case digit_val c of None \<Rightarrow> None | Some d \<Rightarrow> read_nat cs (10 * acc + d))"

definition read_int :: "string \<Rightarrow> int option" where
  "read_int s =
     (case s of
        [] \<Rightarrow> None
      | c # cs \<Rightarrow>
          if c = CHR ''-'' then (if cs = [] then None else map_option (\<lambda>n. - int n) (read_nat cs 0))
          else map_option int (read_nat s 0))"

text \<open>The inputs \<open>populate\<close> reads and never writes, and the condition under which it
  imports every session: each session's data file exists and holds at least one neuron.\<close>

definition ephys_same_inputs :: "ephys_db \<Rightarrow> ephys_db \<Rightarrow> bool" where
  "ephys_same_inputs d d' \<longleftrightarrow>
     ephys_mouse d' = ephys_mouse d \<and> ephys_session d' = ephys_session d \<and>
     npy_files d' = npy_files d \<and> data_dir d' = data_dir d"

definition ephys_files_ok :: "ephys_db \<Rightarrow> bool" where
  "ephys_files_ok db \<longleftrightarrow>
     list_all (\<lambda>k. case npy_files db (data_file_name (data_dir db) k) of
                    None \<Rightarrow> False | Some data \<Rightarrow> data \<noteq> []) (keys (ephys_session db))"

text \<open>A database like the notebook's: two sessions, one recorded neuron each, and the
  session the notebook inserts afterwards (\<open>mouse_id = 100\<close>, \<open>2017-06-01\<close>) with its
  data file.\<close>

definition example_ephys_db :: ephys_db where
  "example_ephys_db =
     \<lparr>ephys_mouse = [(0, ()), (100, ())],
      ephys_session =
        [((0, ''2017-05-15''), \<lparr>experiment_setup = 0, experimenter = ''Edgar Y. Walker'', data_path = ''''\<rparr>),
         ((100, ''2017-05-25''), \<lparr>experiment_setup = 1, experimenter = ''Jacob Reimer'', data_path = ''''\<rparr>)],
      neuron = [],
      npy_files = map_of
        [(''/data/data_0_2017-05-15.npy'', [[1, 2, 3]]),
         (''/data/data_100_2017-05-25.npy'', [[4, 5, 6]]),
         (''/data/data_100_2017-06-01.npy'', [[7, 8, 9], [1, 0, 1]])],
      data_dir = ''/data''\<rparr>"

definition example_new_session :: "session_key \<times> session_row" where
  "example_new_session =
     ((100, ''2017-06-01''), \<lparr>experiment_setup = 1, experimenter = ''Jacob Reimer'', data_path = ''''\<rparr>)"

definition example_empty_db :: ephys_db where
  "example_empty_db =
     example_ephys_db\<lparr>npy_files := (npy_files example_ephys_db)(''/data/data_0_2017-05-15.npy'' \<mapsto> [])\<rparr>"

declare dec_digits.simps [simp del]

lemma digit_val_char [simp]: "(d::nat) < 10 \<Longrightarrow> digit_val (char_of (48 + d)) = Some d"
  by (simp add: digit_val_def)

lemma of_char_digit [simp]: "(d::nat) < 10 \<Longrightarrow> of_char (char_of (48 + d)) = 48 + d"
  by simp

lemma dec_digits_chars:
  "c \<in> set (dec_digits n) \<Longrightarrow> 48 \<le> (of_char c :: nat) \<and> (of_char c :: nat) \<le> 57"
proof (induction n rule: dec_digits.induct)
  case (1 n)
  have "n mod 10 < 10" by simp
  with 1 show ?case
    by (cases "n < 10") (auto simp: dec_digits.simps [of n] simp del: of_char_of)
qed

lemma show_int_no_underscore: "CHR ''_'' \<notin> set (show_int i)"
proof
  assume "CHR ''_'' \<in> set (show_int i)"
  then obtain n where "CHR ''_'' \<in> set (dec_digits n)"
    by (auto simp: show_int_def split: if_splits)
  from dec_digits_chars [OF this] show False by simp
qed

lemma read_nat_append:
  "read_nat (xs @ ys) acc = (case read_nat xs acc of None \<Rightarrow> None | Some a \<Rightarrow> read_nat ys a)"
  by (induction xs acc rule: read_nat.induct) (simp_all split: option.split)

lemma read_nat_dec_digits:
  "read_nat (dec_digits n) acc = Some (acc * 10 ^ length (dec_digits n) + n)"
proof (induction n arbitrary: acc rule: dec_digits.induct)
  case (1 n)
  show ?case
  proof (cases "n < 10")
    case True
    then show ?thesis by (simp add: dec_digits.simps [of n])
  next
    case False
    then have "dec_digits n = dec_digits (n div 10) @ [char_of (48 + n mod 10)]"
      by (simp add: dec_digits.simps [of n])
    with False "1.IH" [of acc] show ?thesis
      by (simp add: read_nat_append algebra_simps)
  qed
qed

lemma dec_digits_ne: "dec_digits n \<noteq> []"
  by (simp add: dec_digits.simps [of n])

lemma dec_digits_hd: "hd (dec_digits n) \<noteq> CHR ''-''"
  using dec_digits_chars [of "hd (dec_digits n)" n] dec_digits_ne [of n] by auto

lemma read_int_show_int: "read_int (show_int i) = Some i"
proof (cases "i < 0")
  case True
  then show ?thesis
    using dec_digits_ne [of "nat (- i)"]
    by (simp add: show_int_def read_int_def read_nat_dec_digits)
next
  case False
  obtain c cs where dc: "dec_digits (nat i) = c # cs"
    using dec_digits_ne [of "nat i"] by (cases "dec_digits (nat i)") auto
  with dec_digits_hd [of "nat i"] have "c \<noteq> CHR ''-''" by simp
  with False dc read_nat_dec_digits [of "nat i" 0] show ?thesis
    by (simp add: show_int_def read_int_def)
qed

lemma takeWhile_show_int: "takeWhile (\<lambda>c. c \<noteq> CHR ''_'') (show_int m @ CHR ''_'' # rest) = show_int m"
  using show_int_no_underscore [of m] by (subst takeWhile_append2) auto

text \<open>The insertion loop of \<open>make\<close>, in closed form for the foreign-key check
  \<open>-> Session\<close>: nothing happens on an empty array; otherwise the first row fails the
  check when the session is missing, and some row is a duplicate exactly when one of the
  neuron ids \<open>idx, idx + 1, ...\<close> is already present.\<close>

lemma enumerate_shift:
  "map (\<lambda>(i, d). ((key, idx + 1 + int i), d)) (enumerate 0 ds) =
   map (\<lambda>(i, d). ((key, idx + int i), d)) (enumerate 1 ds)"
  by (simp add: enumerate_Suc_eq [of 0, simplified] comp_def split_def algebra_simps)

lemma insert_neurons_eq:
  "insert_neurons (\<lambda>k. fst k \<in> S) key idx data t =
     (if data = [] then Inr t
      else if key \<notin> S then Inl IntegrityError
      else if \<exists>i < length data. (key, idx + int i) \<in> set (keys t) then Inl DuplicateError
      else Inr (t @ map (\<lambda>(i, d). ((key, idx + int i), d)) (enumerate 0 data)))"
proof (induction data arbitrary: idx t)
  case (Cons d ds)
  note shift = enumerate_shift [of key idx ds]
  have ex: "(\<exists>i < length (d # ds). (key, idx + int i) \<in> set (keys t)) \<longleftrightarrow>
      (key, idx) \<in> set (keys t) \<or> (\<exists>i < length ds. (key, idx + 1 + int i) \<in> set (keys t))"
    by (simp add: Ex_less_Suc2 algebra_simps)
  have new: "(key, idx + 1 + int i) \<noteq> (key, idx)" for i by simp
  show ?case
    using Cons.IH [of "idx + 1" "t @ [((key, idx), d)]"] shift ex new
    by (auto simp: insert1_def)
qed simp

lemma neuron_rows_eq: "neuron_rows key data = map (\<lambda>(i, d). ((key, 0 + int i), d)) (enumerate 0 data)"
  by (simp add: neuron_rows_def)

lemma neuron_make_eq:
  "neuron_make key db =
     (case npy_files db (data_file_name (data_dir db) key) of
        None \<Rightarrow> Inl FileNotFound
      | Some data \<Rightarrow>
          if data = [] then Inr db
          else if key \<notin> set (keys (ephys_session db)) then Inl IntegrityError
          else if \<exists>i < length data. (key, int i) \<in> set (keys (neuron db)) then Inl DuplicateError
          else Inr (db\<lparr>neuron := neuron db @ neuron_rows key data\<rparr>))"
  by (auto simp: neuron_make_def np_load_def insert_neurons_eq [of _ key 0] neuron_rows_eq
      split: option.split)

lemma keys_neuron_rows: "keys (neuron_rows key data) = map (\<lambda>i. (key, int i)) [0..<length data]"
  by (rule nth_equalityI) (simp_all add: neuron_rows_def keys_def nth_enumerate_eq split_def)

lemma neuron_done_rows:
  "neuron_done (db\<lparr>neuron := neuron db @ neuron_rows key data\<rparr>) k \<longleftrightarrow>
     neuron_done db k \<or> (k = key \<and> data \<noteq> [])"
  by (simp add: neuron_done_def keys_neuron_rows image_Un image_image image_constant_conv)

lemma neuron_make_Inr:
  "neuron_make key db = Inr db' \<longleftrightarrow>
     (\<exists>data. npy_files db (data_file_name (data_dir db) key) = Some data \<and>
        (data \<noteq> [] \<longrightarrow> key \<in> set (keys (ephys_session db)) \<and>
           (\<forall>i < length data. (key, int i) \<notin> set (keys (neuron db)))) \<and>
        db' = db\<lparr>neuron := neuron db @ neuron_rows key data\<rparr>)"
  by (auto simp: neuron_make_eq neuron_rows_def split: option.split)

lemma ephys_wf_add_rows:
  assumes "ephys_wf db" and "data \<noteq> [] \<longrightarrow> key \<in> set (keys (ephys_session db))"
    and "\<forall>i < length data. (key, int i) \<notin> set (keys (neuron db))"
  shows "ephys_wf (db\<lparr>neuron := neuron db @ neuron_rows key data\<rparr>)"
proof -
  have "distinct (map (\<lambda>i. (key, int i)) [0..<length data])"
    by (simp add: distinct_map inj_on_def)
  moreover have "set (map (\<lambda>i. (key, int i)) [0..<length data]) \<inter> set (keys (neuron db)) = {}"
    using assms(3) by auto
  ultimately show ?thesis
    using assms(1,2) by (auto simp: ephys_wf_def keys_neuron_rows list_all_iff)
qed

lemma neuron_make_step:
  assumes "ephys_wf d" and "neuron_make k d = Inr d'"
  shows "ephys_wf d' \<and> ephys_same_inputs d d' \<and>
    (\<forall>k'. neuron_done d' k' \<longleftrightarrow> neuron_done d k' \<or>
       (k' = k \<and> npy_files d (data_file_name (data_dir d) k) \<noteq> Some []))"
proof -
  from assms(2) obtain data where npy: "npy_files d (data_file_name (data_dir d) k) = Some data"
    and ok: "data \<noteq> [] \<longrightarrow> k \<in> set (keys (ephys_session d)) \<and>
       (\<forall>i < length data. (k, int i) \<notin> set (keys (neuron d)))"
    and d': "d' = d\<lparr>neuron := neuron d @ neuron_rows k data\<rparr>"
    by (auto simp: neuron_make_Inr)
  have "\<forall>i < length data. (k, int i) \<notin> set (keys (neuron d))"
    using ok by (cases data) auto
  with assms(1) ok have "ephys_wf d'" unfolding d' by (intro ephys_wf_add_rows) auto
  with npy show ?thesis
    by (simp add: d' ephys_same_inputs_def neuron_done_rows)
qed

lemma neuron_contract:
  "make_contract (\<lambda>d. ephys_wf d \<and> ephys_files_ok d \<and> ephys_same_inputs db0 d)
     (\<lambda>k. k \<in> set (keys (ephys_session db0))) neuron_make neuron_done"
  unfolding make_contract_def
proof (intro allI impI)
  fix k d d'
  assume P: "ephys_wf d \<and> ephys_files_ok d \<and> ephys_same_inputs db0 d"
    and K: "k \<in> set (keys (ephys_session db0))" and mk: "neuron_make k d = Inr d'"
  from P have "ephys_files_ok d" and "ephys_session d = ephys_session db0"
    by (simp_all add: ephys_same_inputs_def)
  with K have "case npy_files d (data_file_name (data_dir d) k) of None \<Rightarrow> False | Some data \<Rightarrow> data \<noteq> []"
    by (simp add: ephys_files_ok_def list_all_iff)
  then have "npy_files d (data_file_name (data_dir d) k) \<noteq> Some []"
    by (auto split: option.splits)
  with neuron_make_step [OF _ mk] P
  show "(ephys_wf d' \<and> ephys_files_ok d' \<and> ephys_same_inputs db0 d') \<and>
      neuron_done d' k \<and> (\<forall>k'. neuron_done d k' \<longrightarrow> neuron_done d' k')"
    by (auto simp: ephys_same_inputs_def ephys_files_ok_def simp del: split_paired_All)
qed

lemma neuron_make_total:
  assumes "ephys_wf d" and "ephys_files_ok d" and "k \<in> set (keys (ephys_session d))"
    and "\<not> neuron_done d k"
  shows "\<exists>d'. neuron_make k d = Inr d'"
proof -
  from assms(2,3) obtain data where "npy_files d (data_file_name (data_dir d) k) = Some data"
    by (auto simp: ephys_files_ok_def list_all_iff split: option.splits)
  moreover from assms(4) have "\<forall>i. (k, i) \<notin> set (keys (neuron d))"
    by (auto simp: neuron_done_def image_iff)
  ultimately show ?thesis
    using assms(3) by (simp add: neuron_make_eq)
qed

lemma neuron_populate_run:
  assumes "ephys_wf db" and "ephys_files_ok db"
  shows "\<exists>db'. neuron_populate db = (db', None) \<and> ephys_wf db' \<and> ephys_same_inputs db db' \<and>
           list_all (neuron_done db') (keys (ephys_session db))"
proof -
  have P0: "ephys_wf db \<and> ephys_files_ok db \<and> ephys_same_inputs db db"
    using assms by (simp add: ephys_same_inputs_def)
  have K: "list_all (\<lambda>k. k \<in> set (keys (ephys_session db))) (keys (ephys_session db))"
    by (simp add: list_all_iff)
  have total: "\<exists>d''. neuron_make k d' = Inr d''"
    if "ephys_wf d' \<and> ephys_files_ok d' \<and> ephys_same_inputs db d'"
      and "k \<in> set (keys (ephys_session db))" and "\<not> neuron_done d' k" for k d'
    using that neuron_make_total [of d' k] by (auto simp: ephys_same_inputs_def)
  from populate_complete [where key_source = "\<lambda>db. keys (ephys_session db)",
      OF neuron_contract P0 K total]
  show ?thesis
    by (auto simp: neuron_populate_def)
qed

lemma neuron_rows_nth:
  "neuron_rows key data = map (\<lambda>i. ((key, int i), data ! i)) [0..<length data]"
  by (rule nth_equalityI) (simp_all add: neuron_rows_def nth_enumerate_eq)

lemma data_file_name_inj_helper:
  assumes eq: "data_file_name dir k1 = data_file_name dir k2"
  shows "k1 = k2"
proof -
  obtain m1 d1 m2 d2 where k1: "k1 = (m1, d1)" and k2: "k2 = (m2, d2)" by fastforce
  from eq have rest: "show_int m1 @ CHR ''_'' # d1 @ ''.npy'' = show_int m2 @ CHR ''_'' # d2 @ ''.npy''"
    by (simp add: data_file_name_def k1 k2)
  then have "show_int m1 = show_int m2"
    by (metis takeWhile_show_int)
  then have m: "m1 = m2" by (metis read_int_show_int option.inject)
  with rest have "d1 = d2" by simp
  with m show ?thesis by (simp add: k1 k2)
qed

lemma neuron_make_keeps_undone:
  assumes "neuron_make k d = Inr d'" and "\<not> neuron_done d key"
    and "npy_files d (data_file_name (data_dir d) key) = Some []"
  shows "ephys_same_inputs d d' \<and> \<not> neuron_done d' key \<and>
         npy_files d' (data_file_name (data_dir d') key) = Some []"
proof -
  from assms(1) obtain data where "npy_files d (data_file_name (data_dir d) k) = Some data"
    and d': "d' = d\<lparr>neuron := neuron d @ neuron_rows k data\<rparr>"
    by (auto simp: neuron_make_Inr)
  with assms(2,3) show ?thesis
    by (auto simp: ephys_same_inputs_def neuron_done_rows)
qed

lemma session_insert1_Inr:
  "fst k \<in> set (keys (ephys_mouse db)) \<Longrightarrow> k \<notin> set (keys (ephys_session db)) \<Longrightarrow>
   session_insert1 k row db = Inr (db\<lparr>ephys_session := ephys_session db @ [(k, row)]\<rparr>)"
  by (simp add: session_insert1_def insert1_def)

text \<open>C6. \<open>Neuron.populate()\<close> on a well-formed database in which every session's data
  file exists and holds at least one neuron ends without error, leaves Session as it was,
  keeps the database well-formed and imports every session.\<close>

theorem neuron_populate_complete:
  assumes "ephys_wf db" and "ephys_files_ok db"
  shows "\<exists>db'. neuron_populate db = (db', None) \<and> ephys_wf db' \<and>
           ephys_session db' = ephys_session db \<and> list_all (neuron_done db') (keys (ephys_session db'))"
  using neuron_populate_run [OF assms] by (auto simp: ephys_same_inputs_def)

theorem neuron_populate_complete_witness:
  "ephys_wf example_ephys_db \<and> ephys_files_ok example_ephys_db \<and>
   (\<exists>db'. neuron_populate example_ephys_db = (db', None) \<and> ephys_wf db' \<and>
      ephys_session db' = ephys_session example_ephys_db \<and>
      list_all (neuron_done db') (keys (ephys_session db')))"
proof -
  have h1: "ephys_wf example_ephys_db" by code_simp
  have h2: "ephys_files_ok example_ephys_db" by code_simp
  show ?thesis using neuron_populate_complete [OF h1 h2] h1 h2 by blast
qed

lemma session_minus_neuron_eq:
  "session_minus_neuron db = filter (\<lambda>r. \<not> neuron_done db (fst r)) (ephys_session db)"
  by (simp add: session_minus_neuron_def antijoin_def neuron_done_def keys_def image_image)

lemma neuron_done_not_session:
  "ephys_wf db \<Longrightarrow> k \<notin> set (keys (ephys_session db)) \<Longrightarrow> \<not> neuron_done db k"
  by (auto simp: ephys_wf_def neuron_done_def list_all_iff)

text \<open>C7. Calling \<open>Neuron.populate()\<close> a second time does nothing: every session has
  its neurons, so no \<open>make\<close> runs and no error is raised.\<close>

theorem neuron_populate_idempotent:
  assumes "ephys_wf db" and "ephys_files_ok db"
  shows "neuron_populate (fst (neuron_populate db)) = (fst (neuron_populate db), None)"
proof -
  obtain db' where run: "neuron_populate db = (db', None)" and "ephys_same_inputs db db'"
    and fin: "list_all (neuron_done db') (keys (ephys_session db))"
    using neuron_populate_run [OF assms] by blast
  then have "list_all (neuron_done db') (keys (ephys_session db'))"
    by (simp add: ephys_same_inputs_def)
  then have "neuron_populate db' = (db', None)"
    unfolding neuron_populate_def by (rule populate_nothing_left)
  with run show ?thesis by simp
qed

theorem neuron_populate_idempotent_witness:
  "ephys_wf example_ephys_db \<and> ephys_files_ok example_ephys_db \<and>
   neuron_populate (fst (neuron_populate example_ephys_db)) =
     (fst (neuron_populate example_ephys_db), None)"
proof -
  have h1: "ephys_wf example_ephys_db" by code_simp
  have h2: "ephys_files_ok example_ephys_db" by code_simp
  show ?thesis using neuron_populate_idempotent [OF h1 h2] h1 h2 by blast
qed

text \<open>C8. \<open>Neuron.make\<close> on a session with no neurons yet loads the array in the file
  \<open>{data_dir}/data_{mouse_id}_{session_date}.npy\<close> and inserts, for every row \<open>i\<close> of
  it, the neuron \<open>(mouse_id, session_date, i)\<close> with that row as its activity, and
  nothing else.\<close>

theorem neuron_make_inserts:
  assumes "key \<in> set (keys (ephys_session db))" and "\<not> neuron_done db key"
    and "npy_files db (data_file_name (data_dir db) key) = Some data"
  shows "neuron_make key db =
           Inr (db\<lparr>neuron := neuron db @ map (\<lambda>i. ((key, int i), data ! i)) [0..<length data]\<rparr>)"
proof -
  from assms(2) have "\<forall>i. (key, i) \<notin> set (keys (neuron db))"
    by (auto simp: neuron_done_def image_iff)
  with assms(1,3) show ?thesis
    by (auto simp: neuron_make_eq neuron_rows_nth)
qed

theorem neuron_make_inserts_witness:
  "(0, ''2017-05-15'') \<in> set (keys (ephys_session example_ephys_db)) \<and>
   \<not> neuron_done example_ephys_db (0, ''2017-05-15'') \<and>
   npy_files example_ephys_db (data_file_name (data_dir example_ephys_db) (0, ''2017-05-15'')) =
     Some [[1, 2, 3]] \<and>
   neuron_make (0, ''2017-05-15'') example_ephys_db =
     Inr (example_ephys_db\<lparr>neuron := neuron example_ephys_db @
       map (\<lambda>i. (((0, ''2017-05-15''), int i), [[1, 2, 3]] ! i)) [0..<length [[1, 2, 3::rat]]]\<rparr>)"
proof -
  have h1: "(0, ''2017-05-15'') \<in> set (keys (ephys_session example_ephys_db))" by code_simp
  have h2: "\<not> neuron_done example_ephys_db (0, ''2017-05-15'')" by code_simp
  have h3: "npy_files example_ephys_db (data_file_name (data_dir example_ephys_db) (0, ''2017-05-15'')) =
     Some [[1, 2, 3]]" by code_simp
  show ?thesis using neuron_make_inserts [OF h1 h2 h3] h1 h2 h3 by blast
qed

text \<open>C9. \<open>Neuron.make\<close> fails exactly when the data file is missing
  (\<open>FileNotFoundError\<close> from \<open>np.load\<close>), or when the array is non-empty and the first
  \<open>insert1\<close> violates the foreign key to Session, or some neuron id of the array is
  already in Neuron (a duplicate). On an empty array it inserts nothing and succeeds.\<close>

theorem neuron_make_error:
  "neuron_make key db = Inl e \<longleftrightarrow>
     (case npy_files db (data_file_name (data_dir db) key) of
        None \<Rightarrow> e = FileNotFound
      | Some data \<Rightarrow> data \<noteq> [] \<and>
          (if key \<notin> set (keys (ephys_session db)) then e = IntegrityError
           else (\<exists>i < length data. (key, int i) \<in> set (keys (neuron db))) \<and> e = DuplicateError))"
  by (auto simp: neuron_make_eq split: option.split)

text \<open>C10. The file-name format of \<open>make\<close> is injective: two different sessions never
  read the same data file, so no session can import another's neurons.\<close>

theorem data_file_name_inj:
  "k1 \<noteq> k2 \<Longrightarrow> data_file_name dir k1 \<noteq> data_file_name dir k2"
  using data_file_name_inj_helper by blast

theorem data_file_name_inj_witness:
  "(0::int, ''2017-05-15'') \<noteq> (0, ''2017-05-19'') \<and>
   data_file_name ''/data'' (0, ''2017-05-15'') \<noteq> data_file_name ''/data'' (0, ''2017-05-19'')"
proof -
  have h: "(0::int, ''2017-05-15'') \<noteq> (0, ''2017-05-19'')" by simp
  show ?thesis using data_file_name_inj [OF h] h by blast
qed

text \<open>C11. A session whose data file holds an array with no rows is never imported:
  \<open>make\<close> inserts nothing for it, so after \<open>Neuron.populate()\<close> it is still listed by
  \<open>Session - Neuron\<close> and every later \<open>populate\<close> calls \<open>make\<close> on it again.\<close>

theorem neuron_populate_empty_file:
  assumes "key \<in> set (keys (ephys_session db))" and "\<not> neuron_done db key"
    and "npy_files db (data_file_name (data_dir db) key) = Some []"
  shows "key \<in> set (keys (session_minus_neuron (fst (neuron_populate db))))"
proof -
  let ?Q = "\<lambda>d. ephys_same_inputs db d \<and> \<not> neuron_done d key \<and>
                npy_files d (data_file_name (data_dir d) key) = Some []"
  have "?Q (fst (neuron_populate db))"
    unfolding neuron_populate_def
  proof (rule populate_preserves)
    fix k d d'
    assume "?Q d" and "neuron_make k d = Inr d'"
    with neuron_make_keeps_undone [of k d d' key] show "?Q d'"
      by (auto simp: ephys_same_inputs_def)
  next
    show "?Q db" using assms(2,3) by (simp add: ephys_same_inputs_def)
  qed
  with assms(1) show ?thesis
    by (auto simp: session_minus_neuron_eq ephys_same_inputs_def keys_def image_iff)
qed

theorem neuron_populate_empty_file_witness:
  "(0, ''2017-05-15'') \<in> set (keys (ephys_session example_empty_db)) \<and>
   \<not> neuron_done example_empty_db (0, ''2017-05-15'') \<and>
   npy_files example_empty_db (data_file_name (data_dir example_empty_db) (0, ''2017-05-15'')) = Some [] \<and>
   (0, ''2017-05-15'') \<in> set (keys (session_minus_neuron (fst (neuron_populate example_empty_db))))"
proof -
  have h1: "(0, ''2017-05-15'') \<in> set (keys (ephys_session example_empty_db))" by code_simp
  have h2: "\<not> neuron_done example_empty_db (0, ''2017-05-15'')" by code_simp
  have h3: "npy_files example_empty_db (data_file_name (data_dir example_empty_db) (0, ''2017-05-15'')) =
     Some []" by code_simp
  show ?thesis using neuron_populate_empty_file [OF h1 h2 h3] h1 h2 h3 by blast
qed

text \<open>C12. The notebook's last cells: on a fully imported database, \<open>Session.insert1\<close>
  of a new session of a mouse in \<open>Mouse\<close>, whose data file holds neurons, makes \<open>Session - Neuron\<close> list exactly
  that session, and the next \<open>Neuron.populate()\<close> imports exactly its neurons, without
  error and without touching the neurons already there.\<close>

theorem neuron_populate_new_session:
  assumes "ephys_wf db" and "list_all (neuron_done db) (keys (ephys_session db))"
    and "k \<notin> set (keys (ephys_session db))"
    and "npy_files db (data_file_name (data_dir db) k) = Some data"
    and "fst k \<in> set (keys (ephys_mouse db))"
  shows "\<exists>db1. session_insert1 k row db = Inr db1 \<and> session_minus_neuron db1 = [(k, row)] \<and>
           neuron_populate db1 = (db1\<lparr>neuron := neuron db @ neuron_rows k data\<rparr>, None)"
proof -
  let ?db1 = "db\<lparr>ephys_session := ephys_session db @ [(k, row)]\<rparr>"
  have ins: "session_insert1 k row db = Inr ?db1"
    using assms(5,3) by (rule session_insert1_Inr)
  have done1: "neuron_done ?db1 = neuron_done db"
    by (simp add: neuron_done_def fun_eq_iff)
  have new: "\<not> neuron_done db k"
    using assms(1,3) by (rule neuron_done_not_session)
  have old: "\<forall>r \<in> set (ephys_session db). neuron_done db (fst r)"
    using assms(2) by (simp add: list_all_iff keys_def)
  have pending: "filter (\<lambda>k'. \<not> neuron_done ?db1 k') (keys (ephys_session ?db1)) = [k]"
    using old new by (simp add: done1 keys_def filter_empty_conv)
  have "\<forall>i. (k, i) \<notin> set (keys (neuron db))"
    using new by (auto simp: neuron_done_def image_iff)
  then have mk: "neuron_make k ?db1 = Inr (?db1\<lparr>neuron := neuron db @ neuron_rows k data\<rparr>)"
    using assms(4) by (simp add: neuron_make_eq neuron_rows_def)
  have "session_minus_neuron ?db1 = [(k, row)]"
    using old new by (simp add: session_minus_neuron_eq done1 filter_empty_conv)
  moreover have "neuron_populate ?db1 = (?db1\<lparr>neuron := neuron db @ neuron_rows k data\<rparr>, None)"
    unfolding neuron_populate_def populate_def pending using mk new by (simp add: done1)
  ultimately show ?thesis using ins by blast
qed

theorem neuron_populate_new_session_witness:
  "ephys_wf (fst (neuron_populate example_ephys_db)) \<and>
   list_all (neuron_done (fst (neuron_populate example_ephys_db)))
     (keys (ephys_session (fst (neuron_populate example_ephys_db)))) \<and>
   fst example_new_session \<notin> set (keys (ephys_session (fst (neuron_populate example_ephys_db)))) \<and>
   npy_files (fst (neuron_populate example_ephys_db))
     (data_file_name (data_dir (fst (neuron_populate example_ephys_db))) (fst example_new_session)) =
       Some [[7, 8, 9], [1, 0, 1]] \<and>
   fst (fst example_new_session) \<in> set (keys (ephys_mouse (fst (neuron_populate example_ephys_db)))) \<and>
   (\<exists>db1. session_insert1 (fst example_new_session) (snd example_new_session)
             (fst (neuron_populate example_ephys_db)) = Inr db1 \<and>
      session_minus_neuron db1 = [(fst example_new_session, snd example_new_session)] \<and>
      neuron_populate db1 =
        (db1\<lparr>neuron := neuron (fst (neuron_populate example_ephys_db)) @
                         neuron_rows (fst example_new_session) [[7, 8, 9], [1, 0, 1]]\<rparr>, None))"
proof -
  have h1: "ephys_wf (fst (neuron_populate example_ephys_db))" by code_simp
  have h2: "list_all (neuron_done (fst (neuron_populate example_ephys_db)))
     (keys (ephys_session (fst (neuron_populate example_ephys_db))))" by code_simp
  have h3: "fst example_new_session \<notin> set (keys (ephys_session (fst (neuron_populate example_ephys_db))))"
    by code_simp
  have h4: "npy_files (fst (neuron_populate example_ephys_db))
     (data_file_name (data_dir (fst (neuron_populate example_ephys_db))) (fst example_new_session)) =
       Some [[7, 8, 9], [1, 0, 1]]" by code_simp
  have h5: "fst (fst example_new_session) \<in> set (keys (ephys_mouse (fst (neuron_populate example_ephys_db))))"
    by code_simp
  show ?thesis
    using neuron_populate_new_session [OF h1 h2 h3 h4 h5, of "snd example_new_session"] h1 h2 h3 h4 h5
    by simp
qed

text \<open>The notebook's first two \<open>populate\<close> calls: with no \<open>make\<close> it raises
  \<open>NotImplementedError\<close> as soon as some session has no neurons, and changes nothing; with
  the \<open>make\<close> that only prints, it runs on every pending session and Neuron stays as it
  was. Theory \<open>EphysRun\<close> places them in the notebook's sequence of cells.\<close>

lemma neuron_populate_without_make_eq:
  "neuron_populate_without_make db =
     (db, if session_minus_neuron db = [] then None else Some NotImplementedError)"
proof -
  have "session_minus_neuron db = [] \<longleftrightarrow>
        filter (\<lambda>k. \<not> neuron_done db k) (keys (ephys_session db)) = []"
    by (simp add: session_minus_neuron_eq keys_def filter_empty_conv)
  then show ?thesis
    by (simp add: neuron_populate_without_make_def populate_make_missing)
qed

lemma neuron_populate_print_eq: "neuron_populate_print db = (db, None)"
  by (simp add: neuron_populate_print_def populate_def populate_keys_no_change neuron_make_print_def)

end
