(* ===== verification/EphysRun.thy ===== *)
theory EphysRun
  imports Ephys
begin

text \<open>
  The cells of \<open>src/notebooks/04-Electrophysiology-Imported-Tables.ipynb\<close> that change
  the database or the class bound to the name \<open>Neuron\<close>, run in order. The notebook
  defines \<open>Neuron\<close> three times (without \<open>make\<close>, with a printing \<open>make\<close>, with the
  loading \<open>make\<close>); the table is declared once, so a redefinition only rebinds the name
  and a later \<open>Neuron.populate()\<close> calls the \<open>make\<close> of the class bound at that time. A
  cell that raises reports its exception and the notebook goes on with the next cell.

  Lemmas: every cell keeps the database well-formed and keeps every stored neuron equal
  to its row of the session's data file, for any sequence of cells (rule induction on
  \<open>ephys_reach\<close>); and the notebook's own cells, run from a database like the
  notebook's, raise \<open>NotImplementedError\<close> at the first \<open>populate\<close> and nowhere else,
  and end with every session, the newly inserted one included, imported.
\<close>

datatype neuron_class = NeuronNoMake | NeuronPrintMake | NeuronLoadMake

datatype ephys_op =
    DefineNeuron neuron_class
  | PopulateNeuron
  | SessionInsert1 session_key session_row

record ephys_nb =
  nb_db :: ephys_db
  nb_neuron :: neuron_class

fun neuron_class_populate :: "neuron_class \<Rightarrow> ephys_db \<Rightarrow> ephys_db \<times> error option" where
  "neuron_class_populate NeuronNoMake = neuron_populate_without_make"
| "neuron_class_populate NeuronPrintMake = neuron_populate_print"
| "neuron_class_populate NeuronLoadMake = neuron_populate"

fun ephys_step :: "ephys_op \<Rightarrow> ephys_nb \<Rightarrow> ephys_nb \<times> error option" where
  "ephys_step (DefineNeuron c) s = (s\<lparr>nb_neuron := c\<rparr>, None)"
| "ephys_step PopulateNeuron s =
     (case neuron_class_populate (nb_neuron s) (nb_db s) of (db', e) \<Rightarrow> (s\<lparr>nb_db := db'\<rparr>, e))"
| "ephys_step (SessionInsert1 k row) s =
     (case cell_result (nb_db s) (session_insert1 k row (nb_db s)) of
        (db', e) \<Rightarrow> (s\<lparr>nb_db := db'\<rparr>, e))"

fun ephys_run :: "ephys_op list \<Rightarrow> ephys_nb \<Rightarrow> ephys_nb \<times> error option list" where
  "ephys_run [] s = (s, [])"
| "ephys_run (op # ops) s =
     (case ephys_step op s of (s', e) \<Rightarrow> (case ephys_run ops s' of (s'', es) \<Rightarrow> (s'', e # es)))"

text \<open>The state once the first definition of \<open>Neuron\<close> (without \<open>make\<close>) has run.\<close>

definition ephys_start :: "ephys_db \<Rightarrow> ephys_nb" where
  "ephys_start db = \<lparr>nb_db = db, nb_neuron = NeuronNoMake\<rparr>"

text \<open>The cells from the first \<open>populate\<close> on: the exercise cell that calls
  \<open>populate\<close>, the printing class and its \<open>populate\<close>, the loading class, two
  \<open>populate\<close>s, the new session and the last \<open>populate\<close>.\<close>

definition notebook_ephys_ops :: "ephys_op list" where
  "notebook_ephys_ops =
     [PopulateNeuron, DefineNeuron NeuronPrintMake, PopulateNeuron, DefineNeuron NeuronLoadMake,
      PopulateNeuron, PopulateNeuron, SessionInsert1 (fst example_new_session) (snd example_new_session),
      PopulateNeuron]"

inductive ephys_reach :: "ephys_db \<Rightarrow> ephys_nb \<Rightarrow> bool" for db0 where
  start: "ephys_reach db0 (ephys_start db0)"
| step: "ephys_reach db0 s \<Longrightarrow> ephys_reach db0 (fst (ephys_step op s))"

text \<open>Every stored neuron is the row of its session's data file that its \<open>neuron_id\<close>
  indexes.\<close>

definition neuron_stored_ok :: "ephys_db \<Rightarrow> bool" where
  "neuron_stored_ok db \<longleftrightarrow>
     list_all (\<lambda>((k, i), d). case npy_files db (data_file_name (data_dir db) k) of
                               None \<Rightarrow> False
                             | Some data \<Rightarrow> 0 \<le> i \<and> nat i < length data \<and> data ! nat i = d)
       (neuron db)"

lemma neuron_class_populate_preserves:
  assumes step: "\<And>k d d'. Q d \<Longrightarrow> neuron_make k d = Inr d' \<Longrightarrow> Q d'" and "Q db"
  shows "Q (fst (neuron_class_populate c db))"
proof (cases c)
  case NeuronLoadMake
  have "Q (fst (neuron_populate db))"
    unfolding neuron_populate_def by (rule populate_preserves [where Q = Q, OF step \<open>Q db\<close>])
  with NeuronLoadMake show ?thesis by simp
qed (simp_all add: \<open>Q db\<close> neuron_populate_without_make_eq neuron_populate_print_eq)

lemma session_insert1_Inr_iff:
  "session_insert1 k row db = Inr db' \<longleftrightarrow>
     fst k \<in> set (keys (ephys_mouse db)) \<and> k \<notin> set (keys (ephys_session db)) \<and>
     db' = db\<lparr>ephys_session := ephys_session db @ [(k, row)]\<rparr>"
  by (auto simp: session_insert1_def insert1_def)

lemma session_insert1_wf:
  "ephys_wf db \<Longrightarrow> session_insert1 k row db = Inr db' \<Longrightarrow> ephys_wf db'"
  by (auto simp: session_insert1_Inr_iff ephys_wf_def list_all_iff)

lemma session_insert1_stored_ok:
  "neuron_stored_ok db \<Longrightarrow> session_insert1 k row db = Inr db' \<Longrightarrow> neuron_stored_ok db'"
  by (auto simp: session_insert1_Inr_iff neuron_stored_ok_def)

lemma neuron_make_stored_ok:
  assumes "neuron_stored_ok d" and "neuron_make k d = Inr d'"
  shows "neuron_stored_ok d'"
proof -
  from assms(2) obtain data where npy: "npy_files d (data_file_name (data_dir d) k) = Some data"
    and d': "d' = d\<lparr>neuron := neuron d @ neuron_rows k data\<rparr>"
    by (auto simp: neuron_make_Inr)
  have "list_all (\<lambda>((k', i), v). case npy_files d (data_file_name (data_dir d) k') of
                   None \<Rightarrow> False | Some data \<Rightarrow> 0 \<le> i \<and> nat i < length data \<and> data ! nat i = v)
          (neuron_rows k data)"
    using npy by (simp add: neuron_rows_nth list_all_iff)
  with assms(1) show ?thesis by (simp add: d' neuron_stored_ok_def)
qed

lemma ephys_step_populate:
  "ephys_step PopulateNeuron s =
     (s\<lparr>nb_db := fst (neuron_class_populate (nb_neuron s) (nb_db s))\<rparr>,
      snd (neuron_class_populate (nb_neuron s) (nb_db s)))"
  by (cases "neuron_class_populate (nb_neuron s) (nb_db s)") simp

lemma ephys_step_insert:
  "ephys_step (SessionInsert1 k row) s =
     (s\<lparr>nb_db := fst (cell_result (nb_db s) (session_insert1 k row (nb_db s)))\<rparr>,
      snd (cell_result (nb_db s) (session_insert1 k row (nb_db s))))"
  by (cases "cell_result (nb_db s) (session_insert1 k row (nb_db s))") simp

lemma ephys_step_preserves:
  assumes make: "\<And>k d d'. Q d \<Longrightarrow> neuron_make k d = Inr d' \<Longrightarrow> Q d'"
    and ins: "\<And>k row d d'. Q d \<Longrightarrow> session_insert1 k row d = Inr d' \<Longrightarrow> Q d'"
    and "Q (nb_db s)"
  shows "Q (nb_db (fst (ephys_step op s)))"
proof (cases op)
  case PopulateNeuron
  have "Q (fst (neuron_class_populate (nb_neuron s) (nb_db s)))"
    by (rule neuron_class_populate_preserves [where Q = Q, OF make \<open>Q (nb_db s)\<close>])
  with PopulateNeuron show ?thesis by (simp del: ephys_step.simps add: ephys_step_populate)
next
  case (SessionInsert1 k row)
  have "Q (fst (cell_result (nb_db s) (session_insert1 k row (nb_db s))))"
    using \<open>Q (nb_db s)\<close> by (rule cell_result_preserves) (rule ins [OF \<open>Q (nb_db s)\<close>])
  with SessionInsert1 show ?thesis by (simp del: ephys_step.simps add: ephys_step_insert)
qed (simp add: assms(3))

lemma ephys_run_Cons:
  "ephys_run (op # ops) s =
     (fst (ephys_run ops (fst (ephys_step op s))),
      snd (ephys_step op s) # snd (ephys_run ops (fst (ephys_step op s))))"
  by (cases "ephys_step op s", cases "ephys_run ops (fst (ephys_step op s))") simp

lemma ephys_run_reach: "ephys_reach db0 s \<Longrightarrow> ephys_reach db0 (fst (ephys_run ops s))"
proof (induction ops arbitrary: s)
  case (Cons op ops)
  from ephys_reach.step [OF Cons.prems, of op] have "ephys_reach db0 (fst (ephys_run ops (fst (ephys_step op s))))"
    by (rule Cons.IH)
  then show ?case by (simp only: ephys_run_Cons fst_conv)
qed simp

lemma neuron_populate_done:
  "list_all (neuron_done db) (keys (ephys_session db)) \<Longrightarrow> neuron_populate db = (db, None)"
  unfolding neuron_populate_def by (rule populate_nothing_left)

lemma session_minus_neuron_Nil:
  "session_minus_neuron db = [] \<longleftrightarrow> list_all (neuron_done db) (keys (ephys_session db))"
  by (auto simp: session_minus_neuron_eq filter_empty_conv list_all_iff keys_def)

text \<open>C28. The notebook's cells from the first \<open>Neuron.populate()\<close> on, run in order on a
  well-formed database with a session still to import, where the session the notebook
  inserts is new, its mouse (\<open>mouse_id = 100\<close>) is in \<open>Mouse\<close>, and every data file
  exists and holds neurons: only the first
  \<open>populate\<close> (the class without \<open>make\<close>) raises, with \<open>NotImplementedError\<close>; every other
  cell succeeds; Session ends with the new session appended, \<open>Session - Neuron\<close> is empty
  and the database is well-formed.\<close>

theorem notebook_ephys_run:
  assumes wf: "ephys_wf db0" and pending: "session_minus_neuron db0 \<noteq> []"
    and new: "fst example_new_session \<notin> set (keys (ephys_session db0))"
    and mouse: "fst (fst example_new_session) \<in> set (keys (ephys_mouse db0))"
    and files: "ephys_files_ok (db0\<lparr>ephys_session := ephys_session db0 @ [example_new_session]\<rparr>)"
  shows "\<exists>s. ephys_run notebook_ephys_ops (ephys_start db0) =
              (s, [Some NotImplementedError, None, None, None, None, None, None, None]) \<and>
            ephys_session (nb_db s) = ephys_session db0 @ [example_new_session] \<and>
            session_minus_neuron (nb_db s) = [] \<and> ephys_wf (nb_db s)"
proof -
  have files0: "ephys_files_ok db0" using files by (simp add: ephys_files_ok_def)
  obtain db1 where p1: "neuron_populate db0 = (db1, None)" and wf1: "ephys_wf db1"
    and same1: "ephys_same_inputs db0 db1" and done1: "list_all (neuron_done db1) (keys (ephys_session db0))"
    using neuron_populate_run [OF wf files0] by blast
  let ?db2 = "db1\<lparr>ephys_session := ephys_session db1 @ [example_new_session]\<rparr>"
  have ins: "session_insert1 (fst example_new_session) (snd example_new_session) db1 = Inr ?db2"
    using new mouse same1 by (simp add: session_insert1_Inr_iff ephys_same_inputs_def)
  have wf2: "ephys_wf ?db2" using session_insert1_wf [OF wf1 ins] .
  have files2: "ephys_files_ok ?db2"
    using files same1 by (simp add: ephys_files_ok_def ephys_same_inputs_def)
  obtain db3 where p3: "neuron_populate ?db2 = (db3, None)" and wf3: "ephys_wf db3"
    and same3: "ephys_same_inputs ?db2 db3" and done3: "list_all (neuron_done db3) (keys (ephys_session ?db2))"
    using neuron_populate_run [OF wf2 files2] by blast
  have p2: "neuron_populate db1 = (db1, None)"
    using done1 same1 by (intro neuron_populate_done) (simp add: ephys_same_inputs_def)
  have sess3: "ephys_session db3 = ephys_session db0 @ [example_new_session]"
    using same1 same3 by (simp add: ephys_same_inputs_def)
  have "session_minus_neuron db3 = []"
    using done3 same3 by (simp add: session_minus_neuron_Nil ephys_same_inputs_def)
  moreover have "ephys_run notebook_ephys_ops (ephys_start db0) =
      (\<lparr>nb_db = db3, nb_neuron = NeuronLoadMake\<rparr>,
       [Some NotImplementedError, None, None, None, None, None, None, None])"
    using pending p1 p2 ins p3
    by (simp add: notebook_ephys_ops_def ephys_start_def ephys_run_Cons ephys_step_populate
        ephys_step_insert neuron_populate_without_make_eq neuron_populate_print_eq cell_result_def
        del: ephys_run.simps(2) ephys_step.simps(2,3))
  ultimately show ?thesis using sess3 wf3 by auto
qed

theorem notebook_ephys_run_witness:
  "ephys_wf example_ephys_db \<and> session_minus_neuron example_ephys_db \<noteq> [] \<and>
   fst example_new_session \<notin> set (keys (ephys_session example_ephys_db)) \<and>
   fst (fst example_new_session) \<in> set (keys (ephys_mouse example_ephys_db)) \<and>
   ephys_files_ok (example_ephys_db\<lparr>ephys_session := ephys_session example_ephys_db @ [example_new_session]\<rparr>) \<and>
   (\<exists>s. ephys_run notebook_ephys_ops (ephys_start example_ephys_db) =
          (s, [Some NotImplementedError, None, None, None, None, None, None, None]) \<and>
        ephys_session (nb_db s) = ephys_session example_ephys_db @ [example_new_session] \<and>
        session_minus_neuron (nb_db s) = [] \<and> ephys_wf (nb_db s))"
proof -
  have h1: "ephys_wf example_ephys_db" by code_simp
  have h2: "session_minus_neuron example_ephys_db \<noteq> []" by code_simp
  have h3: "fst example_new_session \<notin> set (keys (ephys_session example_ephys_db))" by code_simp
  have h4: "fst (fst example_new_session) \<in> set (keys (ephys_mouse example_ephys_db))" by code_simp
  have h5: "ephys_files_ok (example_ephys_db\<lparr>ephys_session := ephys_session example_ephys_db @ [example_new_session]\<rparr>)"
    by code_simp
  show ?thesis using notebook_ephys_run [OF h1 h2 h3 h4 h5] h1 h2 h3 h4 h5 by blast
qed

text \<open>C29. Whatever cells run, in whatever order, from a well-formed database whose stored
  neurons match their files: the database stays well-formed and every row of Neuron holds,
  as its activity, the row of its session's data file that its \<open>neuron_id\<close> indexes.\<close>

theorem ephys_reach_inv:
  assumes "ephys_reach db0 s" and "ephys_wf db0" and "neuron_stored_ok db0"
  shows "ephys_wf (nb_db s) \<and> neuron_stored_ok (nb_db s)"
  using assms(1)
proof (induction rule: ephys_reach.induct)
  case start
  then show ?case using assms(2,3) by (simp add: ephys_start_def)
next
  case (step s op)
  show ?case
    by (rule ephys_step_preserves [where Q = "\<lambda>d. ephys_wf d \<and> neuron_stored_ok d", OF _ _ step.IH])
       (auto dest: neuron_make_step neuron_make_stored_ok session_insert1_wf session_insert1_stored_ok)
qed


theorem ephys_reach_inv_witness:
  "ephys_reach example_ephys_db (fst (ephys_run notebook_ephys_ops (ephys_start example_ephys_db))) \<and>
   ephys_wf example_ephys_db \<and> neuron_stored_ok example_ephys_db \<and>
   ephys_wf (nb_db (fst (ephys_run notebook_ephys_ops (ephys_start example_ephys_db)))) \<and>
   neuron_stored_ok (nb_db (fst (ephys_run notebook_ephys_ops (ephys_start example_ephys_db))))"
proof -
  have h1: "ephys_reach example_ephys_db (fst (ephys_run notebook_ephys_ops (ephys_start example_ephys_db)))"
    by (rule ephys_run_reach [OF ephys_reach.start])
  have h2: "ephys_wf example_ephys_db" by code_simp
  have h3: "neuron_stored_ok example_ephys_db" by code_simp
  show ?thesis using ephys_reach_inv [OF h1 h2 h3] h1 h2 h3 by blast
qed

end
