(* ===== verification/Computed.thy ===== *)
theory Computed
  imports Segment Imaging
begin

text \<open>
  The computed tables of the calcium-imaging pipeline (\<open>src/unnamed/part_001\<close>): the
  lookup table \<open>SegmentationParam\<close>, the computed table \<open>Segmentation\<close> with its part
  table \<open>Segmentation.Roi\<close>, and the cascading deletes, on top of the tables of
  \<open>Imaging\<close>. The database record also carries the tables of \<open>Fluorescence\<close> and
  \<open>Fluorescence.Trace\<close>, whose \<open>make\<close> is in theory \<open>Fluorescence\<close>, because the deletes
  cascade into them. Each \<open>make\<close> runs in the transaction \<open>populate\<close> opens for it: an
  error leaves the database as it was, which is what \<open>populate_keys\<close> does with an
  \<open>Inl\<close>. Deleting from \<open>SegmentationParam\<close> or \<open>Segmentation\<close> cascades to every
  dependent row, as DataJoint's \<open>delete\<close> does.

  Lemmas: the closed form of \<open>Segmentation.make\<close> on every branch, its
  \<open>make_contract\<close> and totality on the inputs that avoid its error (\<open>seg_inputs_ok\<close>),
  the one exception its \<open>populate\<close> can raise, and integrity \<open>computed_wf\<close> kept by the
  parameter insert, the segmentation and the deletes (used by \<open>ComputedRun\<close>).
\<close>

type_synonym seg_key = "scan_key \<times> int"   \<comment> \<open>AverageFrame's key, seg_param_id\<close>
type_synonym roi_key = "seg_key \<times> nat"    \<comment> \<open>master key, roi_idx\<close>

record seg_param_row =
  threshold :: rat
  size_cutoff :: rat

record computed_db =
  imaging :: imaging_db
  segmentation_param :: "(int, seg_param_row) table"
  segmentation :: "(seg_key, nat grid) table"
  roi :: "(roi_key, bool grid) table"
  fluorescence :: "(seg_key, rat list) table"
  trace :: "(roi_key, rat list) table"

definition seg_param_insert1 :: "int \<Rightarrow> seg_param_row \<Rightarrow> computed_db \<Rightarrow> error + computed_db" where
  "seg_param_insert1 k row db =
     bind_err (insert1 (\<lambda>_. True) k row (segmentation_param db))
       (\<lambda>t. Inr (db\<lparr>segmentation_param := t\<rparr>))"

text \<open>\<open>Segmentation.make\<close>: fetch the average frame and the parameters, run the image
  processing of \<open>Segment\<close>, insert the master row first and then one \<open>Roi\<close> row per
  remaining label, \<open>roi_idx\<close> being the label.\<close>

definition segmentation_make :: "seg_key \<Rightarrow> computed_db \<Rightarrow> error + computed_db" where
  "segmentation_make key db =
     bind_err (fetch1 (\<lambda>k. k = fst key) (average_frame (imaging db))) (\<lambda>avg_image.
     bind_err (fetch1 (\<lambda>k. k = snd key) (segmentation_param db)) (\<lambda>p.
     bind_err (segment avg_image (threshold p) (size_cutoff p)) (\<lambda>(label_im, rois).
     bind_err (insert1 (\<lambda>k. fst k \<in> set (keys (average_frame (imaging db))) \<and>
                           snd k \<in> set (keys (segmentation_param db)))
                 key label_im (segmentation db)) (\<lambda>seg.
     bind_err (insert_rows (\<lambda>k. fst k \<in> set (keys seg))
                 (map (\<lambda>(i, roi_mask). ((key, i), roi_mask)) rois) (roi db)) (\<lambda>r.
     Inr (db\<lparr>segmentation := seg, roi := r\<rparr>))))))"

definition segmentation_key_source :: "computed_db \<Rightarrow> seg_key list" where
  "segmentation_key_source db =
     concat (map (\<lambda>a. map (\<lambda>p. (a, p)) (keys (segmentation_param db))) (keys (average_frame (imaging db))))"

definition segmentation_done :: "computed_db \<Rightarrow> seg_key \<Rightarrow> bool" where
  "segmentation_done db k \<longleftrightarrow> k \<in> set (keys (segmentation db))"

definition segmentation_populate :: "computed_db \<Rightarrow> computed_db \<times> error option" where
  "segmentation_populate = populate segmentation_make segmentation_key_source segmentation_done"

text \<open>DataJoint's cascading \<open>delete\<close>: \<open>(Segmentation & cond).delete()\<close> removes the
  selected rows and every row that depends on them (their ROIs, fluorescence and traces);
  \<open>(SegmentationParam & cond).delete()\<close> removes the selected parameter sets and cascades
  through the segmentations computed with them.\<close>

definition delete_segmentation :: "(seg_key \<Rightarrow> bool) \<Rightarrow> computed_db \<Rightarrow> computed_db" where
  "delete_segmentation cond db =
     db\<lparr>segmentation := restrict (\<lambda>k. \<not> cond k) (segmentation db),
        roi := restrict (\<lambda>k. \<not> cond (fst k)) (roi db),
        fluorescence := restrict (\<lambda>k. \<not> cond k) (fluorescence db),
        trace := restrict (\<lambda>k. \<not> cond (fst k)) (trace db)\<rparr>"

definition delete_seg_param :: "(int \<Rightarrow> bool) \<Rightarrow> computed_db \<Rightarrow> computed_db" where
  "delete_seg_param cond db =
     delete_segmentation (\<lambda>k. cond (snd k))
       (db\<lparr>segmentation_param := restrict (\<lambda>k. \<not> cond k) (segmentation_param db)\<rparr>)"

text \<open>Every stored average frame is a rectangular image (what \<open>AverageFrame.make\<close>
  stores: \<open>Imaging.average_frame_make_mean\<close>).\<close>

definition frames_rect :: "computed_db \<Rightarrow> bool" where
  "frames_rect db \<longleftrightarrow> list_all (\<lambda>r. rect (snd r)) (average_frame (imaging db))"

text \<open>A database like the notebook's after \<open>AverageFrame.populate()\<close> and
  \<open>SegmentationParam.insert1((0, 50, 50))\<close>, on a small scan: a two-frame 3x4 TIFF whose
  average frame is stored, and a parameter set with threshold 50 and size cutoff 2.\<close>

definition example_frames :: "rat grid list" where
  "example_frames =
     [[[60, 70, 10, 0], [0, 80, 0, 90], [55, 0, 0, 95]],
      [[62, 72, 12, 2], [2, 82, 2, 92], [57, 2, 2, 97]]]"

definition example_computed_db :: computed_db where
  "example_computed_db =
     \<lparr>imaging = \<lparr>session = notebook_sessions,
                 scan = [(((0, ''2017-05-15''), 1), \<lparr>depth = 150, wavelength = 920, laser_power = 26,
                          fps = 15, file_name = ''example_scan_01.tif''\<rparr>)],
                 average_frame = [(((0, ''2017-05-15''), 1), [[61, 71, 11, 1], [1, 81, 1, 91], [56, 1, 1, 96]])],
                 tif_files = map_of [(''/data/example_scan_01.tif'', example_frames)]\<rparr>,
      segmentation_param = [(0, \<lparr>threshold = 50, size_cutoff = 2\<rparr>)],
      segmentation = [], roi = [], fluorescence = [], trace = []\<rparr>"

definition example_seg_key :: seg_key where
  "example_seg_key = (((0, ''2017-05-15''), 1), 0)"

definition example_segmented_db :: computed_db where
  "example_segmented_db =
     projr (segmentation_make example_seg_key example_computed_db)"

text \<open>Referential integrity of the computed tables: unique keys, every Segmentation row
  has its AverageFrame and parameter set, every ROI its Segmentation, every Fluorescence
  row its Segmentation, every trace its Fluorescence row and its ROI.\<close>

definition computed_wf :: "computed_db \<Rightarrow> bool" where
  "computed_wf db \<longleftrightarrow>
     imaging_wf (imaging db) \<and>
     distinct (keys (segmentation_param db)) \<and> distinct (keys (segmentation db)) \<and>
     distinct (keys (roi db)) \<and> distinct (keys (fluorescence db)) \<and> distinct (keys (trace db)) \<and>
     list_all (\<lambda>k. fst k \<in> set (keys (average_frame (imaging db))) \<and>
                   snd k \<in> set (keys (segmentation_param db))) (keys (segmentation db)) \<and>
     list_all (\<lambda>k. fst k \<in> set (keys (segmentation db))) (keys (roi db)) \<and>
     list_all (\<lambda>k. k \<in> set (keys (segmentation db))) (keys (fluorescence db)) \<and>
     list_all (\<lambda>k. fst k \<in> set (keys (fluorescence db)) \<and> k \<in> set (keys (roi db))) (keys (trace db))"

text \<open>The inputs under which \<open>Segmentation.make\<close> succeeds on every pair: no average
  frame has all its pixels above a parameter set's threshold (the \<open>IndexError\<close> of
  \<open>Segment.segment_error\<close>).\<close>

definition seg_inputs_ok :: "computed_db \<Rightarrow> bool" where
  "seg_inputs_ok db \<longleftrightarrow>
     list_all (\<lambda>a. list_all (\<lambda>p. \<not> (concat (snd a) \<noteq> [] \<and>
                                      list_all (list_all (\<lambda>v. threshold (snd p) < v)) (snd a)))
                     (segmentation_param db))
       (average_frame (imaging db))"

lemma map_of_Some_keys: "map_of t k = Some v \<Longrightarrow> k \<in> set (keys t)"
  by (auto simp: keys_def dest: map_of_SomeD intro: rev_image_eqI)

lemma segment_rois: "segment avg t c = Inr (g, rs) \<Longrightarrow> rs = roi_masks g"
  by (auto simp: segment_def Let_def split: prod.splits sum.splits)

lemma distinct_roi_masks: "distinct (map fst (roi_masks g))"
  by (simp add: roi_masks_def comp_def np_unique_def distinct_drop)

lemma segment_Inr:
  assumes "rect avg" and "segment avg t c = Inr (g, rs)"
  shows "\<not> (concat avg \<noteq> [] \<and> list_all (list_all (\<lambda>v. t < v)) avg) \<and>
         g = filter_small (fst (ndimage_label (threshold_mask avg t))) c \<and> rs = rois_of g"
proof -
  obtain li nb where lab: "ndimage_label (threshold_mask avg t) = (li, nb)" by fastforce
  have ok: "\<not> (concat avg \<noteq> [] \<and> list_all (list_all (\<lambda>v. t < v)) avg)"
    using segment_error [OF assms(1), of t c] assms(2) by auto
  with segment_ok [OF assms(1) lab ok, of c] assms(2) lab show ?thesis by simp
qed

lemma segment_Inl:
  assumes "rect avg" and "segment avg t c = Inl e"
  shows "e = IndexError \<and> concat avg \<noteq> [] \<and> list_all (list_all (\<lambda>v. t < v)) avg"
proof (cases "concat avg \<noteq> [] \<and> list_all (list_all (\<lambda>v. t < v)) avg")
  case True
  with segment_error [OF assms(1), of t c] assms(2) show ?thesis by simp
next
  case False
  obtain li nb where lab: "ndimage_label (threshold_mask avg t) = (li, nb)" by fastforce
  from segment_ok [OF assms(1) lab False, of c] assms(2) show ?thesis by simp
qed

text \<open>The ROIs of a label image: one per nonzero label, in increasing order, each the
  mask of the pixels carrying its label.\<close>

lemma rois_of_mem:
  "(i, m) \<in> set (rois_of g) \<longleftrightarrow> i \<in> set (concat g) \<and> i \<noteq> 0 \<and> m = map (map (\<lambda>x. x = i)) g"
  by (auto simp: rois_of_def)

lemma distinct_rois_of: "distinct (map fst (rois_of g))"
  by (simp add: rois_of_def comp_def)

lemma label_present:
  assumes "rect g"
  shows "i \<in> set (concat g) \<longleftrightarrow> (\<exists>p. inside g p \<and> px g p = i)"
  unfolding set_concat_rect [OF assms] by auto

lemma segmentation_make_eq:
  assumes wf: "computed_wf db"
  shows "segmentation_make key db =
    (case map_of (average_frame (imaging db)) (fst key) of
       None \<Rightarrow> Inl FetchOneError
     | Some avg \<Rightarrow>
         (case map_of (segmentation_param db) (snd key) of
            None \<Rightarrow> Inl FetchOneError
          | Some p \<Rightarrow>
              (case segment avg (threshold p) (size_cutoff p) of
                 Inl e \<Rightarrow> Inl e
               | Inr (g, rs) \<Rightarrow>
                   if key \<in> set (keys (segmentation db)) then Inl DuplicateError
                   else Inr (db\<lparr>segmentation := segmentation db @ [(key, g)],
                                roi := roi db @ map (\<lambda>(i, m). ((key, i), m)) rs\<rparr>))))"
proof -
  from wf have d1: "distinct (keys (average_frame (imaging db)))"
    and d2: "distinct (keys (segmentation_param db))"
    and fk: "\<forall>k \<in> set (keys (roi db)). fst k \<in> set (keys (segmentation db))"
    by (simp_all add: computed_wf_def imaging_wf_def list_all_iff)
  have rows: "insert_rows (\<lambda>k. fst k = key \<or> fst k \<in> set (keys (segmentation db)))
                (map (\<lambda>(i, m). ((key, i), m)) rs) (roi db) =
              Inr (roi db @ map (\<lambda>(i, m). ((key, i), m)) rs)"
    if "key \<notin> set (keys (segmentation db))" and "segment avg th c = Inr (g, rs)" for avg th c g rs
  proof -
    have "distinct (map fst rs)"
      using segment_rois [OF that(2)] distinct_roi_masks by simp
    then have "distinct (map fst (map (\<lambda>(i, m). ((key, i), m)) rs))"
      by (simp add: distinct_map inj_on_def case_prod_beta)
    moreover have "set (map fst (map (\<lambda>(i, m). ((key, i), m)) rs)) \<inter> set (keys (roi db)) = {}"
      using that(1) fk by force
    ultimately show ?thesis
      by (simp add: insert_rows_Inr_iff list_all_iff case_prod_beta)
  qed
  show ?thesis
    unfolding segmentation_make_def fetch1_key [OF d1] fetch1_key [OF d2]
    by (auto simp: insert1_def rows dest: map_of_Some_keys split: option.split sum.split)
qed

lemma frames_rect_map_of:
  "frames_rect db \<Longrightarrow> map_of (average_frame (imaging db)) k = Some avg \<Longrightarrow> rect avg"
  unfolding frames_rect_def list_all_iff by (metis map_of_SomeD snd_conv)

lemma segmentation_make_Inr:
  assumes "computed_wf db" and "segmentation_make key db = Inr db'"
  obtains avg p g rs where "map_of (average_frame (imaging db)) (fst key) = Some avg"
    and "map_of (segmentation_param db) (snd key) = Some p"
    and "segment avg (threshold p) (size_cutoff p) = Inr (g, rs)"
    and "key \<notin> set (keys (segmentation db))"
    and "db' = db\<lparr>segmentation := segmentation db @ [(key, g)],
                  roi := roi db @ map (\<lambda>(i, m). ((key, i), m)) rs\<rparr>"
  using assms(2) unfolding segmentation_make_eq [OF assms(1)]
  by (auto split: option.splits sum.splits if_splits)

lemma segmentation_make_wf:
  assumes wf: "computed_wf db" and mk: "segmentation_make key db = Inr db'"
  shows "computed_wf db'"
proof -
  obtain avg p g rs where a: "map_of (average_frame (imaging db)) (fst key) = Some avg"
    and pm: "map_of (segmentation_param db) (snd key) = Some p"
    and sg: "segment avg (threshold p) (size_cutoff p) = Inr (g, rs)"
    and new: "key \<notin> set (keys (segmentation db))"
    and db': "db' = db\<lparr>segmentation := segmentation db @ [(key, g)],
                  roi := roi db @ map (\<lambda>(i, m). ((key, i), m)) rs\<rparr>"
    by (rule segmentation_make_Inr [OF wf mk])
  have "distinct (map fst rs)"
    using segment_rois [OF sg] distinct_roi_masks by simp
  then have d: "distinct (keys (map (\<lambda>(i, m). ((key, i), m)) rs))"
    by (simp add: keys_def distinct_map inj_on_def case_prod_beta)
  have "fst k \<in> set (keys (segmentation db))" if "k \<in> set (keys (roi db))" for k
    using wf that by (simp add: computed_wf_def list_all_iff)
  with new have disj: "set (keys (map (\<lambda>(i, m). ((key, i), m)) rs)) \<inter> set (keys (roi db)) = {}"
    by (force simp: keys_def)
  have fst_new: "\<forall>k \<in> set (keys (map (\<lambda>(i, m). ((key, i), m)) rs)). fst k = key"
    by (auto simp: keys_def)
  from wf d disj fst_new new a pm show ?thesis
    unfolding db' computed_wf_def
    by (auto simp: list_all_iff dest: map_of_Some_keys)
qed

text \<open>C14. \<open>Segmentation.make\<close> on a pending pair of an average frame and a parameter
  set whose frame has a background pixel stores the reference segmentation: the label
  image with blobs smaller than \<open>size_cutoff\<close> cleared as the master row, then one
  \<open>Roi\<close> row per remaining label with its mask.\<close>

theorem segmentation_make_inserts:
  assumes "computed_wf db" and "\<not> segmentation_done db key"
    and "map_of (average_frame (imaging db)) (fst key) = Some avg" and "rect avg"
    and "map_of (segmentation_param db) (snd key) = Some p"
    and "\<not> (concat avg \<noteq> [] \<and> list_all (list_all (\<lambda>v. threshold p < v)) avg)"
  shows "segmentation_make key db =
    Inr (db\<lparr>segmentation := segmentation db @
                [(key, filter_small (fst (ndimage_label (threshold_mask avg (threshold p)))) (size_cutoff p))],
            roi := roi db @ map (\<lambda>(i, m). ((key, i), m))
                (rois_of (filter_small (fst (ndimage_label (threshold_mask avg (threshold p)))) (size_cutoff p)))\<rparr>)"
proof -
  obtain li nb where lab: "ndimage_label (threshold_mask avg (threshold p)) = (li, nb)" by fastforce
  from segment_ok [OF assms(4) lab assms(6)] lab assms(2,3,5) show ?thesis
    by (simp add: segmentation_make_eq [OF assms(1)] segmentation_done_def)
qed

theorem segmentation_make_inserts_witness:
  "computed_wf example_computed_db \<and> \<not> segmentation_done example_computed_db ((((0, ''2017-05-15''), 1), 0)) \<and>
   map_of (average_frame (imaging example_computed_db)) ((0, ''2017-05-15''), 1) =
     Some [[61, 71, 11, 1], [1, 81, 1, 91], [56, 1, 1, 96]] \<and>
   rect [[61, 71, 11, 1], [1, 81, 1, 91], [56, 1, 1, 96::rat]] \<and>
   map_of (segmentation_param example_computed_db) 0 = Some \<lparr>threshold = 50, size_cutoff = 2\<rparr> \<and>
   \<not> (concat [[61, 71, 11, 1], [1, 81, 1, 91], [56, 1, 1, 96::rat]] \<noteq> [] \<and>
      list_all (list_all (\<lambda>v. threshold \<lparr>threshold = 50, size_cutoff = 2\<rparr> < v))
        [[61, 71, 11, 1], [1, 81, 1, 91], [56, 1, 1, 96::rat]]) \<and>
   segmentation_make (((0, ''2017-05-15''), 1), 0) example_computed_db =
    Inr (example_computed_db\<lparr>segmentation := segmentation example_computed_db @
      [((((0, ''2017-05-15''), 1), 0), filter_small (fst (ndimage_label (threshold_mask
          [[61, 71, 11, 1], [1, 81, 1, 91], [56, 1, 1, 96]] (threshold \<lparr>threshold = 50, size_cutoff = 2\<rparr>))))
          (size_cutoff \<lparr>threshold = 50, size_cutoff = 2\<rparr>))],
      roi := roi example_computed_db @ map (\<lambda>(i, m). (((((0, ''2017-05-15''), 1), 0), i), m))
        (rois_of (filter_small (fst (ndimage_label (threshold_mask
          [[61, 71, 11, 1], [1, 81, 1, 91], [56, 1, 1, 96]] (threshold \<lparr>threshold = 50, size_cutoff = 2\<rparr>))))
          (size_cutoff \<lparr>threshold = 50, size_cutoff = 2\<rparr>)))\<rparr>)"
proof -
  have h1: "computed_wf example_computed_db" by code_simp
  have h2: "\<not> segmentation_done example_computed_db ((((0, ''2017-05-15''), 1), 0))" by code_simp
  have h3: "map_of (average_frame (imaging example_computed_db)) (fst ((((0, ''2017-05-15''), 1), 0)::seg_key)) =
     Some [[61, 71, 11, 1], [1, 81, 1, 91], [56, 1, 1, 96]]" by code_simp
  have h4: "rect [[61, 71, 11, 1], [1, 81, 1, 91], [56, 1, 1, 96::rat]]" by code_simp
  have h5: "map_of (segmentation_param example_computed_db) (snd ((((0, ''2017-05-15''), 1), 0)::seg_key)) =
     Some \<lparr>threshold = 50, size_cutoff = 2\<rparr>" by code_simp
  have h6: "\<not> (concat [[61, 71, 11, 1], [1, 81, 1, 91], [56, 1, 1, 96::rat]] \<noteq> [] \<and>
      list_all (list_all (\<lambda>v. threshold \<lparr>threshold = 50, size_cutoff = 2\<rparr> < v))
        [[61, 71, 11, 1], [1, 81, 1, 91], [56, 1, 1, 96::rat]])" by code_simp
  show ?thesis using segmentation_make_inserts [OF h1 h2 h3 h4 h5 h6] h1 h2 h3 h4 h5 h6 by simp
qed

lemma rect_filter_small: "rect li \<Longrightarrow> rect (filter_small li c)"
  by (simp add: filter_small_def rect_map_map)

lemma rois_of_partition:
  assumes "rect g"
  shows "\<forall>i m. (i, m) \<in> set (rois_of g) \<longrightarrow> i \<noteq> 0 \<and> length m = length g \<and> width m = width g \<and>
            (\<forall>p. inside g p \<longrightarrow> px m p = (px g p = i)) \<and> (\<exists>p. inside g p \<and> px m p)"
    and "\<forall>p. inside g p \<longrightarrow> px g p \<noteq> 0 \<longrightarrow> (\<exists>i m. (i, m) \<in> set (rois_of g) \<and> px m p)"
proof -
  show "\<forall>i m. (i, m) \<in> set (rois_of g) \<longrightarrow> i \<noteq> 0 \<and> length m = length g \<and> width m = width g \<and>
            (\<forall>p. inside g p \<longrightarrow> px m p = (px g p = i)) \<and> (\<exists>p. inside g p \<and> px m p)"
  proof (intro allI impI)
    fix i m
    assume "(i, m) \<in> set (rois_of g)"
    then have i: "i \<in> set (concat g)" "i \<noteq> 0" and m: "m = map (map (\<lambda>x. x = i)) g"
      by (simp_all add: rois_of_mem)
    from i(1) obtain q where "inside g q" and "px g q = i"
      using label_present [OF assms] by blast
    have pxm: "\<forall>p. inside g p \<longrightarrow> px m p = (px g p = i)"
    proof (intro allI impI)
      fix p
      assume "inside g p"
      then show "px m p = (px g p = i)" unfolding m by (rule px_map_map [OF assms])
    qed
    have "length m = length g" and "width m = width g" using m by simp_all
    moreover have "px m q" using pxm \<open>inside g q\<close> \<open>px g q = i\<close> by blast
    ultimately show "i \<noteq> 0 \<and> length m = length g \<and> width m = width g \<and>
            (\<forall>p. inside g p \<longrightarrow> px m p = (px g p = i)) \<and> (\<exists>p. inside g p \<and> px m p)"
      using i(2) pxm \<open>inside g q\<close> by blast
  qed
  show "\<forall>p. inside g p \<longrightarrow> px g p \<noteq> 0 \<longrightarrow> (\<exists>i m. (i, m) \<in> set (rois_of g) \<and> px m p)"
  proof (intro allI impI)
    fix p
    assume p: "inside g p" and nz: "px g p \<noteq> 0"
    then have "px g p \<in> set (concat g)"
      using label_present [OF assms] by blast
    with nz have "(px g p, map (map (\<lambda>x. x = px g p)) g) \<in> set (rois_of g)"
      by (simp add: rois_of_mem)
    moreover have "px (map (map (\<lambda>x. x = px g p)) g) p"
      by (subst px_map_map [OF assms p]) simp
    ultimately show "\<exists>i m. (i, m) \<in> set (rois_of g) \<and> px m p" by blast
  qed
qed

lemma segmentation_make_rect:
  assumes "computed_wf db" and "frames_rect db" and "segmentation_make key db = Inr db'"
  obtains g rs0 where "segmentation db' = segmentation db @ [(key, g)]"
    and "roi db' = roi db @ map (\<lambda>(i, m). ((key, i), m)) rs0"
    and "rect g" and "rs0 = rois_of g"
proof -
  obtain avg p g rs where a: "map_of (average_frame (imaging db)) (fst key) = Some avg"
    and "map_of (segmentation_param db) (snd key) = Some p"
    and sg: "segment avg (threshold p) (size_cutoff p) = Inr (g, rs)"
    and "key \<notin> set (keys (segmentation db))"
    and db': "db' = db\<lparr>segmentation := segmentation db @ [(key, g)],
                  roi := roi db @ map (\<lambda>(i, m). ((key, i), m)) rs\<rparr>"
    by (rule segmentation_make_Inr [OF assms(1,3)])
  have ra: "rect avg" using frames_rect_map_of [OF assms(2) a] .
  obtain li nb where lab: "ndimage_label (threshold_mask avg (threshold p)) = (li, nb)" by fastforce
  from segment_Inr [OF ra sg] lab have g: "g = filter_small li (size_cutoff p)" and rs: "rs = rois_of g"
    by simp_all
  have "rect g" unfolding g by (rule rect_filter_small) (rule ndimage_label_shape(3) [OF lab])
  with that db' rs show ?thesis by simp
qed

text \<open>C15. The ROIs \<open>Segmentation.make\<close> inserts partition the kept blobs of its master
  row: each has a distinct nonzero \<open>roi_idx\<close>, the shape of \<open>segmented_masks\<close>, is true
  exactly on the pixels carrying its label and on at least one pixel; every nonzero pixel
  of \<open>segmented_masks\<close> lies in some ROI.\<close>

theorem segmentation_make_rois:
  assumes "computed_wf db" and "frames_rect db" and "segmentation_make key db = Inr db'"
  shows "\<exists>g rs. segmentation db' = segmentation db @ [(key, g)] \<and> roi db' = roi db @ rs \<and>
    distinct (keys rs) \<and>
    (\<forall>k m. (k, m) \<in> set rs \<longrightarrow> fst k = key \<and> snd k \<noteq> 0 \<and> length m = length g \<and>
        width m = width g \<and> (\<forall>p. inside g p \<longrightarrow> px m p = (px g p = snd k)) \<and> (\<exists>p. inside g p \<and> px m p)) \<and>
    (\<forall>p. inside g p \<longrightarrow> px g p \<noteq> 0 \<longrightarrow> (\<exists>k m. (k, m) \<in> set rs \<and> px m p))"
proof -
  obtain g rs0 where s: "segmentation db' = segmentation db @ [(key, g)]"
    and r: "roi db' = roi db @ map (\<lambda>(i, m). ((key, i), m)) rs0" and "rect g" and rs0: "rs0 = rois_of g"
    using segmentation_make_rect [OF assms] by metis
  note part = rois_of_partition [OF \<open>rect g\<close>]
  have "distinct (keys (map (\<lambda>(i, m). ((key, i), m)) rs0))"
    using distinct_rois_of [of g] by (simp add: rs0 keys_def distinct_map inj_on_def case_prod_beta)
  moreover have "\<forall>k m. (k, m) \<in> set (map (\<lambda>(i, m). ((key, i), m)) rs0) \<longrightarrow> fst k = key \<and> snd k \<noteq> 0 \<and>
      length m = length g \<and> width m = width g \<and> (\<forall>p. inside g p \<longrightarrow> px m p = (px g p = snd k)) \<and>
      (\<exists>p. inside g p \<and> px m p)"
    using part(1) by (auto simp: rs0)
  moreover have "\<forall>p. inside g p \<longrightarrow> px g p \<noteq> 0 \<longrightarrow>
      (\<exists>k m. (k, m) \<in> set (map (\<lambda>(i, m). ((key, i), m)) rs0) \<and> px m p)"
    using part(2) by (fastforce simp: rs0)
  ultimately show ?thesis using s r by blast
qed

theorem segmentation_make_rois_witness:
  "computed_wf example_computed_db \<and> frames_rect example_computed_db \<and>
   segmentation_make example_seg_key example_computed_db = Inr example_segmented_db \<and>
   (\<exists>g rs. segmentation example_segmented_db = segmentation example_computed_db @ [(example_seg_key, g)] \<and>
      roi example_segmented_db = roi example_computed_db @ rs \<and> distinct (keys rs) \<and>
      (\<forall>k m. (k, m) \<in> set rs \<longrightarrow> fst k = example_seg_key \<and> snd k \<noteq> 0 \<and> length m = length g \<and>
         width m = width g \<and> (\<forall>p. inside g p \<longrightarrow> px m p = (px g p = snd k)) \<and> (\<exists>p. inside g p \<and> px m p)) \<and>
      (\<forall>p. inside g p \<longrightarrow> px g p \<noteq> 0 \<longrightarrow> (\<exists>k m. (k, m) \<in> set rs \<and> px m p)))"
proof -
  have h1: "computed_wf example_computed_db" by code_simp
  have h2: "frames_rect example_computed_db" by code_simp
  have "\<not> isl (segmentation_make example_seg_key example_computed_db)" by code_simp
  then have h3: "segmentation_make example_seg_key example_computed_db = Inr example_segmented_db"
    by (cases "segmentation_make example_seg_key example_computed_db") (simp_all add: example_segmented_db_def)
  show ?thesis using segmentation_make_rois [OF h1 h2 h3] h1 h2 h3 by blast
qed

lemma keys_restrict: "keys (restrict P t) = filter P (keys t)"
  by (induction t) (auto simp: restrict_def keys_def)

lemma restrict_mem: "(k, v) \<in> set (restrict P t) \<longleftrightarrow> (k, v) \<in> set t \<and> P k"
  by (auto simp: restrict_def)

lemma set_keys_restrict: "set (keys (restrict P t)) = {k \<in> set (keys t). P k}"
  by (auto simp: keys_restrict)

lemma delete_segmentation_wf:
  assumes "computed_wf db"
  shows "computed_wf (delete_segmentation cond db)"
  using assms
  unfolding computed_wf_def delete_segmentation_def
  by (simp add: keys_restrict list_all_iff)

lemma delete_seg_param_wf:
  assumes "computed_wf db"
  shows "computed_wf (delete_seg_param cond db)"
proof -
  let ?db = "db\<lparr>segmentation_param := restrict (\<lambda>k. \<not> cond k) (segmentation_param db)\<rparr>"
  have "computed_wf (delete_segmentation (\<lambda>k. cond (snd k)) ?db)"
    using assms unfolding computed_wf_def delete_segmentation_def
    by (simp add: keys_restrict list_all_iff)
  then show ?thesis by (simp add: delete_seg_param_def)
qed

lemma segmentation_populate_wf:
  "computed_wf db \<Longrightarrow> computed_wf (fst (segmentation_populate db))"
  unfolding segmentation_populate_def
  by (rule populate_preserves [where Q = computed_wf]) (auto intro: segmentation_make_wf)

lemma seg_param_insert1_wf:
  assumes "computed_wf db" and "seg_param_insert1 k row db = Inr db'"
  shows "computed_wf db'"
proof -
  from assms(2) have k: "k \<notin> set (keys (segmentation_param db))"
    and db': "db' = db\<lparr>segmentation_param := segmentation_param db @ [(k, row)]\<rparr>"
    by (auto simp: seg_param_insert1_def insert1_Inr_iff bind_err_Inr_iff)
  have "\<forall>s \<in> set (keys (segmentation db)). snd s \<in> set (keys (segmentation_param db))"
    using assms(1) by (simp add: computed_wf_def list_all_iff)
  with assms(1) k show ?thesis
    unfolding db' computed_wf_def by (simp add: list_all_iff)
qed

lemma seg_inputs_ok_map_of:
  assumes "seg_inputs_ok db" and "map_of (average_frame (imaging db)) a = Some avg"
    and "map_of (segmentation_param db) pid = Some p"
  shows "\<not> (concat avg \<noteq> [] \<and> list_all (list_all (\<lambda>v. threshold p < v)) avg)"
proof -
  from assms(2) have "(a, avg) \<in> set (average_frame (imaging db))" by (rule map_of_SomeD)
  moreover from assms(3) have "(pid, p) \<in> set (segmentation_param db)" by (rule map_of_SomeD)
  ultimately show ?thesis using assms(1) unfolding seg_inputs_ok_def list_all_iff by fastforce
qed

lemma segmentation_contract:
  "make_contract
     (\<lambda>d. computed_wf d \<and> imaging d = imaging db0 \<and> segmentation_param d = segmentation_param db0)
     (\<lambda>_. True) segmentation_make segmentation_done"
  unfolding make_contract_def
proof (intro allI impI)
  fix k d d'
  assume P: "computed_wf d \<and> imaging d = imaging db0 \<and> segmentation_param d = segmentation_param db0"
    and "True" and mk: "segmentation_make k d = Inr d'"
  obtain avg p g rs where "map_of (average_frame (imaging d)) (fst k) = Some avg"
    and "map_of (segmentation_param d) (snd k) = Some p"
    and "segment avg (threshold p) (size_cutoff p) = Inr (g, rs)"
    and "k \<notin> set (keys (segmentation d))"
    and d': "d' = d\<lparr>segmentation := segmentation d @ [(k, g)],
                  roi := roi d @ map (\<lambda>(i, m). ((k, i), m)) rs\<rparr>"
    using P by (blast elim: segmentation_make_Inr [OF _ mk])
  with P segmentation_make_wf [OF _ mk]
  show "(computed_wf d' \<and> imaging d' = imaging db0 \<and> segmentation_param d' = segmentation_param db0) \<and>
        segmentation_done d' k \<and> (\<forall>k'. segmentation_done d k' \<longrightarrow> segmentation_done d' k')"
    by (simp add: segmentation_done_def)
qed

lemma segmentation_make_total:
  assumes "computed_wf d" and "frames_rect d" and "seg_inputs_ok d"
    and "k \<in> set (segmentation_key_source d)" and "\<not> segmentation_done d k"
  shows "\<exists>d'. segmentation_make k d = Inr d'"
proof -
  from assms(4) have "fst k \<in> set (keys (average_frame (imaging d)))"
    and "snd k \<in> set (keys (segmentation_param d))"
    by (auto simp: segmentation_key_source_def)
  then obtain avg p where a: "map_of (average_frame (imaging d)) (fst k) = Some avg"
    and pm: "map_of (segmentation_param d) (snd k) = Some p"
    using map_of_key_Some by metis
  obtain li nb where lab: "ndimage_label (threshold_mask avg (threshold p)) = (li, nb)" by fastforce
  have "segment avg (threshold p) (size_cutoff p) =
      Inr (filter_small li (size_cutoff p), rois_of (filter_small li (size_cutoff p)))"
    by (rule segment_ok [OF frames_rect_map_of [OF assms(2) a] lab seg_inputs_ok_map_of [OF assms(3) a pm]])
  with a pm assms(5) show ?thesis
    by (simp add: segmentation_make_eq [OF assms(1)] segmentation_done_def)
qed

lemma segmentation_populate_run:
  assumes "computed_wf db" and "frames_rect db" and "seg_inputs_ok db"
  shows "\<exists>db'. segmentation_populate db = (db', None) \<and> computed_wf db' \<and>
           imaging db' = imaging db \<and> segmentation_param db' = segmentation_param db \<and>
           list_all (segmentation_done db') (segmentation_key_source db)"
proof -
  have P0: "computed_wf db \<and> imaging db = imaging db \<and> segmentation_param db = segmentation_param db"
    using assms(1) by simp
  have K: "list_all (\<lambda>_. True) (segmentation_key_source db)" by (simp add: list_all_iff)
  have total: "\<exists>d''. segmentation_make k d' = Inr d''"
    if "computed_wf d' \<and> imaging d' = imaging db \<and> segmentation_param d' = segmentation_param db"
      and "k \<in> set (segmentation_key_source db)" and "\<not> segmentation_done d' k" for k d'
  proof -
    from that(1) assms(2,3) have "frames_rect d'" and "seg_inputs_ok d'"
      by (simp_all add: frames_rect_def seg_inputs_ok_def)
    moreover from that(1,2) have "k \<in> set (segmentation_key_source d')"
      by (simp add: segmentation_key_source_def)
    ultimately show ?thesis using that(1,3) segmentation_make_total by blast
  qed
  from populate_complete [where key_source = segmentation_key_source,
      OF segmentation_contract P0 K total]
  show ?thesis by (auto simp: segmentation_populate_def)
qed

text \<open>C19. \<open>Segmentation.populate()\<close> terminates the work it is given: on a well-formed
  database whose average frames are images and none of them lies entirely above a
  parameter set's threshold, it ends without error, keeps the database well-formed and
  leaves AverageFrame and SegmentationParam as they were, and every pair of an
  average frame and a parameter set has its segmentation.\<close>

theorem segmentation_populate_complete:
  assumes "computed_wf db" and "frames_rect db" and "seg_inputs_ok db"
  shows "\<exists>db'. segmentation_populate db = (db', None) \<and> computed_wf db' \<and>
           imaging db' = imaging db \<and> segmentation_param db' = segmentation_param db \<and>
           list_all (segmentation_done db') (segmentation_key_source db)"
  using segmentation_populate_run [OF assms] .

theorem segmentation_populate_complete_witness:
  "computed_wf example_computed_db \<and> frames_rect example_computed_db \<and> seg_inputs_ok example_computed_db \<and>
   (\<exists>db'. segmentation_populate example_computed_db = (db', None) \<and> computed_wf db' \<and>
      imaging db' = imaging example_computed_db \<and>
      segmentation_param db' = segmentation_param example_computed_db \<and>
      list_all (segmentation_done db') (segmentation_key_source example_computed_db))"
proof -
  have h1: "computed_wf example_computed_db" by code_simp
  have h2: "frames_rect example_computed_db" by code_simp
  have h3: "seg_inputs_ok example_computed_db" by code_simp
  show ?thesis using segmentation_populate_complete [OF h1 h2 h3] h1 h2 h3 by blast
qed

text \<open>C25. The only exception \<open>Segmentation.populate()\<close> can raise on a well-formed
  database of rectangular average frames is numpy's \<open>IndexError\<close>, and it raises it only
  for a pending pair whose average frame is non-empty and lies entirely above the pair's
  threshold: the fetches, the master insert and the part insert of \<open>make\<close> never fail
  there.\<close>

theorem segmentation_populate_error:
  assumes wf: "computed_wf db" and fr: "frames_rect db"
    and err: "segmentation_populate db = (db', Some e)"
  shows "e = IndexError \<and>
         (\<exists>k \<in> set (segmentation_key_source db). \<not> segmentation_done db k \<and>
            (\<exists>avg p. map_of (average_frame (imaging db)) (fst k) = Some avg \<and>
                     map_of (segmentation_param db) (snd k) = Some p \<and>
                     concat avg \<noteq> [] \<and> list_all (list_all (\<lambda>v. threshold p < v)) avg))"
proof -
  let ?Q = "\<lambda>d. computed_wf d \<and> imaging d = imaging db \<and> segmentation_param d = segmentation_param db"
  have "\<exists>k \<in> set (segmentation_key_source db). \<not> segmentation_done db k \<and>
          (\<exists>d1. ?Q d1 \<and> \<not> segmentation_done d1 k \<and> segmentation_make k d1 = Inl e)"
  proof (rule populate_error [where Q = ?Q])
    fix k d d'
    assume "?Q d" and mk: "segmentation_make k d = Inr d'"
    then have wfd: "computed_wf d" by simp
    obtain avg p g rs where "map_of (average_frame (imaging d)) (fst k) = Some avg"
      and "map_of (segmentation_param d) (snd k) = Some p"
      and "segment avg (threshold p) (size_cutoff p) = Inr (g, rs)"
      and "k \<notin> set (keys (segmentation d))"
      and d': "d' = d\<lparr>segmentation := segmentation d @ [(k, g)],
                  roi := roi d @ map (\<lambda>(i, m). ((k, i), m)) rs\<rparr>"
      by (rule segmentation_make_Inr [OF wfd mk])
    with \<open>?Q d\<close> segmentation_make_wf [OF wfd mk] show "?Q d'" by simp
  qed (use wf err in \<open>simp_all add: segmentation_populate_def\<close>)
  then obtain k d1 where k: "k \<in> set (segmentation_key_source db)" and nd: "\<not> segmentation_done db k"
    and Q1: "?Q d1" and nd1: "\<not> segmentation_done d1 k" and mk: "segmentation_make k d1 = Inl e"
    by blast
  from k have "fst k \<in> set (keys (average_frame (imaging db)))"
    and "snd k \<in> set (keys (segmentation_param db))"
    by (auto simp: segmentation_key_source_def)
  then obtain avg p where a: "map_of (average_frame (imaging db)) (fst k) = Some avg"
    and pm: "map_of (segmentation_param db) (snd k) = Some p"
    using map_of_key_Some by metis
  have ra: "rect avg" using frames_rect_map_of [OF fr a] .
  from Q1 have wf1: "computed_wf d1" and a1: "map_of (average_frame (imaging d1)) (fst k) = Some avg"
    and p1: "map_of (segmentation_param d1) (snd k) = Some p"
    using a pm by simp_all
  have "segment avg (threshold p) (size_cutoff p) = Inl e"
  proof (cases "segment avg (threshold p) (size_cutoff p)")
    case (Inl e')
    with mk show ?thesis by (simp add: segmentation_make_eq [OF wf1] a1 p1)
  next
    case (Inr res)
    with mk nd1 show ?thesis
      by (cases res) (simp add: segmentation_make_eq [OF wf1] a1 p1 segmentation_done_def)
  qed
  from segment_Inl [OF ra this] k nd a pm show ?thesis by blast
qed

theorem segmentation_populate_error_witness:
  "computed_wf (example_computed_db\<lparr>segmentation_param := [(0, \<lparr>threshold = 0, size_cutoff = 2\<rparr>)]\<rparr>) \<and>
   frames_rect (example_computed_db\<lparr>segmentation_param := [(0, \<lparr>threshold = 0, size_cutoff = 2\<rparr>)]\<rparr>) \<and>
   segmentation_populate (example_computed_db\<lparr>segmentation_param := [(0, \<lparr>threshold = 0, size_cutoff = 2\<rparr>)]\<rparr>) =
     (fst (segmentation_populate
        (example_computed_db\<lparr>segmentation_param := [(0, \<lparr>threshold = 0, size_cutoff = 2\<rparr>)]\<rparr>)), Some IndexError) \<and>
   IndexError = IndexError \<and>
   (\<exists>k \<in> set (segmentation_key_source
        (example_computed_db\<lparr>segmentation_param := [(0, \<lparr>threshold = 0, size_cutoff = 2\<rparr>)]\<rparr>)).
      \<not> segmentation_done (example_computed_db\<lparr>segmentation_param := [(0, \<lparr>threshold = 0, size_cutoff = 2\<rparr>)]\<rparr>) k \<and>
      (\<exists>avg p. map_of (average_frame (imaging
          (example_computed_db\<lparr>segmentation_param := [(0, \<lparr>threshold = 0, size_cutoff = 2\<rparr>)]\<rparr>))) (fst k) = Some avg \<and>
        map_of (segmentation_param
          (example_computed_db\<lparr>segmentation_param := [(0, \<lparr>threshold = 0, size_cutoff = 2\<rparr>)]\<rparr>)) (snd k) = Some p \<and>
        concat avg \<noteq> [] \<and> list_all (list_all (\<lambda>v. threshold p < v)) avg))"
proof -
  have h1: "computed_wf (example_computed_db\<lparr>segmentation_param := [(0, \<lparr>threshold = 0, size_cutoff = 2\<rparr>)]\<rparr>)"
    by code_simp
  have h2: "frames_rect (example_computed_db\<lparr>segmentation_param := [(0, \<lparr>threshold = 0, size_cutoff = 2\<rparr>)]\<rparr>)"
    by code_simp
  have s: "snd (segmentation_populate
      (example_computed_db\<lparr>segmentation_param := [(0, \<lparr>threshold = 0, size_cutoff = 2\<rparr>)]\<rparr>)) = Some IndexError"
    by code_simp
  have h3: "segmentation_populate (example_computed_db\<lparr>segmentation_param := [(0, \<lparr>threshold = 0, size_cutoff = 2\<rparr>)]\<rparr>) =
     (fst (segmentation_populate
        (example_computed_db\<lparr>segmentation_param := [(0, \<lparr>threshold = 0, size_cutoff = 2\<rparr>)]\<rparr>)), Some IndexError)"
    using s by (simp add: prod_eq_iff)
  show ?thesis using segmentation_populate_error [OF h1 h2 h3] h1 h2 h3 by blast
qed

end
