(* ===== verification/Fluorescence.thy ===== *)
theory Fluorescence
  imports Computed
begin

text \<open>
  \<open>Fluorescence\<close> and its part table \<open>Fluorescence.Trace\<close> in the computed-tables
  notebook (\<open>src/unnamed/part_001\<close>): \<open>make\<close> loads the scan's TIFF stack again,
  inserts the time axis and then, per ROI of the segmentation, the mean of every frame
  over the ROI's pixels; \<open>populate\<close> runs it over Segmentation. Lemmas: the closed form
  of \<open>make\<close> on every branch, its contract and totality on the inputs that avoid its
  errors (\<open>fluorescence_inputs_ok\<close>), integrity kept, and the shapes Segmentation
  hands over (\<open>frames_match\<close>, \<open>roi_sizes_ok\<close>) that make those inputs hold.
\<close>

text \<open>\<open>im_reshaped[:, mask_reshaped]\<close> and \<open>np.mean(..., axis=1)\<close>: per frame, the mean
  of the pixels the flattened mask selects. \<open>np.reshape(mask, [w*h])\<close> raises
  \<open>ValueError\<close> unless the mask has \<open>w*h\<close> pixels.\<close>

definition masked :: "'a list \<Rightarrow> bool list \<Rightarrow> 'a list" where
  "masked xs bs = map fst (filter snd (zip xs bs))"

definition roi_trace :: "rat grid list \<Rightarrow> bool grid \<Rightarrow> error + rat list" where
  "roi_trace frames roi_mask =
     (if length (concat roi_mask) \<noteq> length (hd frames) * width (hd frames) then Inl ValueError
      else Inr (map (\<lambda>f. mean_list (masked (concat f) (concat roi_mask))) frames))"

fun traces_of :: "rat grid list \<Rightarrow> (roi_key \<times> bool grid) list \<Rightarrow> error + (roi_key \<times> rat list) list" where
  "traces_of frames [] = Inr []"
| "traces_of frames ((k, roi_mask) # rs) =
     bind_err (roi_trace frames roi_mask) (\<lambda>t.
     bind_err (traces_of frames rs) (\<lambda>ts. Inr ((k, t) # ts)))"

text \<open>\<open>Fluorescence.make\<close>: load the scan's TIFF again, unpack its shape as
  \<open>n, w, h\<close> (a single-page file gives a 2-D array and the unpacking raises
  \<open>ValueError\<close>), insert the master row with \<open>time = range(n) / fps\<close>, then one trace per
  ROI of the segmentation.\<close>

definition fluorescence_make :: "seg_key \<Rightarrow> computed_db \<Rightarrow> error + computed_db" where
  "fluorescence_make key db =
     bind_err (fetch1 (\<lambda>k. k = fst (fst key)) (session (imaging db))) (\<lambda>s.
     bind_err (fetch1 (\<lambda>k. k = fst key) (scan (imaging db))) (\<lambda>sc.
     bind_err (imread (tif_files (imaging db)) (path_join (data_path s) (file_name sc))) (\<lambda>im.
     case im of
       Nd2 _ \<Rightarrow> Inl ValueError
     | Nd3 frames \<Rightarrow>
         bind_err (insert1 (\<lambda>k. k \<in> set (keys (segmentation db))) key
                     (map (\<lambda>i. of_nat i / fps sc) [0..<length frames]) (fluorescence db)) (\<lambda>fl.
         bind_err (traces_of frames (restrict (\<lambda>k. fst k = key) (roi db))) (\<lambda>traces.
         bind_err (insert_rows (\<lambda>k. fst k \<in> set (keys fl) \<and> k \<in> set (keys (roi db))) traces (trace db))
           (\<lambda>tr. Inr (db\<lparr>fluorescence := fl, trace := tr\<rparr>)))))))"

definition fluorescence_done :: "computed_db \<Rightarrow> seg_key \<Rightarrow> bool" where
  "fluorescence_done db k \<longleftrightarrow> k \<in> set (keys (fluorescence db))"

definition fluorescence_populate :: "computed_db \<Rightarrow> computed_db \<times> error option" where
  "fluorescence_populate = populate fluorescence_make (\<lambda>db. keys (segmentation db)) fluorescence_done"

definition example_single_frame_db :: computed_db where
  "example_single_frame_db =
     example_segmented_db\<lparr>imaging := (imaging example_segmented_db)\<lparr>tif_files :=
        map_of [(''/data/example_scan_01.tif'', [hd example_frames])]\<rparr>\<rparr>"

text \<open>The inputs under which \<open>Fluorescence.make\<close> succeeds on every segmentation: its
  scan's file is a readable TIFF stack of more than one page, and every ROI mask of the
  segmentation has as many pixels as a frame.\<close>

definition fluorescence_inputs_ok :: "computed_db \<Rightarrow> bool" where
  "fluorescence_inputs_ok db \<longleftrightarrow>
     list_all (\<lambda>k. case tif_files (imaging db) (scan_file (imaging db) (fst k)) of
                     None \<Rightarrow> False
                   | Some frames \<Rightarrow> tif_ok frames \<and> length frames \<noteq> 1 \<and>
                       list_all (\<lambda>r. length (concat (snd r)) = length (hd frames) * width (hd frames))
                         (restrict (\<lambda>r. fst r = k) (roi db)))
       (keys (segmentation db))"

text \<open>The shapes the pipeline relies on between its stages: each stored average frame has
  as many pixels as a page of its scan's file, a TIFF stack of more than one page; each
  ROI mask has as many pixels as the average frame it was cut from.\<close>

definition frames_match :: "computed_db \<Rightarrow> bool" where
  "frames_match db \<longleftrightarrow>
     list_all (\<lambda>a. case tif_files (imaging db) (scan_file (imaging db) (fst a)) of
                     None \<Rightarrow> False
                   | Some frames \<Rightarrow> tif_ok frames \<and> length frames \<noteq> 1 \<and>
                       length (concat (snd a)) = length (hd frames) * width (hd frames))
       (average_frame (imaging db))"

definition roi_sizes_ok :: "computed_db \<Rightarrow> bool" where
  "roi_sizes_ok db \<longleftrightarrow>
     list_all (\<lambda>r. case map_of (average_frame (imaging db)) (fst (fst (fst r))) of
                     None \<Rightarrow> False
                   | Some avg \<Rightarrow> length (concat (snd r)) = length (concat avg))
       (roi db)"

text \<open>The trace loop of \<open>Fluorescence.make\<close> in closed form: one trace per ROI, unless a
  mask does not have the frame's number of pixels.\<close>

lemma traces_of_eq:
  "traces_of frames rs =
     (if list_all (\<lambda>r. length (concat (snd r)) = length (hd frames) * width (hd frames)) rs
      then Inr (map (\<lambda>(k, m). (k, map (\<lambda>f. mean_list (masked (concat f) (concat m))) frames)) rs)
      else Inl ValueError)"
  by (induction frames rs rule: traces_of.induct) (auto simp: roi_trace_def)

lemma fluorescence_make_eq:
  assumes wf: "computed_wf db" and seg: "key \<in> set (keys (segmentation db))"
    and sc: "map_of (scan (imaging db)) (fst key) = Some sc"
  shows "fluorescence_make key db =
    bind_err (imread (tif_files (imaging db)) (scan_file (imaging db) (fst key))) (\<lambda>im.
      case im of
        Nd2 _ \<Rightarrow> Inl ValueError
      | Nd3 frames \<Rightarrow>
          if fluorescence_done db key then Inl DuplicateError
          else bind_err (traces_of frames (restrict (\<lambda>k. fst k = key) (roi db))) (\<lambda>traces.
            Inr (db\<lparr>fluorescence := fluorescence db @ [(key, map (\<lambda>i. of_nat i / fps sc) [0..<length frames])],
                    trace := trace db @ traces\<rparr>)))"
proof -
  have iw: "imaging_wf (imaging db)" using wf by (simp add: computed_wf_def)
  have "fst key \<in> set (keys (scan (imaging db)))" using sc by (rule map_of_Some_keys)
  then obtain s where s: "map_of (session (imaging db)) (fst (fst key)) = Some s"
    using imaging_wf_scan_session [OF iw] by blast
  from iw have d1: "distinct (keys (session (imaging db)))" and d2: "distinct (keys (scan (imaging db)))"
    by (simp_all add: imaging_wf_def)
  from wf have dr: "distinct (keys (roi db))"
    and ft: "\<forall>k \<in> set (keys (trace db)). fst k \<in> set (keys (fluorescence db))"
    by (simp_all add: computed_wf_def list_all_iff)
  have rows: "insert_rows (\<lambda>k. (fst k = key \<or> fst k \<in> set (keys (fluorescence db))) \<and> k \<in> set (keys (roi db)))
                traces (trace db) = Inr (trace db @ traces)"
    if "key \<notin> set (keys (fluorescence db))"
      and tr: "traces_of frames (restrict (\<lambda>k. fst k = key) (roi db)) = Inr traces" for frames traces
  proof -
    from tr have kt: "map fst traces = filter (\<lambda>k. fst k = key) (keys (roi db))"
      by (auto simp: traces_of_eq comp_def case_prod_beta keys_restrict[unfolded keys_def] keys_def
          split: if_splits)
    have "distinct (map fst traces)" unfolding kt using dr by simp
    moreover have "set (map fst traces) \<inter> set (keys (trace db)) = {}"
      unfolding kt using that(1) ft by auto
    moreover have "list_all (\<lambda>r. (fst (fst r) = key \<or> fst (fst r) \<in> set (keys (fluorescence db))) \<and>
        fst r \<in> set (keys (roi db))) traces"
      using kt by (fastforce simp: list_all_iff dest: arg_cong [where f = set])
    ultimately show ?thesis by (simp add: insert_rows_Inr_iff)
  qed
  have sf: "scan_file (imaging db) (fst key) = path_join (data_path s) (file_name sc)"
    by (simp add: scan_file_def s sc)
  show ?thesis
  proof (cases "imread (tif_files (imaging db)) (path_join (data_path s) (file_name sc))")
    case (Inr im)
    with seg show ?thesis
      unfolding fluorescence_make_def fetch1_key [OF d1] fetch1_key [OF d2] s sc sf
      by (cases im) (auto simp: insert1_def fluorescence_done_def rows bind_err_def split: sum.split)
  next
    case (Inl e)
    then show ?thesis
      unfolding fluorescence_make_def fetch1_key [OF d1] fetch1_key [OF d2] s sc sf by simp
  qed
qed

lemma set_masked: "set (masked xs bs) \<subseteq> set xs"
  by (auto simp: masked_def dest: set_zip_leftD)

lemma sum_list_bounds:
  "\<forall>x \<in> set xs. lo \<le> x \<and> x \<le> hi \<Longrightarrow>
   of_nat (length xs) * lo \<le> sum_list xs \<and> sum_list xs \<le> of_nat (length xs) * (hi :: rat)"
proof (induction xs)
  case (Cons x xs)
  then have "lo \<le> x" "x \<le> hi" "of_nat (length xs) * lo \<le> sum_list xs"
    "sum_list xs \<le> of_nat (length xs) * hi"
    by simp_all
  then show ?case by (simp add: distrib_right add_mono)
qed simp

lemma mean_list_bounds:
  assumes "xs \<noteq> []" and "\<forall>x \<in> set xs. lo \<le> x \<and> x \<le> hi"
  shows "lo \<le> mean_list xs \<and> mean_list xs \<le> hi"
proof -
  have n: "0 < (of_nat (length xs) :: rat)" using assms(1) by simp
  from sum_list_bounds [OF assms(2)] n show ?thesis
    by (simp add: mean_list_def pos_le_divide_eq pos_divide_le_eq mult.commute)
qed

lemma imread_frames:
  "tif_files db path = Some frames \<Longrightarrow> tif_ok frames \<Longrightarrow> length frames \<noteq> 1 \<Longrightarrow>
   imread (tif_files db) path = Inr (Nd3 frames)"
  by (simp add: imread_def)

text \<open>C16. \<open>Fluorescence.make\<close> on a segmentation without traces, whose scan file is a
  readable TIFF stack whose frames have as many pixels as the ROI masks, inserts the
  master row \<open>time = range(n) / fps\<close> and, for every ROI of the segmentation in order, the
  trace whose value at frame \<open>t\<close> is the mean of frame \<open>t\<close> over the ROI's pixels.\<close>

theorem fluorescence_make_traces:
  assumes "computed_wf db" and "key \<in> set (keys (segmentation db))" and "\<not> fluorescence_done db key"
    and "map_of (scan (imaging db)) (fst key) = Some sc"
    and "tif_files (imaging db) (scan_file (imaging db) (fst key)) = Some frames"
    and "tif_ok frames" and "length frames \<noteq> 1"
    and "list_all (\<lambda>r. length (concat (snd r)) = length (hd frames) * width (hd frames))
           (restrict (\<lambda>k. fst k = key) (roi db))"
  shows "fluorescence_make key db =
    Inr (db\<lparr>fluorescence := fluorescence db @ [(key, map (\<lambda>i. of_nat i / fps sc) [0..<length frames])],
            trace := trace db @ map (\<lambda>(k, m). (k, map (\<lambda>f. mean_list (masked (concat f) (concat m))) frames))
                                   (restrict (\<lambda>k. fst k = key) (roi db))\<rparr>)"
proof -
  have tr: "traces_of frames (restrict (\<lambda>k. fst k = key) (roi db)) =
      Inr (map (\<lambda>(k, m). (k, map (\<lambda>f. mean_list (masked (concat f) (concat m))) frames))
             (restrict (\<lambda>k. fst k = key) (roi db)))"
    by (simp only: traces_of_eq if_P [OF assms(8)])
  show ?thesis
    by (simp only: fluorescence_make_eq [OF assms(1,2,4)] imread_frames [OF assms(5,6,7)]
        ndarray.case bind_err_simps if_not_P [OF assms(3)] tr)
qed

theorem fluorescence_make_traces_witness:
  "computed_wf example_segmented_db \<and> example_seg_key \<in> set (keys (segmentation example_segmented_db)) \<and>
   \<not> fluorescence_done example_segmented_db example_seg_key \<and>
   map_of (scan (imaging example_segmented_db)) (fst example_seg_key) =
     Some \<lparr>depth = 150, wavelength = 920, laser_power = 26, fps = 15, file_name = ''example_scan_01.tif''\<rparr> \<and>
   tif_files (imaging example_segmented_db) (scan_file (imaging example_segmented_db) (fst example_seg_key)) =
     Some example_frames \<and>
   tif_ok example_frames \<and> length example_frames \<noteq> 1 \<and>
   list_all (\<lambda>r. length (concat (snd r)) = length (hd example_frames) * width (hd example_frames))
     (restrict (\<lambda>k. fst k = example_seg_key) (roi example_segmented_db)) \<and>
   fluorescence_make example_seg_key example_segmented_db =
    Inr (example_segmented_db\<lparr>fluorescence := fluorescence example_segmented_db @
           [(example_seg_key, map (\<lambda>i. of_nat i / fps \<lparr>depth = 150, wavelength = 920, laser_power = 26,
               fps = 15, file_name = ''example_scan_01.tif''\<rparr>) [0..<length example_frames])],
         trace := trace example_segmented_db @
           map (\<lambda>(k, m). (k, map (\<lambda>f. mean_list (masked (concat f) (concat m))) example_frames))
             (restrict (\<lambda>k. fst k = example_seg_key) (roi example_segmented_db))\<rparr>)"
proof -
  have h1: "computed_wf example_segmented_db" by code_simp
  have h2: "example_seg_key \<in> set (keys (segmentation example_segmented_db))" by code_simp
  have h3: "\<not> fluorescence_done example_segmented_db example_seg_key" by code_simp
  have h4: "map_of (scan (imaging example_segmented_db)) (fst example_seg_key) =
     Some \<lparr>depth = 150, wavelength = 920, laser_power = 26, fps = 15, file_name = ''example_scan_01.tif''\<rparr>"
    by code_simp
  have h5: "tif_files (imaging example_segmented_db) (scan_file (imaging example_segmented_db) (fst example_seg_key)) =
     Some example_frames" by code_simp
  have h6: "tif_ok example_frames" by code_simp
  have h7: "length example_frames \<noteq> 1" by code_simp
  have h8: "list_all (\<lambda>r. length (concat (snd r)) = length (hd example_frames) * width (hd example_frames))
     (restrict (\<lambda>k. fst k = example_seg_key) (roi example_segmented_db))" by code_simp
  show ?thesis using fluorescence_make_traces [OF h1 h2 h3 h4 h5 h6 h7 h8] h1 h2 h3 h4 h5 h6 h7 h8 by blast
qed

text \<open>C17. A scan stored as a single-page TIFF passes \<open>AverageFrame.make\<close> and stops the
  pipeline at \<open>Fluorescence.make\<close>: \<open>io.imread\<close> returns a 2-D array, \<open>np.mean(im,
  axis=0)\<close> of it is stored as the scan's average frame, and on any database built on
  that AverageFrame, \<open>Fluorescence.make\<close> of every segmentation of the scan raises
  \<open>ValueError\<close>, because \<open>n, w, h = np.shape(im)\<close> cannot unpack two values.\<close>

theorem fluorescence_make_single_frame:
  assumes wf: "imaging_wf idb" and k: "k \<in> set (keys (scan idb))" and new: "\<not> average_frame_done idb k"
    and page: "tif_files idb (scan_file idb k) = Some [g]" and "rect g"
  shows "average_frame_make k idb =
           Inr (idb\<lparr>average_frame := average_frame idb @ [(k, np_mean_axis0 (Nd2 g))]\<rparr>) \<and>
         (\<forall>db key. imaging db = idb\<lparr>average_frame := average_frame idb @ [(k, np_mean_axis0 (Nd2 g))]\<rparr> \<longrightarrow>
            computed_wf db \<longrightarrow> key \<in> set (keys (segmentation db)) \<longrightarrow> fst key = k \<longrightarrow>
            fluorescence_make key db = Inl ValueError)"
proof
  have rd: "imread (tif_files idb) (scan_file idb k) = Inr (Nd2 g)"
    using page \<open>rect g\<close> by (simp add: imread_def tif_ok_def)
  then show "average_frame_make k idb =
      Inr (idb\<lparr>average_frame := average_frame idb @ [(k, np_mean_axis0 (Nd2 g))]\<rparr>)"
    using new by (simp add: average_frame_make_eq [OF wf k])
  show "\<forall>db key. imaging db = idb\<lparr>average_frame := average_frame idb @ [(k, np_mean_axis0 (Nd2 g))]\<rparr> \<longrightarrow>
      computed_wf db \<longrightarrow> key \<in> set (keys (segmentation db)) \<longrightarrow> fst key = k \<longrightarrow>
      fluorescence_make key db = Inl ValueError"
  proof (intro allI impI)
    fix db key
    assume im: "imaging db = idb\<lparr>average_frame := average_frame idb @ [(k, np_mean_axis0 (Nd2 g))]\<rparr>"
      and cw: "computed_wf db" and seg: "key \<in> set (keys (segmentation db))" and fk: "fst key = k"
    obtain sc where "map_of (scan idb) k = Some sc" using map_of_key_Some [OF k] ..
    then have sc: "map_of (scan (imaging db)) (fst key) = Some sc" by (simp add: im fk)
    have "scan_file (imaging db) (fst key) = scan_file idb k" by (simp add: im fk scan_file_def)
    with rd im show "fluorescence_make key db = Inl ValueError"
      by (simp add: fluorescence_make_eq [OF cw seg sc])
  qed
qed

theorem fluorescence_make_single_frame_witness:
  "imaging_wf ((imaging example_single_frame_db)\<lparr>average_frame := []\<rparr>) \<and>
   fst example_seg_key \<in> set (keys (scan ((imaging example_single_frame_db)\<lparr>average_frame := []\<rparr>))) \<and>
   \<not> average_frame_done ((imaging example_single_frame_db)\<lparr>average_frame := []\<rparr>) (fst example_seg_key) \<and>
   tif_files ((imaging example_single_frame_db)\<lparr>average_frame := []\<rparr>)
     (scan_file ((imaging example_single_frame_db)\<lparr>average_frame := []\<rparr>) (fst example_seg_key)) =
     Some [hd example_frames] \<and>
   rect (hd example_frames) \<and>
   average_frame_make (fst example_seg_key) ((imaging example_single_frame_db)\<lparr>average_frame := []\<rparr>) =
     Inr ((imaging example_single_frame_db)\<lparr>average_frame :=
            [(fst example_seg_key, np_mean_axis0 (Nd2 (hd example_frames)))]\<rparr>)"
proof -
  have h1: "imaging_wf ((imaging example_single_frame_db)\<lparr>average_frame := []\<rparr>)" by code_simp
  have h2: "fst example_seg_key \<in> set (keys (scan ((imaging example_single_frame_db)\<lparr>average_frame := []\<rparr>)))"
    by code_simp
  have h3: "\<not> average_frame_done ((imaging example_single_frame_db)\<lparr>average_frame := []\<rparr>) (fst example_seg_key)"
    by code_simp
  have h4: "tif_files ((imaging example_single_frame_db)\<lparr>average_frame := []\<rparr>)
     (scan_file ((imaging example_single_frame_db)\<lparr>average_frame := []\<rparr>) (fst example_seg_key)) =
     Some [hd example_frames]" by code_simp
  have h5: "rect (hd example_frames)" by code_simp
  show ?thesis using fluorescence_make_single_frame [OF h1 h2 h3 h4 h5] h1 h2 h3 h4 h5 by simp
qed

text \<open>C18. Every value of a trace lies within the range of the pixel values of its frame,
  when the ROI's mask selects at least one pixel of that frame.\<close>

theorem roi_trace_bounds:
  assumes "roi_trace frames m = Inr tr" and "t < length tr"
    and "masked (concat (frames ! t)) (concat m) \<noteq> []"
    and "\<forall>x \<in> set (concat (frames ! t)). lo \<le> x \<and> x \<le> hi"
  shows "lo \<le> tr ! t \<and> tr ! t \<le> hi"
proof -
  from assms(1) have tr: "tr = map (\<lambda>f. mean_list (masked (concat f) (concat m))) frames"
    unfolding roi_trace_def by (simp only: sum.inject sum.distinct split: if_splits)
  have t: "t < length frames" using assms(2) tr by simp
  have trt: "tr ! t = mean_list (masked (concat (frames ! t)) (concat m))" using t tr by simp
  have b: "\<forall>x \<in> set (masked (concat (frames ! t)) (concat m)). lo \<le> x \<and> x \<le> hi"
  proof
    fix x
    assume "x \<in> set (masked (concat (frames ! t)) (concat m))"
    then have "x \<in> set (concat (frames ! t))" by (rule subsetD [OF set_masked])
    with assms(4) show "lo \<le> x \<and> x \<le> hi" by blast
  qed
  show ?thesis unfolding trt by (rule mean_list_bounds [OF assms(3) b])
qed

theorem roi_trace_bounds_witness:
  "roi_trace example_frames [[True, True, False, False], [False, True, False, False], [False, False, False, False]] =
     Inr [70, 72] \<and> 0 < length [70, 72::rat] \<and>
   masked (concat (example_frames ! 0))
     (concat [[True, True, False, False], [False, True, False, False], [False, False, False, False]]) \<noteq> [] \<and>
   list_all (\<lambda>x. 0 \<le> x \<and> x \<le> 95) (concat (example_frames ! 0)) \<and>
   0 \<le> [70, 72::rat] ! 0 \<and> [70, 72::rat] ! 0 \<le> 95"
proof -
  have h1: "roi_trace example_frames [[True, True, False, False], [False, True, False, False], [False, False, False, False]] =
     Inr [70, 72]" by code_simp
  have h2: "0 < length [70, 72::rat]" by simp
  have h3: "masked (concat (example_frames ! 0))
     (concat [[True, True, False, False], [False, True, False, False], [False, False, False, False]]) \<noteq> []"
    by code_simp
  have h4: "list_all (\<lambda>x. 0 \<le> x \<and> x \<le> (95::rat)) (concat (example_frames ! 0))" by code_simp
  show ?thesis using roi_trace_bounds [OF h1 h2 h3 h4 [unfolded list_all_iff]] h1 h2 h3 h4 by blast
qed

lemma fluorescence_make_Inr:
  assumes wf: "computed_wf db" and mk: "fluorescence_make key db = Inr db'"
  obtains sc frames where "map_of (scan (imaging db)) (fst key) = Some sc"
    and "key \<in> set (keys (segmentation db))" and "\<not> fluorescence_done db key"
    and "imread (tif_files (imaging db)) (scan_file (imaging db) (fst key)) = Inr (Nd3 frames)"
    and "list_all (\<lambda>r. length (concat (snd r)) = length (hd frames) * width (hd frames))
           (restrict (\<lambda>k. fst k = key) (roi db))"
    and "db' = db\<lparr>fluorescence := fluorescence db @ [(key, map (\<lambda>i. of_nat i / fps sc) [0..<length frames])],
                  trace := trace db @ map (\<lambda>(k, m). (k, map (\<lambda>f. mean_list (masked (concat f) (concat m))) frames))
                                          (restrict (\<lambda>k. fst k = key) (roi db))\<rparr>"
proof -
  from wf have d2: "distinct (keys (scan (imaging db)))"
    by (simp add: computed_wf_def imaging_wf_def)
  obtain sc where sc: "map_of (scan (imaging db)) (fst key) = Some sc"
  proof (cases "map_of (scan (imaging db)) (fst key)")
    case None
    with mk show ?thesis
      by (simp add: fluorescence_make_def fetch1_key [OF d2] bind_err_def split: sum.splits)
  qed
  have seg: "key \<in> set (keys (segmentation db))"
  proof (rule ccontr)
    assume "key \<notin> set (keys (segmentation db))"
    with mk show False
      by (auto simp: fluorescence_make_def insert1_def bind_err_def split: sum.splits ndarray.splits)
  qed
  from mk obtain frames where
    im: "imread (tif_files (imaging db)) (scan_file (imaging db) (fst key)) = Inr (Nd3 frames)"
    unfolding fluorescence_make_eq [OF wf seg sc]
    by (auto simp: bind_err_def split: sum.splits ndarray.splits)
  from mk have "\<not> fluorescence_done db key"
    and "list_all (\<lambda>r. length (concat (snd r)) = length (hd frames) * width (hd frames))
           (restrict (\<lambda>k. fst k = key) (roi db))"
    and "db' = db\<lparr>fluorescence := fluorescence db @ [(key, map (\<lambda>i. of_nat i / fps sc) [0..<length frames])],
                  trace := trace db @ map (\<lambda>(k, m). (k, map (\<lambda>f. mean_list (masked (concat f) (concat m))) frames))
                                          (restrict (\<lambda>k. fst k = key) (roi db))\<rparr>"
    unfolding fluorescence_make_eq [OF wf seg sc] im traces_of_eq
    by (simp_all split: if_splits)
  with that sc seg im show ?thesis by blast
qed

lemma keys_map_snd: "keys (map (\<lambda>(k, v). (k, f k v)) t) = keys t"
  by (induction t) (auto simp: keys_def)

lemma fluorescence_make_wf:
  assumes wf: "computed_wf db" and mk: "fluorescence_make key db = Inr db'"
  shows "computed_wf db'"
proof -
  obtain sc frames where "map_of (scan (imaging db)) (fst key) = Some sc"
    and seg: "key \<in> set (keys (segmentation db))" and new: "\<not> fluorescence_done db key"
    and "imread (tif_files (imaging db)) (scan_file (imaging db) (fst key)) = Inr (Nd3 frames)"
    and "list_all (\<lambda>r. length (concat (snd r)) = length (hd frames) * width (hd frames))
           (restrict (\<lambda>k. fst k = key) (roi db))"
    and db': "db' = db\<lparr>fluorescence := fluorescence db @ [(key, map (\<lambda>i. of_nat i / fps sc) [0..<length frames])],
                  trace := trace db @ map (\<lambda>(k, m). (k, map (\<lambda>f. mean_list (masked (concat f) (concat m))) frames))
                                          (restrict (\<lambda>k. fst k = key) (roi db))\<rparr>"
    by (rule fluorescence_make_Inr [OF wf mk])
  let ?new = "map (\<lambda>(k, m). (k, map (\<lambda>f. mean_list (masked (concat f) (concat m))) frames))
                (restrict (\<lambda>k. fst k = key) (roi db))"
  have kn: "keys ?new = filter (\<lambda>k. fst k = key) (keys (roi db))"
    by (simp add: keys_map_snd keys_restrict)
  from wf have dr: "distinct (keys (roi db))" and dt: "distinct (keys (trace db))"
    and ft: "\<forall>k \<in> set (keys (trace db)). fst k \<in> set (keys (fluorescence db))"
    by (simp_all add: computed_wf_def list_all_iff)
  have "set (keys (trace db)) \<inter> set (keys ?new) = {}"
  proof -
    have "fst x \<noteq> key" if "x \<in> set (keys (trace db))" for x
      using that ft new by (auto simp: fluorescence_done_def)
    then show ?thesis unfolding kn set_filter by blast
  qed
  with dr dt have "distinct (keys (trace db) @ keys ?new)"
    unfolding distinct_append kn by simp
  note dtr = this
  have fk: "\<forall>k \<in> set (keys (trace db) @ keys ?new).
      fst k \<in> set (keys (fluorescence db) @ [key]) \<and> k \<in> set (keys (roi db))"
  proof
    fix k
    assume "k \<in> set (keys (trace db) @ keys ?new)"
    then consider (old) "k \<in> set (keys (trace db))" | (fresh) "k \<in> set (keys ?new)"
      unfolding set_append by blast
    then show "fst k \<in> set (keys (fluorescence db) @ [key]) \<and> k \<in> set (keys (roi db))"
    proof cases
      case old
      with wf have "fst k \<in> set (keys (fluorescence db)) \<and> k \<in> set (keys (roi db))"
        unfolding computed_wf_def list_all_iff by blast
      then show ?thesis by simp
    next
      case fresh
      then show ?thesis by (simp add: kn)
    qed
  qed
  have ff: "\<forall>k \<in> set (keys (fluorescence db) @ [key]). k \<in> set (keys (segmentation db))"
    using wf seg unfolding computed_wf_def list_all_iff by simp
  have eq: "imaging db' = imaging db" "segmentation_param db' = segmentation_param db"
    "segmentation db' = segmentation db" "roi db' = roi db"
    "keys (fluorescence db') = keys (fluorescence db) @ [key]"
    "keys (trace db') = keys (trace db) @ keys ?new"
    by (simp_all add: db' keys_def)
  have "distinct (keys (fluorescence db) @ [key])"
    using wf new by (simp add: computed_wf_def fluorescence_done_def)
  with wf dtr fk ff show ?thesis
    unfolding computed_wf_def eq list_all_iff
    by (elim conjE, intro conjI) assumption+
qed

lemma fluorescence_populate_wf:
  "computed_wf db \<Longrightarrow> computed_wf (fst (fluorescence_populate db))"
  unfolding fluorescence_populate_def
  by (rule populate_preserves [where Q = computed_wf]) (auto intro: fluorescence_make_wf)

lemma fluorescence_contract:
  "make_contract
     (\<lambda>d. computed_wf d \<and> imaging d = imaging db0 \<and> segmentation d = segmentation db0 \<and> roi d = roi db0)
     (\<lambda>_. True) fluorescence_make fluorescence_done"
  unfolding make_contract_def
proof (intro allI impI)
  fix k d d'
  assume P: "computed_wf d \<and> imaging d = imaging db0 \<and> segmentation d = segmentation db0 \<and> roi d = roi db0"
    and "True" and mk: "fluorescence_make k d = Inr d'"
  from P have wf: "computed_wf d" by simp
  obtain sc frames where "map_of (scan (imaging d)) (fst k) = Some sc"
    and "k \<in> set (keys (segmentation d))" and "\<not> fluorescence_done d k"
    and "imread (tif_files (imaging d)) (scan_file (imaging d) (fst k)) = Inr (Nd3 frames)"
    and "list_all (\<lambda>r. length (concat (snd r)) = length (hd frames) * width (hd frames))
           (restrict (\<lambda>r. fst r = k) (roi d))"
    and d': "d' = d\<lparr>fluorescence := fluorescence d @ [(k, map (\<lambda>i. of_nat i / fps sc) [0..<length frames])],
                  trace := trace d @ map (\<lambda>(k, m). (k, map (\<lambda>f. mean_list (masked (concat f) (concat m))) frames))
                                          (restrict (\<lambda>r. fst r = k) (roi d))\<rparr>"
    by (rule fluorescence_make_Inr [OF wf mk])
  with P fluorescence_make_wf [OF wf mk]
  show "(computed_wf d' \<and> imaging d' = imaging db0 \<and> segmentation d' = segmentation db0 \<and> roi d' = roi db0) \<and>
        fluorescence_done d' k \<and> (\<forall>k'. fluorescence_done d k' \<longrightarrow> fluorescence_done d' k')"
    by (simp add: fluorescence_done_def keys_def)
qed

lemma fluorescence_make_total:
  assumes wf: "computed_wf d" and ok: "fluorescence_inputs_ok d"
    and seg: "k \<in> set (keys (segmentation d))" and new: "\<not> fluorescence_done d k"
  shows "\<exists>d'. fluorescence_make k d = Inr d'"
proof -
  from ok seg obtain frames where f: "tif_files (imaging d) (scan_file (imaging d) (fst k)) = Some frames"
    and t: "tif_ok frames" and n: "length frames \<noteq> 1"
    and m: "list_all (\<lambda>r. length (concat (snd r)) = length (hd frames) * width (hd frames))
              (restrict (\<lambda>r. fst r = k) (roi d))"
    unfolding fluorescence_inputs_ok_def list_all_iff by (auto split: option.splits)
  from wf seg have "fst k \<in> set (keys (average_frame (imaging d)))"
    and iw: "imaging_wf (imaging d)"
    by (auto simp: computed_wf_def list_all_iff)
  with iw have "fst k \<in> set (keys (scan (imaging d)))" by (auto simp: imaging_wf_def list_all_iff)
  then obtain sc where sc: "map_of (scan (imaging d)) (fst k) = Some sc"
    using map_of_key_Some by metis
  have tr: "traces_of frames (restrict (\<lambda>r. fst r = k) (roi d)) =
      Inr (map (\<lambda>(k, m). (k, map (\<lambda>f. mean_list (masked (concat f) (concat m))) frames))
             (restrict (\<lambda>r. fst r = k) (roi d)))"
    by (simp only: traces_of_eq if_P [OF m])
  show ?thesis
    by (simp only: fluorescence_make_eq [OF wf seg sc] imread_frames [OF f t n]
        ndarray.case bind_err_simps if_not_P [OF new] tr) blast
qed

lemma fluorescence_populate_run:
  assumes "computed_wf db" and "fluorescence_inputs_ok db"
  shows "\<exists>db'. fluorescence_populate db = (db', None) \<and> computed_wf db' \<and>
           imaging db' = imaging db \<and> segmentation db' = segmentation db \<and> roi db' = roi db \<and>
           list_all (fluorescence_done db') (keys (segmentation db))"
proof -
  have P0: "computed_wf db \<and> imaging db = imaging db \<and> segmentation db = segmentation db \<and> roi db = roi db"
    using assms(1) by simp
  have K: "list_all (\<lambda>_. True) (keys (segmentation db))" by (simp add: list_all_iff)
  have total: "\<exists>d''. fluorescence_make k d' = Inr d''"
    if "computed_wf d' \<and> imaging d' = imaging db \<and> segmentation d' = segmentation db \<and> roi d' = roi db"
      and "k \<in> set (keys (segmentation db))" and "\<not> fluorescence_done d' k" for k d'
  proof -
    from that(1) have e: "imaging d' = imaging db" "segmentation d' = segmentation db" "roi d' = roi db"
      by simp_all
    from assms(2) have "fluorescence_inputs_ok d'" unfolding fluorescence_inputs_ok_def e .
    with that show ?thesis using fluorescence_make_total by auto
  qed
  from populate_complete [where key_source = "\<lambda>d. keys (segmentation d)",
      OF fluorescence_contract P0 K total]
  show ?thesis by (auto simp: fluorescence_populate_def)
qed

text \<open>C20. \<open>Fluorescence.populate()\<close> terminates the work it is given: on a well-formed
  database whose scan files are TIFF stacks matching the ROI masks, it raises nothing,
  leaves the imaging tables, Segmentation and Roi as they were, keeps the database
  well-formed, and every segmentation has its fluorescence.\<close>

theorem fluorescence_populate_complete:
  assumes "computed_wf db" and "fluorescence_inputs_ok db"
  shows "\<exists>db'. fluorescence_populate db = (db', None) \<and> computed_wf db' \<and>
           imaging db' = imaging db \<and> segmentation db' = segmentation db \<and> roi db' = roi db \<and>
           list_all (fluorescence_done db') (keys (segmentation db))"
  using fluorescence_populate_run [OF assms] .

theorem fluorescence_populate_complete_witness:
  "computed_wf example_segmented_db \<and> fluorescence_inputs_ok example_segmented_db \<and>
   (\<exists>db'. fluorescence_populate example_segmented_db = (db', None) \<and> computed_wf db' \<and>
      imaging db' = imaging example_segmented_db \<and> segmentation db' = segmentation example_segmented_db \<and>
      roi db' = roi example_segmented_db \<and>
      list_all (fluorescence_done db') (keys (segmentation example_segmented_db)))"
proof -
  have h1: "computed_wf example_segmented_db" by code_simp
  have h2: "fluorescence_inputs_ok example_segmented_db" by code_simp
  show ?thesis using fluorescence_populate_complete [OF h1 h2] h1 h2 by blast
qed

lemma length_concat_const: "list_all (\<lambda>row. length row = w) g \<Longrightarrow> length (concat g) = length g * w"
  by (induction g) simp_all

lemma length_concat_rect: "rect g \<Longrightarrow> length (concat g) = length g * width g"
  unfolding rect_def by (rule length_concat_const)

lemma length_concat_map_map: "length (concat (map (map f) g)) = length (concat g)"
  by (simp add: length_concat comp_def)

text \<open>\<open>Segmentation.make\<close> cuts masks of the shape of the average frame, so it keeps
  every ROI mask the size of its frame.\<close>

lemma segmentation_make_roi_sizes:
  assumes wf: "computed_wf db" and fr: "frames_rect db" and rs: "roi_sizes_ok db"
    and mk: "segmentation_make key db = Inr db'"
  shows "roi_sizes_ok db'"
proof -
  obtain avg p g rs where a: "map_of (average_frame (imaging db)) (fst key) = Some avg"
    and "map_of (segmentation_param db) (snd key) = Some p"
    and sg: "segment avg (threshold p) (size_cutoff p) = Inr (g, rs)"
    and "key \<notin> set (keys (segmentation db))"
    and db': "db' = db\<lparr>segmentation := segmentation db @ [(key, g)],
                  roi := roi db @ map (\<lambda>(i, m). ((key, i), m)) rs\<rparr>"
    by (rule segmentation_make_Inr [OF wf mk])
  have ra: "rect avg" using frames_rect_map_of [OF fr a] .
  obtain li nb where lab: "ndimage_label (threshold_mask avg (threshold p)) = (li, nb)" by fastforce
  from segment_Inr [OF ra sg] lab have g: "g = filter_small li (size_cutoff p)" and rsg: "rs = rois_of g"
    by simp_all
  have "length (concat li) = length (concat avg)"
  proof -
    have "length (concat li) = length li * width li"
      by (rule length_concat_rect [OF ndimage_label_shape(3) [OF lab]])
    also have "\<dots> = length avg * width avg"
      using ndimage_label_shape(1,2) [OF lab] by (simp add: threshold_mask_def)
    also have "\<dots> = length (concat avg)" by (rule length_concat_rect [OF ra, symmetric])
    finally show ?thesis .
  qed
  then have lg: "length (concat g) = length (concat avg)"
    unfolding g filter_small_def length_concat_map_map .
  have new: "length (concat m) = length (concat avg)" if "(i, m) \<in> set rs" for i m
  proof -
    from that have "m = map (map (\<lambda>x. x = i)) g" by (simp add: rsg rois_of_mem)
    then show ?thesis by (simp only: length_concat_map_map lg)
  qed
  have im: "imaging db' = imaging db" by (simp add: db')
  have ro: "roi db' = roi db @ map (\<lambda>(i, m). ((key, i), m)) rs" by (simp add: db')
  have "list_all (\<lambda>r. case map_of (average_frame (imaging db)) (fst (fst (fst r))) of
                     None \<Rightarrow> False | Some avg \<Rightarrow> length (concat (snd r)) = length (concat avg))
          (map (\<lambda>(i, m). ((key, i), m)) rs)"
    using new a by (auto simp: list_all_iff)
  with rs show ?thesis
    unfolding roi_sizes_ok_def im ro list_all_append by simp
qed

lemma segmentation_populate_roi_sizes:
  assumes "computed_wf db" and "frames_rect db" and "roi_sizes_ok db"
  shows "roi_sizes_ok (fst (segmentation_populate db))"
proof -
  let ?Q = "\<lambda>d. computed_wf d \<and> imaging d = imaging db \<and> roi_sizes_ok d"
  have "?Q (fst (segmentation_populate db))"
    unfolding segmentation_populate_def
  proof (rule populate_preserves [where Q = ?Q])
    fix k d d'
    assume Q: "?Q d" and mk: "segmentation_make k d = Inr d'"
    then have wf: "computed_wf d" by simp
    obtain avg p g rs where "map_of (average_frame (imaging d)) (fst k) = Some avg"
      and "map_of (segmentation_param d) (snd k) = Some p"
      and "segment avg (threshold p) (size_cutoff p) = Inr (g, rs)"
      and "k \<notin> set (keys (segmentation d))"
      and d': "d' = d\<lparr>segmentation := segmentation d @ [(k, g)],
                    roi := roi d @ map (\<lambda>(i, m). ((k, i), m)) rs\<rparr>"
      by (rule segmentation_make_Inr [OF wf mk])
    have fr: "frames_rect d" using Q assms(2) by (simp add: frames_rect_def)
    have "roi_sizes_ok d'" using segmentation_make_roi_sizes [OF wf fr _ mk] Q by simp
    with Q d' segmentation_make_wf [OF wf mk] show "?Q d'" by simp
  qed (simp add: assms(1,3))
  then show ?thesis by simp
qed

text \<open>Between the two stages: what \<open>Segmentation.populate()\<close> leaves is an input on
  which \<open>Fluorescence.make\<close> succeeds for every segmentation.\<close>

lemma fluorescence_inputs_ok_intro:
  assumes wf: "computed_wf db" and fm: "frames_match db" and rs: "roi_sizes_ok db"
  shows "fluorescence_inputs_ok db"
  unfolding fluorescence_inputs_ok_def list_all_iff
proof
  fix k
  assume k: "k \<in> set (keys (segmentation db))"
  from wf k have "fst k \<in> set (keys (average_frame (imaging db)))"
    by (auto simp: computed_wf_def list_all_iff)
  then obtain avg where a: "map_of (average_frame (imaging db)) (fst k) = Some avg"
    using map_of_key_Some by metis
  have "case tif_files (imaging db) (scan_file (imaging db) (fst k)) of None \<Rightarrow> False
        | Some frames \<Rightarrow> tif_ok frames \<and> length frames \<noteq> 1 \<and>
            length (concat avg) = length (hd frames) * width (hd frames)"
    using bspec [OF fm [unfolded frames_match_def list_all_iff] map_of_SomeD [OF a]] by (simp only: fst_conv snd_conv)
  then obtain frames where f: "tif_files (imaging db) (scan_file (imaging db) (fst k)) = Some frames"
    and t: "tif_ok frames" and n: "length frames \<noteq> 1"
    and l: "length (concat avg) = length (hd frames) * width (hd frames)"
    by (auto split: option.splits)
  have "length (concat (snd r)) = length (hd frames) * width (hd frames)"
    if "r \<in> set (restrict (\<lambda>r. fst r = k) (roi db))" for r
  proof -
    obtain rk m where r: "r = (rk, m)" by fastforce
    with that have "(rk, m) \<in> set (roi db)" and "fst rk = k" by (simp_all add: restrict_mem)
    with rs a have "length (concat m) = length (concat avg)"
      unfolding roi_sizes_ok_def list_all_iff by fastforce
    with l r show ?thesis by simp
  qed
  with f t n show "case tif_files (imaging db) (scan_file (imaging db) (fst k)) of None \<Rightarrow> False
        | Some frames \<Rightarrow> tif_ok frames \<and> length frames \<noteq> 1 \<and>
            (\<forall>r \<in> set (restrict (\<lambda>r. fst r = k) (roi db)).
               length (concat (snd r)) = length (hd frames) * width (hd frames))"
    by simp
qed


end
