(* ===== verification/ComputedRun.thy ===== *)
theory ComputedRun
  imports Fluorescence
begin

text \<open>
  The cells of the computed-tables notebook (\<open>src/unnamed/part_001\<close>) that change the
  database, as operations on \<open>Computed.computed_db\<close>: inserting a parameter set, the
  \<open>populate\<close> calls of \<open>Segmentation\<close> and \<open>Fluorescence\<close>, and the two cascading
  deletes. DataJoint's \<open>delete()\<close> asks for confirmation before it commits: a delete
  cell carries the answer, and a delete answered No changes nothing (the notebook's first
  delete, \<open># Select 'No' when it pops up\<close>). A cell that raises leaves the database as the
  last committed transaction left it. The states reachable from a database by any sequence
  of these cells are an inductive predicate; in all of them the computed tables keep the
  promise that their rows are what \<open>make\<close> computes from the
  rows they depend on (\<open>seg_faithful\<close>, \<open>roi_faithful\<close>), shown one operation at a time
  and then by rule induction.
\<close>

datatype computed_op =
    InsertSegParam int seg_param_row
  | PopulateSegmentation
  | PopulateFluorescence
  | DeleteSegmentation "seg_key \<Rightarrow> bool" bool
  | DeleteSegParam "int \<Rightarrow> bool" bool

fun computed_step :: "computed_op \<Rightarrow> computed_db \<Rightarrow> computed_db \<times> error option" where
  "computed_step (InsertSegParam k row) db = cell_result db (seg_param_insert1 k row db)"
| "computed_step PopulateSegmentation db = segmentation_populate db"
| "computed_step PopulateFluorescence db = fluorescence_populate db"
| "computed_step (DeleteSegmentation cond yes) db =
     (if yes then delete_segmentation cond db else db, None)"
| "computed_step (DeleteSegParam cond yes) db = (if yes then delete_seg_param cond db else db, None)"

fun computed_run :: "computed_op list \<Rightarrow> computed_db \<Rightarrow> computed_db" where
  "computed_run [] db = db"
| "computed_run (op # ops) db = computed_run ops (fst (computed_step op db))"

inductive computed_reach :: "computed_db \<Rightarrow> computed_db \<Rightarrow> bool" where
  start: "computed_reach db0 db0"
| step: "computed_reach db0 db \<Longrightarrow> computed_reach db0 (fst (computed_step op db))"

text \<open>The notebook's cells in order: a first \<open>populate\<close> with no parameter set, the
  parameter set 0, \<open>populate\<close>, the parameter set 1, \<open>populate\<close> of the missing
  entries, the delete of Segmentation's rows of parameter set 0 answered No, the
  confirmed cascading delete of parameter set 0, and \<open>Fluorescence.populate()\<close>.\<close>

definition notebook_computed_ops :: "computed_op list" where
  "notebook_computed_ops =
     [PopulateSegmentation,
      InsertSegParam 0 \<lparr>threshold = 50, size_cutoff = 50\<rparr>, PopulateSegmentation,
      InsertSegParam 1 \<lparr>threshold = 60, size_cutoff = 50\<rparr>, PopulateSegmentation,
      DeleteSegmentation (\<lambda>k. snd k = 0) False, DeleteSegParam (\<lambda>k. k = 0) True,
      PopulateFluorescence]"

text \<open>What the computed tables promise about their contents: every Segmentation row holds
  what \<open>Segmentation.make\<close>'s image processing returns on its average frame and
  parameter set, and every ROI mask is the mask of its label in its segmentation's label
  image.\<close>

definition seg_expected :: "computed_db \<Rightarrow> seg_key \<Rightarrow> nat grid option" where
  "seg_expected db k =
     (case (map_of (average_frame (imaging db)) (fst k), map_of (segmentation_param db) (snd k)) of
        (Some avg, Some p) \<Rightarrow>
          (case segment avg (threshold p) (size_cutoff p) of Inl _ \<Rightarrow> None | Inr res \<Rightarrow> Some (fst res))
      | _ \<Rightarrow> None)"

definition seg_faithful :: "computed_db \<Rightarrow> bool" where
  "seg_faithful db \<longleftrightarrow> list_all (\<lambda>r. seg_expected db (fst r) = Some (snd r)) (segmentation db)"

definition roi_faithful :: "computed_db \<Rightarrow> bool" where
  "roi_faithful db \<longleftrightarrow>
     list_all (\<lambda>r. map_option (map (map (\<lambda>x. x = snd (fst r)))) (map_of (segmentation db) (fst (fst r))) =
                   Some (snd r))
       (roi db)"

lemma computed_step_wf: "computed_wf db \<Longrightarrow> computed_wf (fst (computed_step op db))"
proof (cases op)
  case (InsertSegParam k row)
  assume "computed_wf db"
  with InsertSegParam show ?thesis
    by (auto simp: cell_result_def intro: seg_param_insert1_wf split: sum.split)
qed (simp_all add: segmentation_populate_wf fluorescence_populate_wf delete_segmentation_wf
       delete_seg_param_wf)

lemma computed_reach_run: "computed_reach db0 db \<Longrightarrow> computed_reach db0 (computed_run ops db)"
  by (induction ops arbitrary: db) (auto intro: computed_reach.step)

lemma seg_expected_upd [simp]:
  "seg_expected (db\<lparr>segmentation := S\<rparr>) = seg_expected db"
  "seg_expected (db\<lparr>roi := R\<rparr>) = seg_expected db"
  "seg_expected (db\<lparr>fluorescence := F\<rparr>) = seg_expected db"
  "seg_expected (db\<lparr>trace := T\<rparr>) = seg_expected db"
  by (simp_all add: seg_expected_def fun_eq_iff)

lemma seg_expected_params_mono:
  assumes "\<And>v. map_of (segmentation_param db) (snd k) = Some v \<Longrightarrow> map_of (segmentation_param db') (snd k) = Some v"
    and "imaging db' = imaging db" and "seg_expected db k = Some g"
  shows "seg_expected db' k = Some g"
  using assms by (auto simp: seg_expected_def split: option.splits sum.splits)

lemma map_of_append_Some: "map_of t k = Some v \<Longrightarrow> map_of (t @ xs) k = Some v"
  by simp

lemma map_of_append_new:
  assumes "k \<notin> set (keys t)"
  shows "map_of (t @ [(k, v)]) k = Some v"
proof -
  from assms have "map_of t k = None" by (simp add: keys_def map_of_eq_None_iff)
  then show ?thesis by (simp add: map_add_def)
qed

text \<open>Each operation keeps both promises.\<close>

lemma seg_param_insert1_faithful:
  assumes "seg_faithful db" and "roi_faithful db" and "seg_param_insert1 k row db = Inr db'"
  shows "seg_faithful db' \<and> roi_faithful db'"
proof -
  from assms(3) have db': "db' = db\<lparr>segmentation_param := segmentation_param db @ [(k, row)]\<rparr>"
    by (auto simp: seg_param_insert1_def insert1_Inr_iff bind_err_Inr_iff)
  have "seg_expected db' s = Some g" if "seg_expected db s = Some g" for s g
    by (rule seg_expected_params_mono [OF _ _ that]) (simp_all add: db')
  with assms(1) have "seg_faithful db'"
    by (simp add: seg_faithful_def list_all_iff db')
  moreover from assms(2) have "roi_faithful db'" by (simp add: roi_faithful_def db')
  ultimately show ?thesis ..
qed

lemma segmentation_make_faithful:
  assumes wf: "computed_wf d" and sf: "seg_faithful d" and rf: "roi_faithful d"
    and mk: "segmentation_make key d = Inr d'"
  shows "seg_faithful d' \<and> roi_faithful d'"
proof -
  obtain avg p g rs where a: "map_of (average_frame (imaging d)) (fst key) = Some avg"
    and pm: "map_of (segmentation_param d) (snd key) = Some p"
    and sg: "segment avg (threshold p) (size_cutoff p) = Inr (g, rs)"
    and new: "key \<notin> set (keys (segmentation d))"
    and d': "d' = d\<lparr>segmentation := segmentation d @ [(key, g)],
                  roi := roi d @ map (\<lambda>(i, m). ((key, i), m)) rs\<rparr>"
    by (rule segmentation_make_Inr [OF wf mk])
  have e: "seg_expected d key = Some g" using a pm sg by (simp add: seg_expected_def)
  from sf e have "seg_faithful d'" by (simp add: seg_faithful_def d')
  moreover have "roi_faithful d'"
  proof -
    let ?S = "segmentation d @ [(key, g)]"
    let ?P = "\<lambda>r. map_option (map (map (\<lambda>x. x = snd (fst r)))) (map_of ?S (fst (fst r))) = Some (snd r)"
    have "?P r" if "r \<in> set (roi d)" for r
    proof -
      from rf that have "map_option (map (map (\<lambda>x. x = snd (fst r)))) (map_of (segmentation d) (fst (fst r))) =
          Some (snd r)" by (simp add: roi_faithful_def list_all_iff)
      then obtain g0 where "map_of (segmentation d) (fst (fst r)) = Some g0"
        and "snd r = map (map (\<lambda>x. x = snd (fst r))) g0" by auto
      then show ?thesis by (simp add: map_of_append_Some)
    qed
    moreover have "?P ((key, i), m)" if "(i, m) \<in> set rs" for i m
    proof -
      from that segment_rois [OF sg] have "m = map (map (\<lambda>x. x = i)) g"
        by (auto simp: roi_masks_def)
      then show ?thesis using map_of_append_new [OF new, of g] by simp
    qed
    ultimately show ?thesis by (auto simp: roi_faithful_def list_all_iff d')
  qed
  ultimately show ?thesis ..
qed

lemma fluorescence_make_faithful:
  assumes wf: "computed_wf d" and sf: "seg_faithful d" and rf: "roi_faithful d"
    and mk: "fluorescence_make key d = Inr d'"
  shows "seg_faithful d' \<and> roi_faithful d'"
proof -
  obtain sc frames where "map_of (scan (imaging d)) (fst key) = Some sc"
    and "key \<in> set (keys (segmentation d))" and "\<not> fluorescence_done d key"
    and "imread (tif_files (imaging d)) (scan_file (imaging d) (fst key)) = Inr (Nd3 frames)"
    and "list_all (\<lambda>r. length (concat (snd r)) = length (hd frames) * width (hd frames))
           (restrict (\<lambda>k. fst k = key) (roi d))"
    and d': "d' = d\<lparr>fluorescence := fluorescence d @ [(key, map (\<lambda>i. of_nat i / fps sc) [0..<length frames])],
                  trace := trace d @ map (\<lambda>(k, m). (k, map (\<lambda>f. mean_list (masked (concat f) (concat m))) frames))
                                          (restrict (\<lambda>k. fst k = key) (roi d))\<rparr>"
    by (rule fluorescence_make_Inr [OF wf mk])
  from sf rf show ?thesis by (simp add: seg_faithful_def roi_faithful_def d')
qed

lemma delete_segmentation_roi_faithful:
  assumes "roi_faithful d"
  shows "roi_faithful (delete_segmentation cond d)"
proof -
  have "map_option (map (map (\<lambda>x. x = snd (fst r))))
          (map_of (restrict (\<lambda>k. \<not> cond k) (segmentation d)) (fst (fst r))) = Some (snd r)"
    if "r \<in> set (restrict (\<lambda>k. \<not> cond (fst k)) (roi d))" for r
  proof -
    from that have r: "r \<in> set (roi d)" and c: "\<not> cond (fst (fst r))" by (auto simp: restrict_def)
    from assms r have "map_option (map (map (\<lambda>x. x = snd (fst r)))) (map_of (segmentation d) (fst (fst r))) =
        Some (snd r)" by (simp add: roi_faithful_def list_all_iff)
    with c show ?thesis by (simp add: map_of_restrict)
  qed
  then show ?thesis by (simp add: roi_faithful_def delete_segmentation_def list_all_iff)
qed

lemma delete_segmentation_faithful:
  assumes "seg_faithful d" and "roi_faithful d"
  shows "seg_faithful (delete_segmentation cond d) \<and> roi_faithful (delete_segmentation cond d)"
proof
  from assms(1) show "seg_faithful (delete_segmentation cond d)"
    by (simp add: seg_faithful_def delete_segmentation_def list_all_iff restrict_def)
  from assms(2) show "roi_faithful (delete_segmentation cond d)"
    by (rule delete_segmentation_roi_faithful)
qed

lemma delete_seg_param_faithful:
  assumes "seg_faithful d" and "roi_faithful d"
  shows "seg_faithful (delete_seg_param cond d) \<and> roi_faithful (delete_seg_param cond d)"
proof -
  let ?d1 = "d\<lparr>segmentation_param := restrict (\<lambda>k. \<not> cond k) (segmentation_param d)\<rparr>"
  have "seg_expected ?d1 (fst r) = Some (snd r)"
    if "r \<in> set (restrict (\<lambda>k. \<not> cond (snd k)) (segmentation d))" for r
  proof -
    from that have r: "r \<in> set (segmentation d)" and c: "\<not> cond (snd (fst r))" by (auto simp: restrict_def)
    from assms(1) r have e: "seg_expected d (fst r) = Some (snd r)" by (simp add: seg_faithful_def list_all_iff)
    show ?thesis
    proof (rule seg_expected_params_mono [OF _ _ e])
      fix v assume "map_of (segmentation_param d) (snd (fst r)) = Some v"
      with c show "map_of (segmentation_param ?d1) (snd (fst r)) = Some v" by (simp add: map_of_restrict)
    qed simp
  qed
  then have "seg_faithful (delete_segmentation (\<lambda>k. cond (snd k)) ?d1)"
    by (simp add: seg_faithful_def delete_segmentation_def list_all_iff)
  moreover have "roi_faithful ?d1" using assms(2) by (simp add: roi_faithful_def)
  then have "roi_faithful (delete_segmentation (\<lambda>k. cond (snd k)) ?d1)"
    by (rule delete_segmentation_roi_faithful)
  ultimately show ?thesis by (simp add: delete_seg_param_def)
qed

lemma populate_faithful:
  assumes step: "\<And>k d d'. computed_wf d \<Longrightarrow> seg_faithful d \<Longrightarrow> roi_faithful d \<Longrightarrow> mk k d = Inr d' \<Longrightarrow>
      computed_wf d' \<and> seg_faithful d' \<and> roi_faithful d'"
    and "computed_wf db" and "seg_faithful db" and "roi_faithful db"
  shows "computed_wf (fst (populate mk key_source is_done db)) \<and>
         seg_faithful (fst (populate mk key_source is_done db)) \<and>
         roi_faithful (fst (populate mk key_source is_done db))"
proof (rule populate_preserves [where Q = "\<lambda>d. computed_wf d \<and> seg_faithful d \<and> roi_faithful d"])
  fix k d d'
  assume "computed_wf d \<and> seg_faithful d \<and> roi_faithful d" and "mk k d = Inr d'"
  then show "computed_wf d' \<and> seg_faithful d' \<and> roi_faithful d'" using step by blast
qed (simp add: assms(2-4))

lemma computed_step_faithful:
  assumes "computed_wf db" and "seg_faithful db" and "roi_faithful db"
  shows "seg_faithful (fst (computed_step op db)) \<and> roi_faithful (fst (computed_step op db))"
proof (cases op)
  case (InsertSegParam k row)
  with assms(2,3) show ?thesis
    by (auto simp: cell_result_def dest: seg_param_insert1_faithful split: sum.split)
next
  case PopulateSegmentation
  have "computed_wf (fst (segmentation_populate db)) \<and> seg_faithful (fst (segmentation_populate db)) \<and>
        roi_faithful (fst (segmentation_populate db))"
    unfolding segmentation_populate_def
    by (rule populate_faithful [OF _ assms]) (simp add: segmentation_make_wf segmentation_make_faithful)
  with PopulateSegmentation show ?thesis by simp
next
  case PopulateFluorescence
  have "computed_wf (fst (fluorescence_populate db)) \<and> seg_faithful (fst (fluorescence_populate db)) \<and>
        roi_faithful (fst (fluorescence_populate db))"
    unfolding fluorescence_populate_def
    by (rule populate_faithful [OF _ assms]) (simp add: fluorescence_make_wf fluorescence_make_faithful)
  with PopulateFluorescence show ?thesis by simp
next
  case (DeleteSegmentation cond yes)
  with assms(2,3) show ?thesis by (simp add: delete_segmentation_faithful)
next
  case (DeleteSegParam cond yes)
  with assms(2,3) show ?thesis by (simp add: delete_seg_param_faithful)
qed

text \<open>C24. The computed tables hold what their \<open>make\<close> computes, whatever cells run: from
  a well-formed database whose Segmentation rows are the image processing of their average
  frame and parameter set and whose ROI masks are their labels' masks, every database
  reachable by inserting parameter sets, populating and deleting with cascade keeps both:
  no stale segmentation survives the deletion of its parameter set, and no ROI outlives or
  disagrees with its segmentation.\<close>

theorem computed_reach_faithful:
  assumes "computed_reach db0 db" and "computed_wf db0" and "seg_faithful db0" and "roi_faithful db0"
  shows "seg_faithful db \<and> roi_faithful db"
proof -
  from assms have "computed_wf db \<and> seg_faithful db \<and> roi_faithful db"
  proof (induction rule: computed_reach.induct)
    case (start db0)
    then show ?case by simp
  next
    case (step db0 db op)
    then have "computed_wf db" and "seg_faithful db" and "roi_faithful db" by simp_all
    then show ?case using computed_step_wf computed_step_faithful by blast
  qed
  then show ?thesis by simp
qed

theorem computed_reach_faithful_witness:
  "computed_reach (example_computed_db\<lparr>segmentation_param := []\<rparr>)
     (computed_run notebook_computed_ops (example_computed_db\<lparr>segmentation_param := []\<rparr>)) \<and>
   computed_wf (example_computed_db\<lparr>segmentation_param := []\<rparr>) \<and>
   seg_faithful (example_computed_db\<lparr>segmentation_param := []\<rparr>) \<and>
   roi_faithful (example_computed_db\<lparr>segmentation_param := []\<rparr>) \<and>
   seg_faithful (computed_run notebook_computed_ops (example_computed_db\<lparr>segmentation_param := []\<rparr>)) \<and>
   roi_faithful (computed_run notebook_computed_ops (example_computed_db\<lparr>segmentation_param := []\<rparr>))"
proof -
  have h1: "computed_reach (example_computed_db\<lparr>segmentation_param := []\<rparr>)
     (computed_run notebook_computed_ops (example_computed_db\<lparr>segmentation_param := []\<rparr>))"
    by (rule computed_reach_run [OF computed_reach.start])
  have h2: "computed_wf (example_computed_db\<lparr>segmentation_param := []\<rparr>)" by code_simp
  have h3: "seg_faithful (example_computed_db\<lparr>segmentation_param := []\<rparr>)" by code_simp
  have h4: "roi_faithful (example_computed_db\<lparr>segmentation_param := []\<rparr>)" by code_simp
  show ?thesis using computed_reach_faithful [OF h1 h2 h3 h4] h1 h2 h3 h4 by blast
qed

end
