(* ===== verification/Explore.thy ===== *)
theory Explore
  imports Fluorescence Ephys
begin

text \<open>
  The cells of the notebooks that read results back: \<open>(AverageFrame & key).fetch1(...)\<close>
  in \<open>src/notebooks/02-Calcium-Imaging-Imported-Tables.ipynb\<close>, and in
  \<open>src/unnamed/part_001\<close> the ROI display \<open>masks = (Segmentation.Roi).fetch('mask');
  masks[4]\<close> and the trace-plotting cell, whose key is a dict. DataJoint restricts a table
  by a dict on the dict's attributes that belong to the table's heading and ignores the
  others (documented behaviour, modelled here: the library is not in the repository).
  In \<open>src/notebooks/04-Electrophysiology-Imported-Tables.ipynb\<close>, the cells before
  \<open>Neuron\<close> is defined take the first session key, build its file name, load it and
  print its shape. The interactive segmentation cells of \<open>src/unnamed/part_001\<close> are the
  same steps as \<open>Segmentation.make\<close> on the first average frame.
  A primary key is read as the list of its named attribute values. Fetching returns rows
  in the order the table keeps them.
\<close>

datatype attr_val = VInt int | VStr string

type_synonym key_dict = "(string \<times> attr_val) list"

definition scan_key_attrs :: "scan_key \<Rightarrow> key_dict" where
  "scan_key_attrs k =
     [(''mouse_id'', VInt (fst (fst k))), (''session_date'', VStr (snd (fst k))), (''scan_idx'', VInt (snd k))]"

definition seg_key_attrs :: "seg_key \<Rightarrow> key_dict" where
  "seg_key_attrs k = scan_key_attrs (fst k) @ [(''seg_param_id'', VInt (snd k))]"

definition roi_key_attrs :: "roi_key \<Rightarrow> key_dict" where
  "roi_key_attrs k = seg_key_attrs (fst k) @ [(''roi_idx'', VInt (int (snd k)))]"

text \<open>\<open>T & d\<close> for a dict \<open>d\<close>: a row matches when it agrees with \<open>d\<close> on every attribute
  of \<open>d\<close> in the heading.\<close>

definition dict_matches :: "key_dict \<Rightarrow> key_dict \<Rightarrow> bool" where
  "dict_matches heading d \<longleftrightarrow>
     list_all (\<lambda>(a, v). case map_of heading a of None \<Rightarrow> True | Some v' \<Rightarrow> v' = v) d"

text \<open>The last cells of the imaging notebook: the key of the first scan, and the average
  frame fetched back from \<open>AverageFrame\<close>.\<close>

definition notebook_frame_key :: key_dict where
  "notebook_frame_key = [(''mouse_id'', VInt 0), (''session_date'', VStr ''2017-05-15''), (''scan_idx'', VInt 1)]"

definition fetch_average_frame :: "key_dict \<Rightarrow> imaging_db \<Rightarrow> error + rat grid" where
  "fetch_average_frame key db = fetch1 (\<lambda>k. dict_matches (scan_key_attrs k) key) (average_frame db)"

text \<open>The ROI display of the computed notebook: all masks of \<open>Segmentation.Roi\<close>, then
  the fifth of them (Python's \<open>masks[4]\<close>, \<open>IndexError\<close> when there are fewer).\<close>

definition fetch_roi_masks :: "computed_db \<Rightarrow> bool grid list" where
  "fetch_roi_masks db = map snd (roi db)"

definition show_example_roi :: "computed_db \<Rightarrow> error + bool grid" where
  "show_example_roi db =
     (let masks = fetch_roi_masks db in if 4 < length masks then Inr (masks ! 4) else Inl IndexError)"

text \<open>The trace-plotting cell: its key names \<open>session_number\<close>, which is not an attribute
  of \<open>Fluorescence\<close> (the session's key attribute is \<open>session_date\<close>); the cell then
  fetches \<open>time\<close> with \<open>fetch1\<close> and the traces with \<open>fetch\<close>, as its comments ask.\<close>

definition plot_key :: key_dict where
  "plot_key = [(''mouse_id'', VInt 0), (''session_number'', VInt 1), (''scan_idx'', VInt 1), (''seg_param_id'', VInt 1)]"

definition fetch_plot_data :: "key_dict \<Rightarrow> computed_db \<Rightarrow> error + rat list \<times> rat list list" where
  "fetch_plot_data key db =
     bind_err (fetch1 (\<lambda>k. dict_matches (seg_key_attrs k) key) (fluorescence db)) (\<lambda>time.
       Inr (time, map snd (restrict (\<lambda>k. dict_matches (roi_key_attrs k) key) (trace db))))"

definition example_two_sessions_db :: computed_db where
  "example_two_sessions_db =
     example_computed_db\<lparr>fluorescence :=
       [((((0, ''2017-05-15''), 1), 1), [0, 1 / 15]), ((((0, ''2017-05-19''), 1), 1), [0, 1 / 15])]\<rparr>"

text \<open>The exploration cells of the electrophysiology notebook: \<open>keys =
  Session.fetch('KEY')\<close>, \<open>key = keys[0]\<close> (\<open>IndexError\<close> on an empty table), the
  file name of that session, \<open>np.load\<close>, and \<open>data.shape\<close> of the 2-D array.\<close>

definition fetch_session_keys :: "ephys_db \<Rightarrow> session_key list" where
  "fetch_session_keys db = keys (ephys_session db)"

definition explore_first_session :: "ephys_db \<Rightarrow> error + nat \<times> nat" where
  "explore_first_session db =
     (let ks = fetch_session_keys db in
      if ks = [] then Inl IndexError
      else bind_err (np_load (npy_files db) (data_file_name (data_dir db) (ks ! 0))) (\<lambda>data.
             Inr (length data, width data)))"

text \<open>The interactive segmentation cells of the computed notebook, run in order before
  \<open>Segmentation\<close> is defined: \<open>keys = AverageFrame.fetch('KEY')\<close>, \<open>key = keys[0]\<close>,
  the average frame of that key, a mask at threshold 50 and then, in the next cell, at
  threshold 60 (which replaces it), labelling, the size filter with cutoff 50 and one mask
  per remaining label. (The local \<open>threshold\<close> is named \<open>thresh\<close> here: the name is
  the parameter table's attribute.)\<close>

definition interactive_segmentation :: "imaging_db \<Rightarrow> error + nat grid \<times> bool grid list" where
  "interactive_segmentation db =
     (let keys0 = keys (average_frame db) in
      if keys0 = [] then Inl IndexError
      else bind_err (fetch1 (\<lambda>k. k = keys0 ! 0) (average_frame db)) (\<lambda>avg_image.
        let thresh = (50::rat); mask = threshold_mask avg_image thresh;
            thresh = 60; mask = threshold_mask avg_image thresh;
            (label_im, nb_labels) = ndimage_label mask;
            sizes = label_sizes label_im;
            small = small_size_filter sizes 50
        in case take_index small label_im of
             Inl e \<Rightarrow> Inl e
           | Inr pixel_to_remove \<Rightarrow>
               (let label_im' = zero_where label_im pixel_to_remove
                in Inr (label_im', map snd (roi_masks label_im')))))"

lemma dict_matches_scan_key: "dict_matches (scan_key_attrs k') (scan_key_attrs k) \<longleftrightarrow> k' = k"
  by (cases k; cases k') (auto simp: dict_matches_def scan_key_attrs_def)

lemma dict_matches_plot_key:
  "dict_matches (seg_key_attrs k) plot_key \<longleftrightarrow> fst (fst (fst k)) = 0 \<and> snd (fst k) = 1 \<and> snd k = 1"
  by (auto simp: dict_matches_def seg_key_attrs_def scan_key_attrs_def plot_key_def)

lemma scan_file_same_inputs: "same_inputs db d \<Longrightarrow> scan_file d k = scan_file db k"
  by (simp add: same_inputs_def scan_file_def)

lemma average_frame_make_row:
  assumes "imaging_wf d" and "average_frame_make k d = Inr d'"
  shows "\<exists>im. imread (tif_files d) (scan_file d k) = Inr im \<and>
           d' = d\<lparr>average_frame := average_frame d @ [(k, np_mean_axis0 im)]\<rparr>"
proof (cases "k \<in> set (keys (scan d))")
  case True
  then show ?thesis using average_frame_make_Inr [OF assms(1) True assms(2)] by blast
next
  case False
  with assms(2) show ?thesis
    by (auto simp: average_frame_make_def bind_err_Inr_iff insert1_Inr_iff)
qed

text \<open>The rows \<open>AverageFrame.populate()\<close> adds are the means of their scans' files, as
  read from the starting database.\<close>

lemma average_frame_populate_means:
  assumes "imaging_wf db"
  shows "\<forall>r \<in> set (average_frame (fst (average_frame_populate db))).
           fst r \<in> set (keys (average_frame db)) \<or>
           (case imread (tif_files db) (scan_file db (fst r)) of
              Inl _ \<Rightarrow> False | Inr im \<Rightarrow> snd r = np_mean_axis0 im)"
proof -
  let ?M = "\<lambda>d. \<forall>r \<in> set (average_frame d). fst r \<in> set (keys (average_frame db)) \<or>
           (case imread (tif_files db) (scan_file db (fst r)) of
              Inl _ \<Rightarrow> False | Inr im \<Rightarrow> snd r = np_mean_axis0 im)"
  let ?Q = "\<lambda>d. imaging_wf d \<and> same_inputs db d \<and> ?M d"
  have "?Q (fst (average_frame_populate db))"
    unfolding average_frame_populate_def
  proof (rule populate_preserves [where Q = ?Q])
    fix k d d'
    assume Q: "?Q d" and mk: "average_frame_make k d = Inr d'"
    then have wf: "imaging_wf d" and si: "same_inputs db d" and M: "?M d" by simp_all
    obtain im where im: "imread (tif_files d) (scan_file d k) = Inr im"
      and d': "d' = d\<lparr>average_frame := average_frame d @ [(k, np_mean_axis0 im)]\<rparr>"
      using average_frame_make_row [OF wf mk] by blast
    have im0: "imread (tif_files db) (scan_file db k) = Inr im"
      using im si by (simp add: scan_file_same_inputs) (simp add: same_inputs_def)
    have "imaging_wf d' \<and> same_inputs d d'" using average_frame_make_step [OF wf mk] by simp
    moreover have "?M d'" using M im0 by (simp add: d')
    ultimately show "?Q d'" using si by (simp add: same_inputs_def)
  qed (simp add: assms same_inputs_def keys_def)
  then show ?thesis by simp
qed

lemma fetch1_not_single: "(\<And>r. restrict P t \<noteq> [r]) \<Longrightarrow> fetch1 P t = Inl FetchOneError"
  by (auto simp: fetch1_def split: list.split)

lemma show_example_roi_eq:
  "show_example_roi db = (if length (roi db) \<le> 4 then Inl IndexError else Inr (snd (roi db ! 4)))"
  by (simp add: show_example_roi_def fetch_roi_masks_def Let_def)

text \<open>C22. Insert and lookup agree: after \<open>AverageFrame.populate()\<close> on a well-formed
  database whose scan files are readable, fetching the average frame of a scan that had
  none, with the dict of its key as the notebook's last cell does, returns the mean
  over frames of that scan's TIFF file.\<close>

theorem average_frame_fetch_roundtrip:
  assumes wf: "imaging_wf db" and ok: "files_ok db"
    and k: "k \<in> set (keys (scan db))" and new: "\<not> average_frame_done db k"
  shows "\<exists>db' im. average_frame_populate db = (db', None) \<and>
           imread (tif_files db) (scan_file db k) = Inr im \<and>
           fetch_average_frame (scan_key_attrs k) db' = Inr (np_mean_axis0 im)"
proof -
  obtain db' where run: "average_frame_populate db = (db', None)" and wf': "imaging_wf db'"
    and done': "list_all (average_frame_done db') (keys (scan db))"
    using average_frame_populate_run [OF wf ok] by blast
  from done' k have "k \<in> set (keys (average_frame db'))"
    by (simp add: list_all_iff average_frame_done_def)
  then obtain v where v: "map_of (average_frame db') k = Some v"
    using map_of_key_Some by metis
  have means: "\<forall>r \<in> set (average_frame db'). fst r \<in> set (keys (average_frame db)) \<or>
           (case imread (tif_files db) (scan_file db (fst r)) of
              Inl _ \<Rightarrow> False | Inr im \<Rightarrow> snd r = np_mean_axis0 im)"
    using average_frame_populate_means [OF wf] run by simp
  have "case imread (tif_files db) (scan_file db k) of Inl _ \<Rightarrow> False | Inr im \<Rightarrow> v = np_mean_axis0 im"
    using bspec [OF means map_of_SomeD [OF v]] new by (simp add: average_frame_done_def split: sum.splits)
  then obtain im where im: "imread (tif_files db) (scan_file db k) = Inr im" and vim: "v = np_mean_axis0 im"
    by (auto split: sum.splits)
  have d: "distinct (keys (average_frame db'))" using wf' by (simp add: imaging_wf_def)
  have "fetch_average_frame (scan_key_attrs k) db' = Inr v"
    unfolding fetch_average_frame_def dict_matches_scan_key fetch1_key [OF d] v by simp
  with run im vim show ?thesis by blast
qed

theorem average_frame_fetch_roundtrip_witness:
  "imaging_wf example_imaging_db \<and> files_ok example_imaging_db \<and>
   ((0, ''2017-05-15''), 1) \<in> set (keys (scan example_imaging_db)) \<and>
   \<not> average_frame_done example_imaging_db ((0, ''2017-05-15''), 1) \<and>
   scan_key_attrs ((0, ''2017-05-15''), 1) = notebook_frame_key \<and>
   (\<exists>db' im. average_frame_populate example_imaging_db = (db', None) \<and>
      imread (tif_files example_imaging_db) (scan_file example_imaging_db ((0, ''2017-05-15''), 1)) = Inr im \<and>
      fetch_average_frame notebook_frame_key db' = Inr (np_mean_axis0 im))"
proof -
  have h1: "imaging_wf example_imaging_db" by code_simp
  have h2: "files_ok example_imaging_db" by code_simp
  have h3: "((0, ''2017-05-15''), 1) \<in> set (keys (scan example_imaging_db))" by code_simp
  have h4: "\<not> average_frame_done example_imaging_db ((0, ''2017-05-15''), 1)" by code_simp
  have h5: "scan_key_attrs ((0, ''2017-05-15''), 1) = notebook_frame_key"
    by (simp add: scan_key_attrs_def notebook_frame_key_def)
  show ?thesis using average_frame_fetch_roundtrip [OF h1 h2 h3 h4] h1 h2 h3 h4 h5 by simp
qed

text \<open>C23. The key of the trace-plotting cell does not pick a session: \<open>session_number\<close>
  is not an attribute of \<open>Fluorescence\<close> and is ignored, so as soon as mouse 0 has two
  sessions whose scan 1 was segmented with parameter set 1 and has fluorescence, the
  cell's \<open>fetch1\<close> of \<open>time\<close> raises instead of returning one time axis.\<close>

theorem fetch_plot_data_ambiguous:
  assumes "(((0, d1), 1), 1) \<in> set (keys (fluorescence db))"
    and "(((0, d2), 1), 1) \<in> set (keys (fluorescence db))" and "d1 \<noteq> d2"
  shows "fetch_plot_data plot_key db = Inl FetchOneError"
proof -
  let ?R = "restrict (\<lambda>k. dict_matches (seg_key_attrs k) plot_key) (fluorescence db)"
  have in1: "(((0, d1), 1), 1) \<in> set (keys ?R)" and in2: "(((0, d2), 1), 1) \<in> set (keys ?R)"
    using assms(1,2) by (simp_all add: set_keys_restrict dict_matches_plot_key)
  have "?R \<noteq> [r]" for r
  proof
    assume "?R = [r]"
    with in1 in2 have e1: "(((0, d1), 1), 1) = fst r" and e2: "(((0, d2), 1), 1) = fst r"
      by (simp_all add: keys_def)
    from e1 e2 have "(((0::int, d1), 1::int), 1::int) = (((0, d2), 1), 1)" by (rule trans [OF _ sym])
    with assms(3) show False by simp
  qed
  then show ?thesis by (simp add: fetch_plot_data_def fetch1_not_single)
qed

theorem fetch_plot_data_ambiguous_witness:
  "(((0, ''2017-05-15''), 1), 1) \<in> set (keys (fluorescence example_two_sessions_db)) \<and>
   (((0, ''2017-05-19''), 1), 1) \<in> set (keys (fluorescence example_two_sessions_db)) \<and>
   ''2017-05-15'' \<noteq> ''2017-05-19'' \<and>
   fetch_plot_data plot_key example_two_sessions_db = Inl FetchOneError"
proof -
  have h1: "(((0, ''2017-05-15''), 1), 1) \<in> set (keys (fluorescence example_two_sessions_db))"
    by (simp add: example_two_sessions_db_def keys_def)
  have h2: "(((0, ''2017-05-19''), 1), 1) \<in> set (keys (fluorescence example_two_sessions_db))"
    by (simp add: example_two_sessions_db_def keys_def)
  have h3: "''2017-05-15'' \<noteq> ''2017-05-19''" by simp
  show ?thesis using fetch_plot_data_ambiguous [OF h1 h2 h3] h1 h2 h3 by blast
qed

end
