(* ===== verification/Spec2Isabelle.thy ===== *)
theory Spec2Isabelle
  imports Segment ImagingRun EphysRun ComputedRun Explore
begin

text \<open>
  \<^bold>\<open>A verification library for the DataJoint calcium-imaging and electrophysiology
  tutorial pipeline.\<close>

  The repository is a set of notebooks. Each defines DataJoint tables and the \<open>make\<close>
  methods that fill them, then drives them with the library's \<open>populate\<close>:
  \<^item> \<open>src/notebooks/02-Calcium-Imaging-Imported-Tables.ipynb\<close>: the manual table
    \<open>Scan\<close> and the imported table \<open>AverageFrame\<close>, whose \<open>make\<close> loads a scan's TIFF
    stack and averages it over frames;
  \<^item> \<open>src/notebooks/04-Electrophysiology-Imported-Tables.ipynb\<close>: the imported table
    \<open>Neuron\<close>, whose \<open>make\<close> loads \<open>data_{mouse_id}_{session_date}.npy\<close> and inserts one
    row per neuron;
  \<^item> \<open>src/unnamed/part_001\<close> (the computed-tables notebook): \<open>SegmentationParam\<close>, the
    computed table \<open>Segmentation\<close> with its part table \<open>Roi\<close> (threshold the average
    frame, label its blobs with \<open>scipy.ndimage.label\<close>, drop the small ones, one ROI per
    blob), \<open>Fluorescence\<close> with its part table \<open>Trace\<close> (the mean of every frame over
    every ROI), and the cascading deletes;
  \<^item> \<open>src/unnamed/part_000\<close>: the development container's Dockerfile (not modelled).
  Each notebook also has exploration cells that fetch results back and plot them.
  The tables meet through foreign keys: \<open>Scan\<close> and \<open>Neuron\<close> hang off \<open>Session\<close>,
  \<open>AverageFrame\<close> off \<open>Scan\<close>, \<open>Segmentation\<close> off \<open>AverageFrame\<close> and
  \<open>SegmentationParam\<close>, \<open>Fluorescence\<close> off \<open>Segmentation\<close>.

  \<^bold>\<open>Theories.\<close> Each models one part; a database is a record with one field per
  table (a table is the list of its rows, key first, in insertion order) and, for the
  imported tables, the files on disk as a map from path to contents. Every operation
  returns \<open>error + db\<close>: the left value is the exception the code raises.
  \<^item> \<open>Prelude\<close>: the error type, images as row-major lists of rows with their shape
    predicates, and the list lemmas the components share (collection \<open>grid_simps\<close>).
  \<^item> \<open>Label\<close>: \<open>scipy.ndimage.label\<close> with its default 4-connectivity, from its
    documented contract (the library is not in the repository): a raster scan that gives
    each unlabelled foreground pixel a fresh label and grows its component. The growth
    runs one round per foreground pixel; \<open>component_closed\<close> shows that this fuel
    reaches the fixpoint (every round that changes the set adds a pixel), so the bound
    is never the reason a component stops. The relation \<open>conn\<close> (chains of adjacent
    foreground pixels) characterises the grown components, and two pixels share a label
    exactly when they are connected (\<open>ndimage_label_components\<close>).
  \<^item> \<open>Segment\<close>: the image processing of \<open>Segmentation.make\<close> (threshold, label,
    \<open>np.unique\<close> counts, the \<open>small_size_filter[label_im]\<close> indexing with its
    \<open>IndexError\<close>, zeroing small blobs, ROI masks), equated with a reference definition
    (C1). The blobs of the thresholded frame are stated on the image itself
    (\<open>above_path\<close>: paths of pixels above the threshold, one row or one column per step),
    independently of how \<open>Label\<close> computes them: adjacent pixels above the threshold share
    a nonzero label (C26), and two pixels share a label exactly when such a path joins
    them (C27).
  \<^item> \<open>Table\<close>: DataJoint's \<open>insert1\<close>, \<open>insert\<close>, \<open>fetch1\<close>, restriction, antijoin
    and \<open>populate\<close> (from the library's documentation), generic in the database type.
    \<open>populate\<close> is one transaction per key and stops at the first error; its lemmas
    (\<open>populate_complete\<close>, \<open>populate_preserves\<close>, \<open>populate_error\<close>) take a
    \<open>make_contract\<close> (what a successful \<open>make\<close> preserves and records, for the keys
    satisfying a predicate), a totality hypothesis, or an invariant, which each component
    discharges for its own \<open>make\<close>; \<open>populate_error\<close> traces an exception back to the
    failing call of \<open>make\<close>. \<open>cell_result\<close> is a notebook cell: its exception is
    reported and the state kept.
  \<^item> \<open>Mouse\<close>: the \<open>Session\<close> rows of \<open>pipeline.mouse\<close> and \<open>Mouse\<close> as the table of its
    primary keys, which \<open>Session\<close> references (the module is not in the repository).
  \<^item> \<open>Imaging\<close>: \<open>Scan\<close>, \<open>AverageFrame\<close>, \<open>imread\<close> (2-D for a one-page file),
    \<open>np.mean(axis=0)\<close>, the three versions of the table in the notebook, and the
    notebook's cells as a step function. Claims C2 to C5: completeness and idempotence of
    \<open>populate\<close>, the mean, and the early versions of the table.
  \<^item> \<open>ImagingRun\<close>: the imaging notebook's cells (\<open>notebook_ops\<close>, which leave out the two
    \<open>populate\<close> calls of the early versions: they change nothing) run in order and in
    any order. Claims C30 and C13: the notebook's sequence ends with every scan, the one
    inserted last included, averaged; under any sequence of cells every stored average
    frame is the mean of the file its scan names.
  \<^item> \<open>Ephys\<close>: \<open>Neuron\<close>, the printing of \<open>int\<close> in the file name, the insertion loop,
    and \<open>Session.insert1\<close> with its foreign key to \<open>Mouse\<close>. Claims C6 to C12:
    completeness, idempotence, rows inserted, errors, injectivity of the file name, empty
    files, and the new-session cells.
  \<^item> \<open>EphysRun\<close>: the cells of the electrophysiology notebook as operations (the
    three definitions of \<open>Neuron\<close> rebind the name, \<open>Neuron.populate()\<close> calls the
    \<open>make\<close> of the class bound at that time, \<open>Session.insert1\<close>), run in order with
    each cell's exception recorded, and the inductive set of states they reach. Claims
    C28 and C29: the notebook's own cells raise only at the first \<open>populate\<close> and end
    with every session imported; under any sequence of cells the database stays
    well-formed and every stored neuron is the matching row of its session's file.
  \<^item> \<open>Computed\<close>: \<open>SegmentationParam\<close>, \<open>Segmentation\<close>/\<open>Roi\<close> and the
    cascading deletes over a record that nests the imaging database. Claims C14, C15,
    C19, C25: the rows \<open>Segmentation.make\<close> inserts, the ROIs partitioning the kept
    blobs, completeness of \<open>populate\<close>, and the one exception \<open>Segmentation.populate()\<close>
    can raise.
  \<^item> \<open>Fluorescence\<close>: \<open>Fluorescence\<close>/\<open>Trace\<close>, the masked mean per frame and the shapes
    handed over from \<open>Segmentation\<close> (\<open>frames_match\<close>, \<open>roi_sizes_ok\<close>). Claims C16 to
    C18, C20: the traces \<open>make\<close> inserts, a single-page scan accepted by
    \<open>AverageFrame.make\<close> and refused by \<open>Fluorescence.make\<close>, the bounds of a trace, and
    completeness of \<open>Fluorescence.populate()\<close> after \<open>Segmentation\<close>.
  \<^item> \<open>ComputedRun\<close>: the computed notebook's cells as operations (a delete carries the
    answer to DataJoint's confirmation prompt; the notebook answers No to the first) and
    the inductive set of databases they reach; every Segmentation and Roi row agrees with
    what \<open>make\<close> computes from its inputs in all of them (C24, by rule induction).
  \<^item> \<open>Explore\<close>: the cells that read results back, with DataJoint's restriction by a
    dict (attributes outside the table's heading are ignored): the average frame fetched
    by its key is the mean of its file after \<open>populate\<close> (C22), and the trace-plotting key
    does not select a session (C23). The electrophysiology exploration cells and the
    interactive segmentation cells are modelled as definitions.
  This theory adds the claim spanning the computed stages (C21): Segmentation's masks
  are what Fluorescence can reshape, so the two \<open>populate\<close>s run back to back succeed.

  \<^bold>\<open>Fuel and bounds.\<close> The only fuel is the component growth of \<open>Label\<close> (one round
  per foreground pixel, shown enough). \<open>populate\<close> and \<open>make\<close> recurse on finite key
  lists and rows, so every definition is total and executable; the witnesses evaluate
  them with \<open>simp\<close> or \<open>code_simp\<close>.

  \<^bold>\<open>Not modelled.\<close> Plotting (matplotlib), printing and table display cells;
  the container build (\<open>src/unnamed/part_000\<close>, a Dockerfile that installs tools and sets
  credentials: packaging with no behaviour to verify); the database connection and schema
  declaration; the \<open>Mouse\<close> table's own cells (the \<open>pipeline\<close> package is not in the
  repository). The exercise cells that hold only an \<open>ENTER YOUR CODE\<close> comment are
  modelled by the call the surrounding text describes.
  Floating-point rounding: pixel values are rationals, on which the code only compares,
  sums and divides; a mean over no values is 0 where numpy gives NaN. The 1-D array
  \<open>np.mean(im, axis=0)\<close> of a one-page TIFF is kept as a one-row image. Fetches return
  rows in insertion order, where DataJoint makes no promise of order. File contents are given, not parsed: a TIFF is its list of pages, an
  \<open>.npy\<close> file its 2-D array.
\<close>

text \<open>C21. The computed part of the pipeline, run as the notebook runs it:
  \<open>Segmentation.populate()\<close> and then \<open>Fluorescence.populate()\<close>. On a well-formed
  database whose average frames are images, none entirely above a parameter set's
  threshold, each with as many pixels as a page of its scan's TIFF stack, and whose
  existing ROI masks have the size of their frames, both calls end without error, the
  result is well-formed, and every pair of an average frame and a parameter set has its
  segmentation and its fluorescence traces. The masks \<open>Segmentation.make\<close> cuts are what
  \<open>Fluorescence.make\<close> can reshape, which is the interface between the two stages.\<close>

theorem computed_pipeline:
  assumes wf: "computed_wf db" and fr: "frames_rect db" and seg: "seg_inputs_ok db"
    and fm: "frames_match db" and rs: "roi_sizes_ok db"
  shows "\<exists>db1 db2. segmentation_populate db = (db1, None) \<and> fluorescence_populate db1 = (db2, None) \<and>
           computed_wf db2 \<and>
           list_all (\<lambda>k. segmentation_done db2 k \<and> fluorescence_done db2 k) (segmentation_key_source db)"
proof -
  obtain db1 where s1: "segmentation_populate db = (db1, None)" and wf1: "computed_wf db1"
    and im1: "imaging db1 = imaging db" and done1: "list_all (segmentation_done db1) (segmentation_key_source db)"
    using segmentation_populate_run [OF wf fr seg] by blast
  have "roi_sizes_ok (fst (segmentation_populate db))" by (rule segmentation_populate_roi_sizes [OF wf fr rs])
  then have rs1: "roi_sizes_ok db1" by (simp add: s1)
  have fm1: "frames_match db1" using fm by (simp add: frames_match_def im1)
  obtain db2 where s2: "fluorescence_populate db1 = (db2, None)" and wf2: "computed_wf db2"
    and sg2: "segmentation db2 = segmentation db1"
    and done2: "list_all (fluorescence_done db2) (keys (segmentation db1))"
    using fluorescence_populate_run [OF wf1 fluorescence_inputs_ok_intro [OF wf1 fm1 rs1]] by blast
  have "segmentation_done db2 k \<and> fluorescence_done db2 k" if "k \<in> set (segmentation_key_source db)" for k
  proof -
    from done1 that have "k \<in> set (keys (segmentation db1))"
      by (simp add: list_all_iff segmentation_done_def)
    with done2 sg2 show ?thesis by (simp add: list_all_iff segmentation_done_def)
  qed
  with s1 s2 wf2 show ?thesis by (auto simp: list_all_iff)
qed

theorem computed_pipeline_witness:
  "computed_wf example_computed_db \<and> frames_rect example_computed_db \<and>
   seg_inputs_ok example_computed_db \<and> frames_match example_computed_db \<and>
   roi_sizes_ok example_computed_db \<and>
   (\<exists>db1 db2. segmentation_populate example_computed_db = (db1, None) \<and>
      fluorescence_populate db1 = (db2, None) \<and> computed_wf db2 \<and>
      list_all (\<lambda>k. segmentation_done db2 k \<and> fluorescence_done db2 k)
        (segmentation_key_source example_computed_db))"
proof -
  have h1: "computed_wf example_computed_db" by code_simp
  have h2: "frames_rect example_computed_db" by code_simp
  have h3: "seg_inputs_ok example_computed_db" by code_simp
  have h4: "frames_match example_computed_db" by code_simp
  have h5: "roi_sizes_ok example_computed_db" by code_simp
  show ?thesis using computed_pipeline [OF h1 h2 h3 h4 h5] h1 h2 h3 h4 h5 by blast
qed

end
